(* ===== verification/Sip_Prelude.thy ===== *)
theory Sip_Prelude
  imports Main "HOL-Library.Word"
begin

text \<open>
  Shared vocabulary of the development: Rust's machine types, the outcome type of fallible
  code, and the collections of proof hints the components fill.

  A byte (Rust's \<open>u8\<close> as an element of a slice) is a HOL \<open>char\<close>, which has exactly the 256
  values of a byte; a byte slice and a string slice are both \<open>char list\<close>, so literals are
  written as in the source. Rust's integers keep their width (\<open>u8\<close> to \<open>u64\<close>); \<open>usize\<close> values
  that index a buffer are \<open>nat\<close>.
\<close>

section \<open>Machine types\<close>

type_synonym byte = char
type_synonym bytes = "char list"
type_synonym u8 = "8 word"
type_synonym u16 = "16 word"
type_synonym u32 = "32 word"
type_synonym u64 = "64 word"

section \<open>Outcomes of fallible code\<close>

text \<open>
  \<open>Ok\<close> and \<open>Err\<close> are Rust's \<open>Result\<close>. \<open>Panic\<close> is a panic (an arithmetic overflow with the
  overflow checks of the development profile, an \<open>unwrap\<close> of nothing, a \<open>todo!()\<close>).
  \<open>OutOfFuel\<close> marks a loop that used up its fuel; the development proves that it never occurs.
\<close>

datatype ('e, 'a) res = Ok 'a | Err 'e | Panic | OutOfFuel

fun bind_res :: "('e, 'a) res \<Rightarrow> ('a \<Rightarrow> ('e, 'b) res) \<Rightarrow> ('e, 'b) res" where
  "bind_res (Ok x) f = f x"
| "bind_res (Err e) f = Err e"
| "bind_res Panic f = Panic"
| "bind_res OutOfFuel f = OutOfFuel"

fun map_ok :: "('a \<Rightarrow> 'b) \<Rightarrow> ('e, 'a) res \<Rightarrow> ('e, 'b) res" where
  "map_ok f (Ok x) = Ok (f x)"
| "map_ok f (Err e) = Err e"
| "map_ok f Panic = Panic"
| "map_ok f OutOfFuel = OutOfFuel"

fun map_err :: "('e \<Rightarrow> 'f) \<Rightarrow> ('e, 'a) res \<Rightarrow> ('f, 'a) res" where
  "map_err f (Ok x) = Ok x"
| "map_err f (Err e) = Err (f e)"
| "map_err f Panic = Panic"
| "map_err f OutOfFuel = OutOfFuel"

fun is_ok :: "('e, 'a) res \<Rightarrow> bool" where
  "is_ok (Ok x) = True"
| "is_ok r = False"

definition ok_or :: "'a option \<Rightarrow> 'e \<Rightarrow> ('e, 'a) res" where
  "ok_or x e = (case x of Some v \<Rightarrow> Ok v | None \<Rightarrow> Err e)"

text \<open>Rust's \<open>transpose\<close> of an optional fallible value.\<close>

definition transpose :: "('e, 'a) res option \<Rightarrow> ('e, 'a option) res" where
  "transpose x = (case x of None \<Rightarrow> Ok None | Some r \<Rightarrow> map_ok Some r)"

lemma bind_res_Ok_iff: "bind_res r f = Ok y \<longleftrightarrow> (\<exists>x. r = Ok x \<and> f x = Ok y)"
  by (cases r) auto

lemma bind_res_assoc: "bind_res (bind_res r f) g = bind_res r (\<lambda>x. bind_res (f x) g)"
  by (cases r) auto

lemma map_ok_Ok_iff: "map_ok f r = Ok y \<longleftrightarrow> (\<exists>x. r = Ok x \<and> y = f x)"
  by (cases r) auto

lemma map_ok_OutOfFuel_iff [simp]: "map_ok f r = OutOfFuel \<longleftrightarrow> r = OutOfFuel"
  by (cases r) auto

lemma map_ok_Panic_iff [simp]: "map_ok f r = Panic \<longleftrightarrow> r = Panic"
  by (cases r) auto

lemma map_err_Ok_iff [simp]: "map_err f r = Ok y \<longleftrightarrow> r = Ok y"
  by (cases r) auto

lemma map_err_OutOfFuel_iff [simp]: "map_err f r = OutOfFuel \<longleftrightarrow> r = OutOfFuel"
  by (cases r) auto

lemma map_err_Panic_iff [simp]: "map_err f r = Panic \<longleftrightarrow> r = Panic"
  by (cases r) auto

lemma ok_or_simps [simp]: "ok_or (Some v) e = Ok v" "ok_or None e = Err e"
  by (simp_all add: ok_or_def)

lemma transpose_simps [simp]: "transpose None = Ok None" "transpose (Some r) = map_ok Some r"
  by (simp_all add: transpose_def)

lemma is_ok_iff: "is_ok r \<longleftrightarrow> (\<exists>x. r = Ok x)"
  by (cases r) auto

section \<open>Collections of hints\<close>

text \<open>
  \<open>good_intros\<close>: introduction rules that a parser keeps the cursor invariant, only moves
  forward and does not run out of fuel. \<open>calm_intros\<close>: rules that a parser does not panic.
  \<open>scan_simps\<close>: what each scanner operation does to the remaining input.
\<close>

named_theorems good_intros
named_theorems calm_intros
named_theorems scan_simps

section \<open>Lists\<close>

lemma takeWhile_append_stop:
  "\<forall>x\<in>set xs. P x \<Longrightarrow> ys = [] \<or> \<not> P (hd ys) \<Longrightarrow> takeWhile P (xs @ ys) = xs"
  by (induction xs) (cases ys, auto)+

lemma dropWhile_append_stop:
  "\<forall>x\<in>set xs. P x \<Longrightarrow> ys = [] \<or> \<not> P (hd ys) \<Longrightarrow> dropWhile P (xs @ ys) = ys"
  by (induction xs) (cases ys, auto)+

lemma take_length_takeWhile [simp]: "take (length (takeWhile P xs)) xs = takeWhile P xs"
  by (induction xs) auto

text \<open>The longest common prefix of two lists.\<close>

fun common_prefix :: "'a list \<Rightarrow> 'a list \<Rightarrow> 'a list" where
  "common_prefix (x # xs) (y # ys) = (if x = y then x # common_prefix xs ys else [])"
| "common_prefix xs ys = []"

lemma common_prefix_whole: "take (length ys) xs = ys \<Longrightarrow> common_prefix xs ys = ys"
  by (induction xs ys rule: common_prefix.induct) auto

lemma drop_length_takeWhile: "drop (length (takeWhile P xs)) xs = dropWhile P xs"
  by (induction xs) auto

text \<open>
  The registries of the program (transactions, dialogs, transports) are keyed hash maps behind
  a lock; they are partial maps, and these are the three operations the code uses.
\<close>

locale keyed_table =
  fixes insert_entry :: "'k \<Rightarrow> 'v \<Rightarrow> 't \<Rightarrow> 't"
    and remove_entry :: "'k \<Rightarrow> 't \<Rightarrow> 't"
    and find_entry :: "'t \<Rightarrow> 'k \<Rightarrow> 'v option"
  assumes find_insert: "find_entry (insert_entry k v t) = (find_entry t)(k \<mapsto> v)"
    and find_remove: "find_entry (remove_entry k t) = (find_entry t)(k := None)"
begin

lemma find_after_insert: "find_entry (insert_entry k v t) k = Some v"
  by (simp add: find_insert)

lemma find_after_remove: "find_entry (remove_entry k t) k = None"
  by (simp add: find_remove)

lemma find_insert_other: "k' \<noteq> k \<Longrightarrow> find_entry (insert_entry k v t) k' = find_entry t k'"
  by (simp add: find_insert)

lemma find_remove_other: "k' \<noteq> k \<Longrightarrow> find_entry (remove_entry k t) k' = find_entry t k'"
  by (simp add: find_remove)

lemma remove_undoes_insert:
  "find_entry t k = None \<Longrightarrow> find_entry (remove_entry k (insert_entry k v t)) = find_entry t"
  by (simp add: find_insert find_remove fun_upd_idem)

lemma insert_dom: "dom (find_entry (insert_entry k v t)) = insert k (dom (find_entry t))"
  by (simp add: find_insert)

lemma remove_dom: "dom (find_entry (remove_entry k t)) = dom (find_entry t) - {k}"
  by (simp add: find_remove)

end

end
