(* ===== verification/Rust_Std.thy ===== *)
theory Rust_Std
  imports Sip_Prelude
begin

text \<open>
  The parts of Rust's standard library the program calls on its data: ASCII classes,
  decimal integer parsing and printing, UTF-8 validation, and the parsing and printing of IP
  addresses.
\<close>

section \<open>ASCII classes\<close>

definition byte_val :: "byte \<Rightarrow> nat" where
  "byte_val b = of_char b"

definition is_ascii :: "byte \<Rightarrow> bool" where
  "is_ascii b \<longleftrightarrow> byte_val b < 128"

definition is_ascii_digit :: "byte \<Rightarrow> bool" where
  "is_ascii_digit b \<longleftrightarrow> 48 \<le> byte_val b \<and> byte_val b \<le> 57"

definition is_ascii_uppercase :: "byte \<Rightarrow> bool" where
  "is_ascii_uppercase b \<longleftrightarrow> 65 \<le> byte_val b \<and> byte_val b \<le> 90"

definition is_ascii_lowercase :: "byte \<Rightarrow> bool" where
  "is_ascii_lowercase b \<longleftrightarrow> 97 \<le> byte_val b \<and> byte_val b \<le> 122"

definition is_ascii_alphabetic :: "byte \<Rightarrow> bool" where
  "is_ascii_alphabetic b \<longleftrightarrow> is_ascii_uppercase b \<or> is_ascii_lowercase b"

definition is_ascii_whitespace :: "byte \<Rightarrow> bool" where
  "is_ascii_whitespace b \<longleftrightarrow> byte_val b \<in> {32, 9, 10, 12, 13}"

definition to_ascii_lowercase :: "byte \<Rightarrow> byte" where
  "to_ascii_lowercase b = (if is_ascii_uppercase b then char_of (byte_val b + 32) else b)"

definition eq_ignore_ascii_case :: "bytes \<Rightarrow> bytes \<Rightarrow> bool" where
  "eq_ignore_ascii_case a b \<longleftrightarrow> map to_ascii_lowercase a = map to_ascii_lowercase b"

lemma byte_val_less [simp]: "byte_val b < 256"
  by (simp add: byte_val_def)

lemma byte_val_eq_iff [simp]: "byte_val a = byte_val b \<longleftrightarrow> a = b"
  by (simp add: byte_val_def)

lemma byte_val_char_of: "n < 256 \<Longrightarrow> byte_val (char_of n) = n"
  by (simp add: byte_val_def)

lemma eq_ignore_ascii_case_refl [simp]: "eq_ignore_ascii_case a a"
  by (simp add: eq_ignore_ascii_case_def)

section \<open>Decimal integers\<close>

text \<open>Rust's \<open>IntErrorKind\<close>, and \<open>from_str_radix\<close> in base 10 for an unsigned type of the given
  maximum: an empty string, a lone sign and an invalid digit are errors, a leading plus sign is
  accepted, and the digits are accumulated from the left with overflow checks.\<close>

datatype parse_int_error = IntEmpty | InvalidDigit | PosOverflow | NegOverflow

definition digit_val :: "byte \<Rightarrow> nat" where
  "digit_val b = byte_val b - 48"

fun parse_digits :: "nat \<Rightarrow> nat \<Rightarrow> bytes \<Rightarrow> (parse_int_error, nat) res" where
  "parse_digits mx acc [] = Ok acc"
| "parse_digits mx acc (b # bs) =
     (if \<not> is_ascii_digit b then Err InvalidDigit
      else if mx < acc * 10 then Err PosOverflow
      else if mx < acc * 10 + digit_val b then Err PosOverflow
      else parse_digits mx (acc * 10 + digit_val b) bs)"

definition parse_uint :: "nat \<Rightarrow> bytes \<Rightarrow> (parse_int_error, nat) res" where
  "parse_uint mx bs =
     (case bs of
        [] \<Rightarrow> Err IntEmpty
      | [b] \<Rightarrow> if b = CHR ''+'' \<or> b = CHR ''-'' then Err InvalidDigit else parse_digits mx 0 bs
      | b # rest \<Rightarrow> if b = CHR ''+'' then parse_digits mx 0 rest else parse_digits mx 0 bs)"

definition parse_u8 :: "bytes \<Rightarrow> (parse_int_error, u8) res" where
  "parse_u8 bs = map_ok of_nat (parse_uint (2 ^ 8 - 1) bs)"

definition parse_u16 :: "bytes \<Rightarrow> (parse_int_error, u16) res" where
  "parse_u16 bs = map_ok of_nat (parse_uint (2 ^ 16 - 1) bs)"

definition parse_u32 :: "bytes \<Rightarrow> (parse_int_error, u32) res" where
  "parse_u32 bs = map_ok of_nat (parse_uint (2 ^ 32 - 1) bs)"

definition parse_u64 :: "bytes \<Rightarrow> (parse_int_error, u64) res" where
  "parse_u64 bs = map_ok of_nat (parse_uint (2 ^ 64 - 1) bs)"

definition parse_usize :: "bytes \<Rightarrow> (parse_int_error, nat) res" where
  "parse_usize bs = parse_uint (2 ^ 64 - 1) bs"

text \<open>Signed 64-bit parsing: with a leading minus sign the digits may go up to \<open>2 ^ 63\<close>.\<close>

fun neg_overflow :: "parse_int_error \<Rightarrow> parse_int_error" where
  "neg_overflow PosOverflow = NegOverflow"
| "neg_overflow e = e"

definition parse_i64 :: "bytes \<Rightarrow> (parse_int_error, int) res" where
  "parse_i64 bs =
     (case bs of
        [] \<Rightarrow> Err IntEmpty
      | [b] \<Rightarrow> if b = CHR ''+'' \<or> b = CHR ''-'' then Err InvalidDigit
               else map_ok int (parse_digits (2 ^ 63 - 1) 0 bs)
      | b # rest \<Rightarrow>
          if b = CHR ''+'' then map_ok int (parse_digits (2 ^ 63 - 1) 0 rest)
          else if b = CHR ''-''
          then map_err neg_overflow (map_ok (\<lambda>n. - int n) (parse_digits (2 ^ 63) 0 rest))
          else map_ok int (parse_digits (2 ^ 63 - 1) 0 bs))"

definition digit_char :: "nat \<Rightarrow> byte" where
  "digit_char d = char_of (48 + d)"

fun show_nat :: "nat \<Rightarrow> bytes" where
  "show_nat n = (if n < 10 then [digit_char n] else show_nat (n div 10) @ [digit_char (n mod 10)])"

declare show_nat.simps [simp del]

abbreviation show_word :: "'a::len word \<Rightarrow> bytes" where
  "show_word w \<equiv> show_nat (unat w)"

definition show_int :: "int \<Rightarrow> bytes" where
  "show_int i = (if i < 0 then CHR ''-'' # show_nat (nat (- i)) else show_nat (nat i))"

lemma digit_char_is_digit [simp]: "d < 10 \<Longrightarrow> is_ascii_digit (digit_char d)"
  by (simp add: is_ascii_digit_def digit_char_def byte_val_char_of)

lemma digit_val_char [simp]: "d < 10 \<Longrightarrow> digit_val (digit_char d) = d"
  by (simp add: digit_val_def digit_char_def byte_val_char_of)

lemma digit_val_less: "is_ascii_digit b \<Longrightarrow> digit_val b < 10"
  by (auto simp: is_ascii_digit_def digit_val_def)

lemma show_nat_digits: "\<forall>b\<in>set (show_nat n). is_ascii_digit b"
proof (induction n rule: show_nat.induct)
  case (1 n)
  then show ?case by (subst show_nat.simps) auto
qed

lemma show_nat_not_Nil [simp]: "show_nat n \<noteq> []"
  by (subst show_nat.simps) simp

lemma parse_digits_append:
  "parse_digits mx acc (xs @ ys) = bind_res (parse_digits mx acc xs) (\<lambda>a. parse_digits mx a ys)"
  by (induction mx acc xs rule: parse_digits.induct) auto

lemma parse_digits_show_nat: "n \<le> mx \<Longrightarrow> parse_digits mx 0 (show_nat n) = Ok n"
proof (induction n rule: show_nat.induct)
  case (1 n)
  show ?case
  proof (cases "n < 10")
    case True
    with "1.prems" show ?thesis by (simp add: show_nat.simps [of n])
  next
    case False
    have "parse_digits mx 0 (show_nat (n div 10)) = Ok (n div 10)"
      using "1.IH" [OF False] "1.prems" by simp
    moreover have "n div 10 * 10 + n mod 10 = n" by simp
    ultimately show ?thesis
      using False "1.prems" by (simp add: show_nat.simps [of n] parse_digits_append)
  qed
qed

lemma digit_not_sign: "is_ascii_digit b \<Longrightarrow> b \<noteq> CHR ''+'' \<and> b \<noteq> CHR ''-''"
  by (auto simp: is_ascii_digit_def byte_val_def)

lemma parse_uint_digits:
  "bs \<noteq> [] \<Longrightarrow> \<forall>b\<in>set bs. is_ascii_digit b \<Longrightarrow> parse_uint mx bs = parse_digits mx 0 bs"
  by (cases bs; cases "tl bs") (simp_all add: parse_uint_def digit_not_sign del: parse_digits.simps)

lemma parse_uint_show_nat: "n \<le> mx \<Longrightarrow> parse_uint mx (show_nat n) = Ok n"
  by (simp add: parse_uint_digits show_nat_digits parse_digits_show_nat)

lemma parse_digits_bound: "parse_digits mx acc bs = Ok n \<Longrightarrow> acc \<le> mx \<Longrightarrow> n \<le> mx"
  by (induction mx acc bs rule: parse_digits.induct) (auto split: if_splits)

lemma parse_uint_bound: "parse_uint mx bs = Ok n \<Longrightarrow> n \<le> mx"
  by (auto simp: parse_uint_def intro: parse_digits_bound split: list.splits if_splits)

lemma parse_digits_neq [simp]: "parse_digits mx acc bs \<noteq> Panic" "parse_digits mx acc bs \<noteq> OutOfFuel"
  by (induction mx acc bs rule: parse_digits.induct) auto

lemma parse_uint_neq [simp]: "parse_uint mx bs \<noteq> Panic" "parse_uint mx bs \<noteq> OutOfFuel"
  by (auto simp: parse_uint_def split: list.splits)

lemma parse_u8_show [simp]: "parse_u8 (show_word w) = Ok w"
proof -
  have "unat w < 2 ^ LENGTH(8)" by (rule unsigned_less)
  then show ?thesis by (simp add: parse_u8_def parse_uint_show_nat)
qed

lemma parse_u16_show [simp]: "parse_u16 (show_word w) = Ok w"
proof -
  have "unat w < 2 ^ LENGTH(16)" by (rule unsigned_less)
  then show ?thesis by (simp add: parse_u16_def parse_uint_show_nat)
qed

lemma parse_u32_show [simp]: "parse_u32 (show_word w) = Ok w"
proof -
  have "unat w < 2 ^ LENGTH(32)" by (rule unsigned_less)
  then show ?thesis by (simp add: parse_u32_def parse_uint_show_nat)
qed

lemma parse_u64_show [simp]: "parse_u64 (show_word w) = Ok w"
proof -
  have "unat w < 2 ^ LENGTH(64)" by (rule unsigned_less)
  then show ?thesis by (simp add: parse_u64_def parse_uint_show_nat)
qed

lemma parse_word_neq [simp]:
  "parse_u8 bs \<noteq> Panic" "parse_u8 bs \<noteq> OutOfFuel" "parse_u16 bs \<noteq> Panic" "parse_u16 bs \<noteq> OutOfFuel"
  "parse_u32 bs \<noteq> Panic" "parse_u32 bs \<noteq> OutOfFuel" "parse_u64 bs \<noteq> Panic" "parse_u64 bs \<noteq> OutOfFuel"
  "parse_usize bs \<noteq> Panic" "parse_usize bs \<noteq> OutOfFuel"
  by (simp_all add: parse_u8_def parse_u16_def parse_u32_def parse_u64_def parse_usize_def)

lemma parse_i64_neq [simp]: "parse_i64 bs \<noteq> Panic" "parse_i64 bs \<noteq> OutOfFuel"
  by (auto simp: parse_i64_def split: list.splits)

section \<open>UTF-8\<close>

text \<open>\<open>str::from_utf8\<close>: the error says how many leading bytes are valid and how long the
  invalid sequence is (\<open>None\<close>: the input ended inside a sequence).\<close>

record utf8_error =
  valid_up_to :: nat
  error_len :: "nat option"

definition in_range :: "nat \<Rightarrow> nat \<Rightarrow> byte \<Rightarrow> bool" where
  "in_range lo hi b \<longleftrightarrow> lo \<le> byte_val b \<and> byte_val b \<le> hi"

definition is_cont :: "byte \<Rightarrow> bool" where
  "is_cont b = in_range 128 191 b"

definition second_ok3 :: "byte \<Rightarrow> byte \<Rightarrow> bool" where
  "second_ok3 b c =
     (if byte_val b = 224 then in_range 160 191 c
      else if byte_val b = 237 then in_range 128 159 c
      else in_range 128 191 c)"

definition second_ok4 :: "byte \<Rightarrow> byte \<Rightarrow> bool" where
  "second_ok4 b c =
     (if byte_val b = 240 then in_range 144 191 c
      else if byte_val b = 244 then in_range 128 143 c
      else in_range 128 191 c)"

abbreviation utf8_err :: "nat \<Rightarrow> nat option \<Rightarrow> (utf8_error, 'a) res" where
  "utf8_err p l \<equiv> Err \<lparr>valid_up_to = p, error_len = l\<rparr>"

fun utf8_check :: "nat \<Rightarrow> bytes \<Rightarrow> (utf8_error, unit) res" where
  "utf8_check p [] = Ok ()"
| "utf8_check p (b # bs) =
     (if is_ascii b then utf8_check (p + 1) bs
      else if in_range 194 223 b then
        (case bs of
           [] \<Rightarrow> utf8_err p None
         | c # bs' \<Rightarrow> if is_cont c then utf8_check (p + 2) bs' else utf8_err p (Some 1))
      else if in_range 224 239 b then
        (case bs of
           [] \<Rightarrow> utf8_err p None
         | c # bs' \<Rightarrow>
             if \<not> second_ok3 b c then utf8_err p (Some 1)
             else (case bs' of
                [] \<Rightarrow> utf8_err p None
              | d # bs'' \<Rightarrow> if is_cont d then utf8_check (p + 3) bs'' else utf8_err p (Some 2)))
      else if in_range 240 244 b then
        (case bs of
           [] \<Rightarrow> utf8_err p None
         | c # bs' \<Rightarrow>
             if \<not> second_ok4 b c then utf8_err p (Some 1)
             else (case bs' of
                [] \<Rightarrow> utf8_err p None
              | d # bs'' \<Rightarrow>
                  if \<not> is_cont d then utf8_err p (Some 2)
                  else (case bs'' of
                     [] \<Rightarrow> utf8_err p None
                   | e # bs3 \<Rightarrow>
                       if is_cont e then utf8_check (p + 4) bs3 else utf8_err p (Some 3))))
      else utf8_err p (Some 1))"

definition from_utf8 :: "bytes \<Rightarrow> (utf8_error, bytes) res" where
  "from_utf8 bs = map_ok (\<lambda>_. bs) (utf8_check 0 bs)"

definition valid_utf8 :: "bytes \<Rightarrow> bool" where
  "valid_utf8 bs \<longleftrightarrow> utf8_check 0 bs = Ok ()"

lemma utf8_check_ascii: "\<forall>b\<in>set bs. is_ascii b \<Longrightarrow> utf8_check p bs = Ok ()"
  by (induction bs arbitrary: p) auto

lemma valid_utf8_ascii: "\<forall>b\<in>set bs. is_ascii b \<Longrightarrow> valid_utf8 bs"
  by (simp add: valid_utf8_def utf8_check_ascii)

lemma from_utf8_ascii: "\<forall>b\<in>set bs. is_ascii b \<Longrightarrow> from_utf8 bs = Ok bs"
  by (simp add: from_utf8_def utf8_check_ascii)

lemma utf8_check_neq [simp]: "utf8_check p bs \<noteq> Panic" "utf8_check p bs \<noteq> OutOfFuel"
  by (induction p bs rule: utf8_check.induct) (auto split: list.splits)

lemma from_utf8_neq [simp]: "from_utf8 bs \<noteq> Panic" "from_utf8 bs \<noteq> OutOfFuel"
  by (simp_all add: from_utf8_def)

lemma from_utf8_Ok_iff: "from_utf8 bs = Ok r \<longleftrightarrow> valid_utf8 bs \<and> r = bs"
  by (auto simp: from_utf8_def valid_utf8_def map_ok_Ok_iff)

section \<open>Slices and strings\<close>

definition starts_with :: "bytes \<Rightarrow> bytes \<Rightarrow> bool" where
  "starts_with p bs \<longleftrightarrow> take (length p) bs = p"

text \<open>\<open>str::rsplit_once\<close> at the last occurrence of a byte.\<close>

definition rsplit_once :: "byte \<Rightarrow> bytes \<Rightarrow> (bytes \<times> bytes) option" where
  "rsplit_once c bs =
     (if c \<in> set bs
      then let tail = rev (takeWhile (\<lambda>b. b \<noteq> c) (rev bs))
           in Some (take (length bs - length tail - 1) bs, tail)
      else None)"

text \<open>\<open>slice::split\<close> at every occurrence of a byte, and the first two pieces of
  \<open>splitn(2, \<dots>)\<close>.\<close>

fun split_at_byte :: "byte \<Rightarrow> bytes \<Rightarrow> bytes list" where
  "split_at_byte c [] = [[]]"
| "split_at_byte c (b # bs) =
     (if b = c then [] # split_at_byte c bs
      else (case split_at_byte c bs of [] \<Rightarrow> [[b]] | p # ps \<Rightarrow> (b # p) # ps))"

definition split_once :: "byte \<Rightarrow> bytes \<Rightarrow> bytes \<times> bytes option" where
  "split_once c bs =
     (takeWhile (\<lambda>b. b \<noteq> c) bs,
      case dropWhile (\<lambda>b. b \<noteq> c) bs of [] \<Rightarrow> None | _ # rest \<Rightarrow> Some rest)"

text \<open>\<open>Itertools::format\<close>: the elements with a separator between them.\<close>

fun join :: "bytes \<Rightarrow> bytes list \<Rightarrow> bytes" where
  "join sep [] = []"
| "join sep [x] = x"
| "join sep (x # y # zs) = x @ sep @ join sep (y # zs)"

lemma split_at_byte_not_Nil [simp]: "split_at_byte c bs \<noteq> []"
  by (induction bs) (auto split: list.splits)

section \<open>IP addresses\<close>

text \<open>
  \<open>net::IpAddr\<close> with its \<open>FromStr\<close> and \<open>Display\<close>. An IPv6 address is its eight 16-bit
  segments. The readers return the value and the rest of the input; \<open>None\<close> is a failure that
  consumes nothing.
\<close>

datatype ip_addr = IpV4 u8 u8 u8 u8 | IpV6 "u16 list"

fun is_ipv4 :: "ip_addr \<Rightarrow> bool" where
  "is_ipv4 (IpV4 a b c d) = True"
| "is_ipv4 (IpV6 g) = False"

definition to_digit :: "nat \<Rightarrow> byte \<Rightarrow> nat option" where
  "to_digit radix b =
     (let d = (if is_ascii_digit b then byte_val b - 48
               else if is_ascii_lowercase b then byte_val b - 87
               else if is_ascii_uppercase b then byte_val b - 55
               else radix)
      in if d < radix then Some d else None)"

fun read_num_loop :: "nat \<Rightarrow> nat \<Rightarrow> nat \<Rightarrow> nat \<Rightarrow> nat \<Rightarrow> bytes \<Rightarrow> (nat \<times> nat \<times> bytes) option" where
  "read_num_loop radix mx maxd acc cnt [] = Some (acc, cnt, [])"
| "read_num_loop radix mx maxd acc cnt (b # bs) =
     (case to_digit radix b of
        None \<Rightarrow> Some (acc, cnt, b # bs)
      | Some d \<Rightarrow>
          if mx < acc * radix + d then None
          else if maxd < cnt + 1 then None
          else read_num_loop radix mx maxd (acc * radix + d) (cnt + 1) bs)"

definition read_number :: "nat \<Rightarrow> nat \<Rightarrow> nat \<Rightarrow> bool \<Rightarrow> bytes \<Rightarrow> (nat \<times> bytes) option" where
  "read_number radix mx maxd allow_zero_prefix bs =
     (let leading_zero = (bs \<noteq> [] \<and> hd bs = CHR ''0'')
      in case read_num_loop radix mx maxd 0 0 bs of
           None \<Rightarrow> None
         | Some (v, cnt, rest) \<Rightarrow>
             if cnt = 0 then None
             else if \<not> allow_zero_prefix \<and> leading_zero \<and> 1 < cnt then None
             else Some (v, rest))"

definition read_given_char :: "byte \<Rightarrow> bytes \<Rightarrow> bytes option" where
  "read_given_char c bs = (case bs of [] \<Rightarrow> None | b # rest \<Rightarrow> if b = c then Some rest else None)"

definition read_octet :: "bytes \<Rightarrow> (nat \<times> bytes) option" where
  "read_octet bs = read_number 10 255 3 False bs"

definition read_dot_octet :: "bytes \<Rightarrow> (nat \<times> bytes) option" where
  "read_dot_octet bs = Option.bind (read_given_char (CHR ''.'') bs) read_octet"

definition read_ipv4 :: "bytes \<Rightarrow> ((nat \<times> nat \<times> nat \<times> nat) \<times> bytes) option" where
  "read_ipv4 bs =
     Option.bind (read_octet bs) (\<lambda>(a, r1).
     Option.bind (read_dot_octet r1) (\<lambda>(b, r2).
     Option.bind (read_dot_octet r2) (\<lambda>(c, r3).
     Option.bind (read_dot_octet r3) (\<lambda>(d, r4).
       Some ((a, b, c, d), r4)))))"

definition read_separator :: "bool \<Rightarrow> (bytes \<Rightarrow> ('a \<times> bytes) option) \<Rightarrow> bytes \<Rightarrow> ('a \<times> bytes) option" where
  "read_separator first inner bs =
     (if first then inner bs else Option.bind (read_given_char (CHR '':'') bs) inner)"

text \<open>\<open>read_groups first left\<close>: up to \<open>left\<close> groups, \<open>first\<close> says that no separator
  precedes; the flag says that an embedded IPv4 address ended the groups.\<close>

fun read_groups :: "bool \<Rightarrow> nat \<Rightarrow> bytes \<Rightarrow> nat list \<times> bool \<times> bytes" where
  "read_groups first 0 bs = ([], False, bs)"
| "read_groups first (Suc left) bs =
     (case (if 1 \<le> left then read_separator first read_ipv4 bs else None) of
        Some ((a, b, c, d), rest) \<Rightarrow> ([a * 256 + b, c * 256 + d], True, rest)
      | None \<Rightarrow>
          (case read_separator first (read_number 16 65535 4 True) bs of
             None \<Rightarrow> ([], False, bs)
           | Some (g, rest) \<Rightarrow>
               (case read_groups False left rest of (gs, f, rest') \<Rightarrow> (g # gs, f, rest'))))"

definition read_ipv6 :: "bytes \<Rightarrow> (nat list \<times> bytes) option" where
  "read_ipv6 bs =
     (case read_groups True 8 bs of (hs, head_ipv4, r1) \<Rightarrow>
        if length hs = 8 then Some (hs, r1)
        else if head_ipv4 then None
        else Option.bind (read_given_char (CHR '':'') r1) (\<lambda>r2.
             Option.bind (read_given_char (CHR '':'') r2) (\<lambda>r3.
               case read_groups True (8 - (length hs + 1)) r3 of (ts, _, r4) \<Rightarrow>
                 Some (hs @ replicate (8 - length hs - length ts) 0 @ ts, r4))))"

definition parse_ip :: "bytes \<Rightarrow> ip_addr option" where
  "parse_ip bs =
     (case read_ipv4 bs of
        Some ((a, b, c, d), rest) \<Rightarrow>
          if rest = [] then Some (IpV4 (of_nat a) (of_nat b) (of_nat c) (of_nat d)) else None
      | None \<Rightarrow>
          (case read_ipv6 bs of
             Some (gs, rest) \<Rightarrow> if rest = [] then Some (IpV6 (map of_nat gs)) else None
           | None \<Rightarrow> None))"

definition hex_char :: "nat \<Rightarrow> byte" where
  "hex_char d = (if d < 10 then char_of (48 + d) else char_of (87 + d))"

fun show_hex :: "nat \<Rightarrow> bytes" where
  "show_hex n = (if n < 16 then [hex_char n] else show_hex (n div 16) @ [hex_char (n mod 16)])"

declare show_hex.simps [simp del]

definition show_ipv4 :: "nat \<Rightarrow> nat \<Rightarrow> nat \<Rightarrow> nat \<Rightarrow> bytes" where
  "show_ipv4 a b c d = show_nat a @ ''.'' @ show_nat b @ ''.'' @ show_nat c @ ''.'' @ show_nat d"

text \<open>The first longest run of zero segments, as its start and its length.\<close>

fun zero_span :: "nat \<Rightarrow> nat \<times> nat \<Rightarrow> nat \<times> nat \<Rightarrow> nat list \<Rightarrow> nat \<times> nat" where
  "zero_span i current longest [] = longest"
| "zero_span i current longest (g # gs) =
     (if g = 0
      then let current' = (if snd current = 0 then i else fst current, snd current + 1)
           in zero_span (i + 1) current' (if snd longest < snd current' then current' else longest) gs
      else zero_span (i + 1) (0, 0) longest gs)"

definition show_segments :: "nat list \<Rightarrow> bytes" where
  "show_segments gs = join '':'' (map show_hex gs)"

definition show_ipv6 :: "nat list \<Rightarrow> bytes" where
  "show_ipv6 gs =
     (if length gs = 8 \<and> take 6 gs = [0, 0, 0, 0, 0, 65535]
      then ''::ffff:'' @ show_ipv4 (gs ! 6 div 256) (gs ! 6 mod 256) (gs ! 7 div 256) (gs ! 7 mod 256)
      else let z = zero_span 0 (0, 0) (0, 0) gs
           in if 1 < snd z
              then show_segments (take (fst z) gs) @ ''::'' @ show_segments (drop (fst z + snd z) gs)
              else show_segments gs)"

fun show_ip :: "ip_addr \<Rightarrow> bytes" where
  "show_ip (IpV4 a b c d) = show_ipv4 (unat a) (unat b) (unat c) (unat d)"
| "show_ip (IpV6 gs) = show_ipv6 (map unat gs)"

record socket_addr =
  sa_ip :: ip_addr
  sa_port :: u16

end
