(* ===== verification/Scanner.thy ===== *)
theory Scanner
  imports Rust_Std
begin

text \<open>
  The byte scanner of \<open>rssip-utils/src/scanner/mod.rs\<close>: its record, every operation, and the
  laws the two parsers rely on. A scanner operation returns its result and the new scanner.

  The abstraction of a scanner is the list of bytes it has left (\<open>remaining\<close>); \<open>wf_scanner\<close>
  is the invariant every operation keeps: the index stays inside the buffer and the position
  is the one the consumed bytes lead to.
\<close>

section \<open>State\<close>

record position =
  pos_line :: nat
  pos_column :: nat

datatype scanner_error_kind =
    Eof
  | NonNewLine
  | UnexpectedByte byte byte
  | InvalidNumber
  | InvalidUtf8 utf8_error

record scanner_error =
  se_kind :: scanner_error_kind
  se_position :: position

record scanner =
  sc_buffer :: bytes
  sc_position :: position
  sc_index :: nat
  sc_len :: nat

type_synonym 'a scan_result = "(scanner_error, 'a) res"

definition is_space :: "byte \<Rightarrow> bool" where
  "is_space b \<longleftrightarrow> b = CHR '' '' \<or> b = CHR 0x09"

definition is_newline :: "byte \<Rightarrow> bool" where
  "is_newline b \<longleftrightarrow> b = CHR 0x0D \<or> b = CHR 0x0A"

definition position_new :: position where
  "position_new = \<lparr>pos_line = 1, pos_column = 0\<rparr>"

definition scanner_new :: "bytes \<Rightarrow> scanner" where
  "scanner_new buf =
     \<lparr>sc_buffer = buf, sc_position = position_new, sc_index = 0, sc_len = length buf\<rparr>"

section \<open>Operations\<close>

definition bump_position :: "byte \<Rightarrow> position \<Rightarrow> position" where
  "bump_position b p =
     (if b = CHR 0x0A then p\<lparr>pos_column := 1, pos_line := pos_line p + 1\<rparr>
      else p\<lparr>pos_column := pos_column p + 1\<rparr>)"

definition bump :: "byte \<Rightarrow> scanner \<Rightarrow> scanner" where
  "bump b s = s\<lparr>sc_index := sc_index s + 1, sc_position := bump_position b (sc_position s)\<rparr>"

definition scan_error :: "scanner_error_kind \<Rightarrow> scanner \<Rightarrow> scanner_error" where
  "scan_error k s = \<lparr>se_kind = k, se_position = sc_position s\<rparr>"

definition is_eof :: "scanner \<Rightarrow> bool" where
  "is_eof s \<longleftrightarrow> sc_index s = sc_len s"

definition remaining :: "scanner \<Rightarrow> bytes" where
  "remaining s = take (sc_len s - sc_index s) (drop (sc_index s) (sc_buffer s))"

definition peek :: "scanner \<Rightarrow> byte option" where
  "peek s = (if sc_index s < length (sc_buffer s) then Some (sc_buffer s ! sc_index s) else None)"

definition scan :: "scanner \<Rightarrow> byte option \<times> scanner" where
  "scan s = (case peek s of Some c \<Rightarrow> (Some c, bump c s) | None \<Rightarrow> (None, s))"

definition next_byte :: "scanner \<Rightarrow> byte scan_result \<times> scanner" where
  "next_byte s = (case scan s of (r, s') \<Rightarrow> (ok_or r (scan_error Eof s'), s'))"

fun advance_n :: "nat \<Rightarrow> scanner \<Rightarrow> scanner" where
  "advance_n 0 s = s"
| "advance_n (Suc n) s = (case scan s of (None, s') \<Rightarrow> s' | (Some _, s') \<Rightarrow> advance_n n s')"

definition matches_prefix :: "bytes \<Rightarrow> scanner \<Rightarrow> bool" where
  "matches_prefix p s = starts_with p (remaining s)"

definition peek_n :: "nat \<Rightarrow> scanner \<Rightarrow> bytes option" where
  "peek_n n s = (if n \<le> length (remaining s) then Some (take n (remaining s)) else None)"

function scan_while_loop :: "(byte \<Rightarrow> bool) \<Rightarrow> scanner \<Rightarrow> scanner" where
  "scan_while_loop pred s =
     (case peek s of
        Some c \<Rightarrow> if pred c then scan_while_loop pred (bump c s) else s
      | None \<Rightarrow> s)"
  by pat_completeness auto
termination
  by (relation "measure (\<lambda>(pred, s). length (sc_buffer s) - sc_index s)")
     (auto simp: peek_def bump_def split: if_splits)

declare scan_while_loop.simps [simp del]

definition scan_while :: "(byte \<Rightarrow> bool) \<Rightarrow> scanner \<Rightarrow> bytes \<times> scanner" where
  "scan_while pred s =
     (let s' = scan_while_loop pred s
      in (take (sc_index s' - sc_index s) (drop (sc_index s) (sc_buffer s)), s'))"

definition peek_while :: "(byte \<Rightarrow> bool) \<Rightarrow> scanner \<Rightarrow> bytes" where
  "peek_while pred s = takeWhile pred (remaining s)"

definition peek_if :: "(byte \<Rightarrow> bool) \<Rightarrow> scanner \<Rightarrow> byte option" where
  "peek_if cond s = (case peek s of Some b \<Rightarrow> if cond b then Some b else None | None \<Rightarrow> None)"

fun must_scan_zip :: "bytes \<Rightarrow> bytes \<Rightarrow> scanner \<Rightarrow> unit scan_result \<times> scanner" where
  "must_scan_zip (f # fs) (e # es) s =
     (if f \<noteq> e then (Err (scan_error (UnexpectedByte e f) s), s)
      else must_scan_zip fs es (bump f s))"
| "must_scan_zip fs es s = (Ok (), s)"

definition must_scan_slice :: "bytes \<Rightarrow> scanner \<Rightarrow> unit scan_result \<times> scanner" where
  "must_scan_slice expected s = must_scan_zip (drop (sc_index s) (sc_buffer s)) expected s"

definition must_read :: "byte \<Rightarrow> scanner \<Rightarrow> unit scan_result \<times> scanner" where
  "must_read expected s =
     (case peek s of
        Some found \<Rightarrow>
          if expected = found then (Ok (), bump found s)
          else (Err (scan_error (UnexpectedByte expected found) s), s)
      | None \<Rightarrow> (Err (scan_error Eof s), s))"

definition scan_until :: "byte \<Rightarrow> scanner \<Rightarrow> bytes \<times> scanner" where
  "scan_until b = scan_while (\<lambda>c. c \<noteq> b)"

definition scan_while_as_str :: "(byte \<Rightarrow> bool) \<Rightarrow> scanner \<Rightarrow> bytes scan_result \<times> scanner" where
  "scan_while_as_str pred s =
     (case scan_while pred s of (bs, s') \<Rightarrow>
        (map_err (\<lambda>e. scan_error (InvalidUtf8 e) s') (from_utf8 bs), s'))"

definition scan_until_as_str :: "byte \<Rightarrow> scanner \<Rightarrow> bytes scan_result \<times> scanner" where
  "scan_until_as_str b = scan_while_as_str (\<lambda>c. c \<noteq> b)"

definition scan_until_any_as_str :: "bytes \<Rightarrow> scanner \<Rightarrow> bytes scan_result \<times> scanner" where
  "scan_until_any_as_str stops = scan_while_as_str (\<lambda>c. c \<notin> set stops)"

text \<open>The unchecked variant trusts its caller that the bytes are UTF-8.\<close>

definition scan_while_as_str_unchecked :: "(byte \<Rightarrow> bool) \<Rightarrow> scanner \<Rightarrow> bytes \<times> scanner" where
  "scan_while_as_str_unchecked pred = scan_while pred"

definition scan_if :: "(byte \<Rightarrow> bool) \<Rightarrow> scanner \<Rightarrow> byte option \<times> scanner" where
  "scan_if pred s =
     (case peek s of
        Some b \<Rightarrow> if pred b then (Some b, bump b s) else (None, s)
      | None \<Rightarrow> (None, s))"

definition scan_if_eq :: "byte \<Rightarrow> scanner \<Rightarrow> byte option \<times> scanner" where
  "scan_if_eq expected = scan_if (\<lambda>b. b = expected)"

definition scan_newline :: "scanner \<Rightarrow> unit scan_result \<times> scanner" where
  "scan_newline s =
     (case scan_if_eq (CHR 0x0D) s of (cr, s1) \<Rightarrow>
      case scan_if_eq (CHR 0x0A) s1 of (lf, s2) \<Rightarrow>
        if cr = None \<and> lf = None then (Err (scan_error NonNewLine s2), s2) else (Ok (), s2))"

definition scan_line :: "scanner \<Rightarrow> bytes scan_result \<times> scanner" where
  "scan_line = scan_while_as_str (\<lambda>b. \<not> is_newline b)"

definition scan_number_str :: "bool \<Rightarrow> scanner \<Rightarrow> bytes \<times> scanner" where
  "scan_number_str decimal_point =
     scan_while (\<lambda>b. is_ascii_digit b \<or> (decimal_point \<and> b = CHR ''.''))"

definition scan_number :: "(bytes \<Rightarrow> (parse_int_error, 'a) res) \<Rightarrow> scanner \<Rightarrow> 'a scan_result \<times> scanner" where
  "scan_number parse s =
     (case scan_number_str False s of (ds, s') \<Rightarrow>
        (map_err (\<lambda>_. scan_error InvalidNumber s') (parse ds), s'))"

definition scan_u32 :: "scanner \<Rightarrow> u32 scan_result \<times> scanner" where
  "scan_u32 = scan_number parse_u32"

definition scan_u16 :: "scanner \<Rightarrow> u16 scan_result \<times> scanner" where
  "scan_u16 = scan_number parse_u16"

definition scan_u64 :: "scanner \<Rightarrow> u64 scan_result \<times> scanner" where
  "scan_u64 = scan_number parse_u64"

definition scan_i64 :: "scanner \<Rightarrow> int scan_result \<times> scanner" where
  "scan_i64 = scan_number parse_i64"

section \<open>Invariant and abstraction\<close>

definition position_after :: "bytes \<Rightarrow> position" where
  "position_after bs = fold bump_position bs position_new"

definition wf_scanner :: "scanner \<Rightarrow> bool" where
  "wf_scanner s \<longleftrightarrow>
     sc_len s = length (sc_buffer s) \<and> sc_index s \<le> sc_len s \<and>
     sc_position s = position_after (take (sc_index s) (sc_buffer s))"

text \<open>\<open>consumes s bs s'\<close>: the operation read exactly the bytes \<open>bs\<close> off the input.\<close>

definition consumes :: "scanner \<Rightarrow> bytes \<Rightarrow> scanner \<Rightarrow> bool" where
  "consumes s bs s' \<longleftrightarrow>
     sc_buffer s' = sc_buffer s \<and> sc_len s' = sc_len s \<and>
     sc_index s' = sc_index s + length bs \<and> remaining s = bs @ remaining s' \<and>
     sc_position s' = fold bump_position bs (sc_position s)"

lemma wf_scanner_new: "wf_scanner (scanner_new buf)"
  by (simp add: wf_scanner_def scanner_new_def position_after_def)

lemma remaining_new [scan_simps]: "remaining (scanner_new buf) = buf"
  by (simp add: remaining_def scanner_new_def)

lemma remaining_wf: "wf_scanner s \<Longrightarrow> remaining s = drop (sc_index s) (sc_buffer s)"
  by (simp add: remaining_def wf_scanner_def)

lemma length_remaining: "wf_scanner s \<Longrightarrow> length (remaining s) = sc_len s - sc_index s"
  by (simp add: remaining_wf wf_scanner_def)

lemma is_eof_iff: "wf_scanner s \<Longrightarrow> is_eof s \<longleftrightarrow> remaining s = []"
  by (auto simp: is_eof_def remaining_wf wf_scanner_def)

lemma peek_remaining: "wf_scanner s \<Longrightarrow> peek s = (case remaining s of [] \<Rightarrow> None | b # _ \<Rightarrow> Some b)"
  by (auto simp: peek_def remaining_wf hd_drop_conv_nth [symmetric] split: list.splits)

lemma consumes_refl [simp]: "consumes s [] s"
  by (simp add: consumes_def)

lemma consumes_trans: "consumes s bs s' \<Longrightarrow> consumes s' cs s'' \<Longrightarrow> consumes s (bs @ cs) s''"
  by (simp add: consumes_def)

lemma consumes_wf: "wf_scanner s \<Longrightarrow> consumes s bs s' \<Longrightarrow> wf_scanner s'"
proof -
  assume wf: "wf_scanner s" and c: "consumes s bs s'"
  have "drop (sc_index s) (sc_buffer s) = bs @ remaining s'"
    using wf c by (simp add: consumes_def remaining_wf)
  then have "take (sc_index s + length bs) (sc_buffer s) = take (sc_index s) (sc_buffer s) @ bs"
    and "length (sc_buffer s) - sc_index s = length bs + length (remaining s')"
    by (simp_all add: take_add) (metis length_append length_drop)
  then show ?thesis
    using wf c by (auto simp: consumes_def wf_scanner_def position_after_def)
qed

lemma consumes_bump:
  assumes wf: "wf_scanner s" and rem: "remaining s = b # bs"
  shows "consumes s [b] (bump b s)"
proof -
  have d: "drop (sc_index s) (sc_buffer s) = b # bs"
    using wf rem by (simp add: remaining_wf)
  then have "drop (Suc (sc_index s)) (sc_buffer s) = bs"
    by (metis drop_Suc list.sel(3) tl_drop)
  moreover have "length (sc_buffer s) - sc_index s = Suc (length bs)"
    using d by (metis length_drop length_Cons)
  ultimately have "remaining (bump b s) = bs"
    using wf by (simp add: remaining_def bump_def wf_scanner_def)
  then show ?thesis using rem by (simp add: consumes_def bump_def)
qed

lemma remaining_bump: "wf_scanner s \<Longrightarrow> remaining s = b # bs \<Longrightarrow> remaining (bump b s) = bs"
  using consumes_bump by (fastforce simp: consumes_def)

lemma wf_scanner_bump: "wf_scanner s \<Longrightarrow> remaining s = b # bs \<Longrightarrow> wf_scanner (bump b s)"
  using consumes_bump consumes_wf by blast

lemma consumes_wf' [elim]: "consumes s bs s' \<Longrightarrow> wf_scanner s \<Longrightarrow> wf_scanner s'"
  by (rule consumes_wf)

lemma consumes_remaining: "consumes s bs s' \<Longrightarrow> remaining s' = drop (length bs) (remaining s)"
  by (simp add: consumes_def)

text \<open>Every scanner operation, as what it consumes.\<close>

lemma scan_while_loop_spec:
  "wf_scanner s \<Longrightarrow> consumes s (takeWhile pred (remaining s)) (scan_while_loop pred s)"
proof (induction pred s rule: scan_while_loop.induct)
  case (1 pred s)
  show ?case
  proof (cases "remaining s")
    case Nil
    with "1.prems" show ?thesis
      by (simp add: scan_while_loop.simps [of pred s] peek_remaining)
  next
    case (Cons b bs)
    have step: "consumes s [b] (bump b s)"
      using "1.prems" Cons by (rule consumes_bump)
    show ?thesis
    proof (cases "pred b")
      case True
      have "consumes (bump b s) (takeWhile pred (remaining (bump b s))) (scan_while_loop pred (bump b s))"
        using "1.IH" "1.prems" step True Cons by (simp add: peek_remaining consumes_wf)
      then have "consumes s ([b] @ takeWhile pred bs) (scan_while_loop pred (bump b s))"
        using consumes_trans [OF step] consumes_remaining [OF step] Cons by simp
      then show ?thesis
        using "1.prems" Cons True by (simp add: scan_while_loop.simps [of pred s] peek_remaining)
    next
      case False
      then show ?thesis
        using "1.prems" Cons by (simp add: scan_while_loop.simps [of pred s] peek_remaining)
    qed
  qed
qed

lemma scan_while_spec:
  assumes "wf_scanner s"
  shows "fst (scan_while pred s) = takeWhile pred (remaining s)"
    and "consumes s (takeWhile pred (remaining s)) (snd (scan_while pred s))"
proof -
  have c: "consumes s (takeWhile pred (remaining s)) (scan_while_loop pred s)"
    using assms by (rule scan_while_loop_spec)
  then show "consumes s (takeWhile pred (remaining s)) (snd (scan_while pred s))"
    by (simp add: scan_while_def Let_def)
  have "drop (sc_index s) (sc_buffer s) =
      takeWhile pred (remaining s) @ remaining (scan_while_loop pred s)"
    using c assms by (simp add: consumes_def remaining_wf)
  then show "fst (scan_while pred s) = takeWhile pred (remaining s)"
    using c by (simp add: scan_while_def Let_def consumes_def)
qed

lemma peek_scan: "wf_scanner s \<Longrightarrow> scan s = (case remaining s of [] \<Rightarrow> (None, s) | b # _ \<Rightarrow> (Some b, bump b s))"
  by (simp add: scan_def peek_remaining split: list.splits)

lemma scan_if_spec:
  "wf_scanner s \<Longrightarrow>
   scan_if pred s = (case remaining s of [] \<Rightarrow> (None, s)
                     | b # _ \<Rightarrow> if pred b then (Some b, bump b s) else (None, s))"
  by (simp add: scan_if_def peek_remaining split: list.splits)

lemma must_scan_zip_spec:
  assumes "wf_scanner s" and "remaining s = fs"
  shows "consumes s (common_prefix fs es) (snd (must_scan_zip fs es s))"
    and "fst (must_scan_zip fs es s) = Ok () \<longleftrightarrow> take (length es) fs = take (length fs) es"
  using assms
proof (induction fs es s rule: must_scan_zip.induct)
  case (1 f fs e es s)
  {
    case 1
    show ?case
    proof (cases "f = e")
      case True
      have step: "consumes s [f] (bump f s)" using 1 by (auto intro: consumes_bump)
      then have "consumes (bump f s) (common_prefix fs es) (snd (must_scan_zip fs es (bump f s)))"
        using "1.IH"(1) True 1 consumes_wf [OF _ step] by (simp add: consumes_def)
      then show ?thesis using consumes_trans [OF step] True by fastforce
    qed simp
  next
    case 2
    show ?case
    proof (cases "f = e")
      case True
      have step: "consumes s [f] (bump f s)" using 2 by (auto intro: consumes_bump)
      then show ?thesis
        using "1.IH"(2) True 2 consumes_wf [OF _ step] by (simp add: consumes_def)
    qed simp
  }
qed auto

lemma must_scan_slice_spec:
  assumes "wf_scanner s"
  shows "consumes s (common_prefix (remaining s) es) (snd (must_scan_slice es s))"
    and "fst (must_scan_slice es s) = Ok () \<longleftrightarrow>
         take (length es) (remaining s) = take (length (remaining s)) es"
  using must_scan_zip_spec [OF assms refl] assms by (simp_all add: must_scan_slice_def remaining_wf)

section \<open>Property\<close>

text \<open>\<open>scan_while\<close> returns the longest prefix of the remaining input whose bytes satisfy the
  predicate and leaves exactly the rest, with the index in bounds and the line and column those
  of the bytes consumed; \<open>peek_while\<close> returns the same bytes without moving.\<close>

theorem scan_while_splits_input:
  assumes "wf_scanner s"
  shows "fst (scan_while p s) = takeWhile p (remaining s) \<and>
         remaining (snd (scan_while p s)) = dropWhile p (remaining s) \<and>
         wf_scanner (snd (scan_while p s)) \<and>
         peek_while p s = fst (scan_while p s)"
proof -
  note c = scan_while_spec(2) [OF assms, of p]
  show ?thesis
    using scan_while_spec(1) [OF assms, of p] consumes_remaining [OF c] consumes_wf [OF assms c]
    by (simp add: peek_while_def drop_length_takeWhile)
qed

theorem scan_while_splits_input_witness:
  "wf_scanner (scanner_new ''ab1'') \<and>
   fst (scan_while is_ascii_alphabetic (scanner_new ''ab1'')) = ''ab''"
  using scan_while_splits_input [OF wf_scanner_new [of "''ab1''"], of is_ascii_alphabetic]
  by (simp add: wf_scanner_new remaining_new is_ascii_alphabetic_def is_ascii_lowercase_def
      is_ascii_uppercase_def byte_val_def)

end
