(* ===== verification/Parse_Monad.thy ===== *)
theory Parse_Monad
  imports Scanner
begin

text \<open>
  Fallible code over a scanner: the way \<open>?\<close>, \<open>loop\<close> and \<open>while\<close> of the two parsers compose.
  A parser takes the scanner and returns an outcome and the scanner it leaves behind, also when
  it fails, because error positions are read off the scanner at the point of failure.
\<close>

type_synonym ('e, 'a) parse = "scanner \<Rightarrow> ('e, 'a) res \<times> scanner"

definition retP :: "'a \<Rightarrow> ('e, 'a) parse" where
  "retP x s = (Ok x, s)"

definition failP :: "'e \<Rightarrow> ('e, 'a) parse" where
  "failP e s = (Err e, s)"

definition panicP :: "('e, 'a) parse" where
  "panicP s = (Panic, s)"

text \<open>\<open>p?\<close> followed by the rest of the function.\<close>

definition bindP :: "('e, 'a) parse \<Rightarrow> ('a \<Rightarrow> ('e, 'b) parse) \<Rightarrow> ('e, 'b) parse" where
  "bindP p f s =
     (case p s of (r, s') \<Rightarrow>
        (case r of Ok x \<Rightarrow> f x s' | Err e \<Rightarrow> (Err e, s') | Panic \<Rightarrow> (Panic, s') | OutOfFuel \<Rightarrow> (OutOfFuel, s')))"

definition thenP :: "('e, 'a) parse \<Rightarrow> ('e, 'b) parse \<Rightarrow> ('e, 'b) parse" where
  "thenP p q = bindP p (\<lambda>_. q)"

text \<open>An infallible scanner operation used as a statement or for its value.\<close>

definition liftP :: "(scanner \<Rightarrow> 'a \<times> scanner) \<Rightarrow> ('e, 'a) parse" where
  "liftP f s = (case f s of (x, s') \<Rightarrow> (Ok x, s'))"

text \<open>A value read off the scanner without moving it.\<close>

definition askP :: "(scanner \<Rightarrow> 'a) \<Rightarrow> ('e, 'a) parse" where
  "askP f s = (Ok (f s), s)"

text \<open>A plain outcome (a conversion that may fail) as a parser.\<close>

definition resP :: "('e, 'a) res \<Rightarrow> ('e, 'a) parse" where
  "resP r s = (r, s)"

text \<open>\<open>map_err\<close>, and \<open>or_else\<close> with a handler that may look at the scanner.\<close>

definition map_errP :: "('e \<Rightarrow> 'f) \<Rightarrow> ('e, 'a) parse \<Rightarrow> ('f, 'a) parse" where
  "map_errP h p s = (case p s of (r, s') \<Rightarrow> (map_err h r, s'))"

definition or_elseP :: "('e, 'a) parse \<Rightarrow> ('f, 'a) parse \<Rightarrow> ('f, 'a) parse" where
  "or_elseP p q s =
     (case p s of (r, s') \<Rightarrow>
        (case r of Ok x \<Rightarrow> (Ok x, s') | Err _ \<Rightarrow> q s' | Panic \<Rightarrow> (Panic, s') | OutOfFuel \<Rightarrow> (OutOfFuel, s')))"

text \<open>
  Loops. One call of the body is one iteration, which either goes on with a new loop state or
  breaks with a result. The fuel is one more than the number of bytes left when the loop starts,
  which is enough for every body that reads at least one byte whenever it goes on.
\<close>

datatype ('st, 'a) step = Continue 'st | Break 'a

fun loop_fuel :: "nat \<Rightarrow> ('st \<Rightarrow> ('e, ('st, 'a) step) parse) \<Rightarrow> 'st \<Rightarrow> ('e, 'a) parse" where
  "loop_fuel 0 body st s = (OutOfFuel, s)"
| "loop_fuel (Suc n) body st s =
     bindP (body st) (\<lambda>r. case r of Continue st' \<Rightarrow> loop_fuel n body st' | Break x \<Rightarrow> retP x) s"

definition loopP :: "('st \<Rightarrow> ('e, ('st, 'a) step) parse) \<Rightarrow> 'st \<Rightarrow> ('e, 'a) parse" where
  "loopP body st s = loop_fuel (Suc (length (remaining s))) body st s"

section \<open>Forward movement, termination, no panic\<close>

definition forward :: "scanner \<Rightarrow> scanner \<Rightarrow> bool" where
  "forward s s' \<longleftrightarrow> (\<exists>bs. consumes s bs s')"

text \<open>\<open>good p\<close>: from a well-formed scanner, \<open>p\<close> only reads bytes off the input, whatever its
  outcome, and does not run out of fuel.\<close>

definition good :: "('e, 'a) parse \<Rightarrow> bool" where
  "good p \<longleftrightarrow> (\<forall>s. wf_scanner s \<longrightarrow> forward s (snd (p s)) \<and> fst (p s) \<noteq> OutOfFuel)"

definition calm :: "('e, 'a) parse \<Rightarrow> bool" where
  "calm p \<longleftrightarrow> (\<forall>s. fst (p s) \<noteq> Panic)"

text \<open>\<open>eats p Q\<close>: a successful result in \<open>Q\<close> has cost at least one byte.\<close>

definition eats :: "('a \<Rightarrow> bool) \<Rightarrow> ('e, 'a) parse \<Rightarrow> bool" where
  "eats Q p \<longleftrightarrow>
     (\<forall>s x s'. wf_scanner s \<longrightarrow> p s = (Ok x, s') \<longrightarrow> Q x \<longrightarrow> length (remaining s') < length (remaining s))"

text \<open>\<open>returns P p\<close>: every successful result from a well-formed scanner satisfies \<open>P\<close>.\<close>

definition returns :: "('a \<Rightarrow> bool) \<Rightarrow> ('e, 'a) parse \<Rightarrow> bool" where
  "returns P p \<longleftrightarrow> (\<forall>s x s'. wf_scanner s \<longrightarrow> p s = (Ok x, s') \<longrightarrow> P x)"

lemma forward_refl [simp]: "forward s s"
  by (auto simp: forward_def intro: exI [where x = "[]"])

lemma forward_trans: "forward s s' \<Longrightarrow> forward s' s'' \<Longrightarrow> forward s s''"
  by (auto simp: forward_def intro: consumes_trans)

lemma forward_wf: "forward s s' \<Longrightarrow> wf_scanner s \<Longrightarrow> wf_scanner s'"
  by (auto simp: forward_def)

lemma consumes_forward: "consumes s bs s' \<Longrightarrow> forward s s'"
  by (auto simp: forward_def)

lemma forward_remaining: "forward s s' \<Longrightarrow> length (remaining s') \<le> length (remaining s)"
  by (auto simp: forward_def consumes_def)

lemma forward_buffer: "forward s s' \<Longrightarrow> sc_buffer s' = sc_buffer s"
  by (auto simp: forward_def consumes_def)

lemma goodD: "good p \<Longrightarrow> wf_scanner s \<Longrightarrow> forward s (snd (p s)) \<and> fst (p s) \<noteq> OutOfFuel"
  by (simp add: good_def)

lemma good_forward: "good p \<Longrightarrow> wf_scanner s \<Longrightarrow> p s = (r, s') \<Longrightarrow> forward s s'"
  by (auto dest: goodD)

lemma good_wf: "good p \<Longrightarrow> wf_scanner s \<Longrightarrow> p s = (r, s') \<Longrightarrow> wf_scanner s'"
  by (metis good_forward forward_wf)

lemma good_retP [good_intros]: "good (retP x)"
  by (simp add: good_def retP_def)

lemma good_failP [good_intros]: "good (failP e)"
  by (simp add: good_def failP_def)

lemma good_panicP [good_intros]: "good panicP"
  by (simp add: good_def panicP_def)

lemma good_askP [good_intros]: "good (askP f)"
  by (simp add: good_def askP_def)

lemma good_resP [good_intros]: "r \<noteq> OutOfFuel \<Longrightarrow> good (resP r)"
  by (simp add: good_def resP_def)

lemma good_bindP [good_intros]: "good p \<Longrightarrow> (\<And>x. good (f x)) \<Longrightarrow> good (bindP p f)"
proof -
  assume p: "good p" and f: "\<And>x. good (f x)"
  show ?thesis
    unfolding good_def
  proof (intro allI impI)
    fix s assume wf: "wf_scanner s"
    obtain r s' where ps: "p s = (r, s')" by fastforce
    have fw: "forward s s'" and r: "r \<noteq> OutOfFuel" using goodD [OF p wf] ps by auto
    have "forward s' (snd (f x s')) \<and> fst (f x s') \<noteq> OutOfFuel" for x
      using f forward_wf [OF fw wf] by (auto simp: good_def)
    then show "forward s (snd (bindP p f s)) \<and> fst (bindP p f s) \<noteq> OutOfFuel"
      using ps fw r by (auto simp: bindP_def intro: forward_trans split: res.split)
  qed
qed

lemma good_thenP [good_intros]: "good p \<Longrightarrow> good q \<Longrightarrow> good (thenP p q)"
  by (simp add: thenP_def good_bindP)

lemma good_liftP: "(\<And>s. wf_scanner s \<Longrightarrow> forward s (snd (f s))) \<Longrightarrow> good (liftP f)"
  by (simp add: good_def liftP_def split_beta)

lemma good_map_errP [good_intros]: "good p \<Longrightarrow> good (map_errP h p)"
  by (auto simp: good_def map_errP_def split: prod.split)

lemma good_or_elseP [good_intros]: "good p \<Longrightarrow> good q \<Longrightarrow> good (or_elseP p q)"
proof -
  assume p: "good p" and q: "good q"
  show ?thesis
    unfolding good_def
  proof (intro allI impI)
    fix s assume wf: "wf_scanner s"
    obtain r s' where ps: "p s = (r, s')" by fastforce
    have fw: "forward s s'" and r: "r \<noteq> OutOfFuel" using goodD [OF p wf] ps by auto
    have "forward s' (snd (q s')) \<and> fst (q s') \<noteq> OutOfFuel"
      using q forward_wf [OF fw wf] by (auto simp: good_def)
    then show "forward s (snd (or_elseP p q s)) \<and> fst (or_elseP p q s) \<noteq> OutOfFuel"
      using ps fw r by (auto simp: or_elseP_def intro: forward_trans split: res.split)
  qed
qed

lemma good_If [good_intros]: "good p \<Longrightarrow> good q \<Longrightarrow> good (if b then p else q)"
  by simp

lemma good_case_option [good_intros]:
  "good p \<Longrightarrow> (\<And>x. good (f x)) \<Longrightarrow> good (case y of None \<Rightarrow> p | Some x \<Rightarrow> f x)"
  by (cases y) auto

lemma good_case_prod [good_intros]: "(\<And>x y. good (f x y)) \<Longrightarrow> good (case z of (x, y) \<Rightarrow> f x y)"
  by (cases z) auto

lemma good_Let [good_intros]: "(\<And>x. good (f x)) \<Longrightarrow> good (Let y f)"
  by (simp add: Let_def)

lemma good_loop_fuel:
  assumes "\<And>st. good (body st)" and "\<And>st. eats (\<lambda>r. \<exists>st'. r = Continue st') (body st)"
    and "wf_scanner s" and "length (remaining s) < n"
  shows "forward s (snd (loop_fuel n body st s)) \<and> fst (loop_fuel n body st s) \<noteq> OutOfFuel"
  using assms(3,4)
proof (induction n arbitrary: st s)
  case (Suc n)
  obtain r s' where b: "body st s = (r, s')" by fastforce
  have fw: "forward s s'" and r: "r \<noteq> OutOfFuel"
    using goodD [OF assms(1) Suc.prems(1), of st] b by auto
  show ?case
  proof (cases "\<exists>st'. r = Ok (Continue st')")
    case True
    then obtain st' where st': "r = Ok (Continue st')" by blast
    then have "length (remaining s') < n"
      using assms(2) [of st] Suc.prems b unfolding eats_def by fastforce
    then have "forward s' (snd (loop_fuel n body st' s')) \<and> fst (loop_fuel n body st' s') \<noteq> OutOfFuel"
      using Suc.IH forward_wf [OF fw Suc.prems(1)] by blast
    then show ?thesis using b st' fw by (auto simp: bindP_def intro: forward_trans)
  next
    case False
    then show ?thesis
      using b fw r by (auto simp: bindP_def retP_def split: res.split step.split)
  qed
qed simp

lemma good_loopP:
  "(\<And>st. good (body st)) \<Longrightarrow> (\<And>st. eats (\<lambda>r. \<exists>st'. r = Continue st') (body st)) \<Longrightarrow> good (loopP body st)"
  by (simp add: good_def loopP_def good_loop_fuel del: loop_fuel.simps)

text \<open>The absence of panics, by the same structure.\<close>

lemma calm_basic [calm_intros]:
  "calm (retP x)" "calm (failP e)" "calm (askP f)" "calm (liftP g)"
  by (simp_all add: calm_def retP_def failP_def askP_def liftP_def split: prod.split)

lemma calm_resP [calm_intros]: "r \<noteq> Panic \<Longrightarrow> calm (resP r)"
  by (simp add: calm_def resP_def)

lemma calm_bindP [calm_intros]: "calm p \<Longrightarrow> (\<And>x. calm (f x)) \<Longrightarrow> calm (bindP p f)"
  by (auto simp: calm_def bindP_def split_beta split: res.split)

lemma calm_thenP [calm_intros]: "calm p \<Longrightarrow> calm q \<Longrightarrow> calm (thenP p q)"
  by (simp add: thenP_def calm_bindP)

lemma calm_map_errP [calm_intros]: "calm p \<Longrightarrow> calm (map_errP h p)"
  by (auto simp: calm_def map_errP_def split_beta)

lemma calm_or_elseP [calm_intros]: "calm p \<Longrightarrow> calm q \<Longrightarrow> calm (or_elseP p q)"
  by (auto simp: calm_def or_elseP_def split_beta split: res.split)

lemma calm_If [calm_intros]: "calm p \<Longrightarrow> calm q \<Longrightarrow> calm (if b then p else q)"
  by simp

lemma calm_case_option [calm_intros]:
  "calm p \<Longrightarrow> (\<And>x. calm (f x)) \<Longrightarrow> calm (case y of None \<Rightarrow> p | Some x \<Rightarrow> f x)"
  by (cases y) auto

lemma calm_case_prod [calm_intros]: "(\<And>x y. calm (f x y)) \<Longrightarrow> calm (case z of (x, y) \<Rightarrow> f x y)"
  by (cases z) auto

lemma calm_Let [calm_intros]: "(\<And>x. calm (f x)) \<Longrightarrow> calm (Let y f)"
  by (simp add: Let_def)

lemma calm_loop_fuel: "(\<And>st. calm (body st)) \<Longrightarrow> calm (loop_fuel n body st)"
proof (induction n arbitrary: st)
  case 0
  then show ?case by (simp add: calm_def)
next
  case (Suc n)
  have "calm (bindP (body st) (\<lambda>r. case r of Continue st' \<Rightarrow> loop_fuel n body st' | Break x \<Rightarrow> retP x))"
    by (rule calm_bindP) (auto intro: Suc calm_basic split: step.split)
  then show ?case by (simp add: calm_def)
qed

lemma calm_loopP [calm_intros]: "(\<And>st. calm (body st)) \<Longrightarrow> calm (loopP body st)"
  using calm_loop_fuel by (fastforce simp: calm_def loopP_def simp del: loop_fuel.simps)

text \<open>Consumption.\<close>

lemma eats_bind_first: "eats (\<lambda>_. True) p \<Longrightarrow> (\<And>x. good (f x)) \<Longrightarrow> good p \<Longrightarrow> eats Q (bindP p f)"
proof -
  assume p: "eats (\<lambda>_. True) p" and f: "\<And>x. good (f x)" and gp: "good p"
  show ?thesis
    unfolding eats_def
  proof (intro allI impI)
    fix s x s' assume wf: "wf_scanner s" and b: "bindP p f s = (Ok x, s')"
    then obtain y s1 where ps: "p s = (Ok y, s1)" and fy: "f y s1 = (Ok x, s')"
      by (auto simp: bindP_def split: prod.splits res.splits)
    have "length (remaining s1) < length (remaining s)"
      using p wf ps by (auto simp: eats_def)
    moreover have "forward s1 s'"
      using good_forward [OF f good_wf [OF gp wf ps] fy] .
    ultimately show "length (remaining s') < length (remaining s)"
      using forward_remaining by fastforce
  qed
qed

lemma eats_bind_second:
  "good p \<Longrightarrow> (\<And>x. eats Q (f x)) \<Longrightarrow> eats Q (bindP p f)"
proof -
  assume gp: "good p" and f: "\<And>x. eats Q (f x)"
  show ?thesis
    unfolding eats_def
  proof (intro allI impI)
    fix s x s' assume wf: "wf_scanner s" and b: "bindP p f s = (Ok x, s')" and "Q x"
    then obtain y s1 where ps: "p s = (Ok y, s1)" and fy: "f y s1 = (Ok x, s')"
      by (auto simp: bindP_def split: prod.splits res.splits)
    have "length (remaining s1) \<le> length (remaining s)"
      using good_forward [OF gp wf ps] by (rule forward_remaining)
    moreover have "length (remaining s') < length (remaining s1)"
      using f good_wf [OF gp wf ps] fy \<open>Q x\<close> by (auto simp: eats_def)
    ultimately show "length (remaining s') < length (remaining s)" by simp
  qed
qed

lemma eats_never: "returns (\<lambda>x. \<not> Q x) p \<Longrightarrow> eats Q p"
  by (auto simp: eats_def returns_def)

lemma eats_retP_never: "\<not> Q x \<Longrightarrow> eats Q (retP x)"
  by (auto simp: eats_def retP_def)

lemma eats_weaken: "eats (\<lambda>_. True) p \<Longrightarrow> eats Q p"
  by (auto simp: eats_def)

text \<open>Postconditions.\<close>

lemma returns_retP: "P x \<Longrightarrow> returns P (retP x)"
  by (simp add: returns_def retP_def)

lemma returns_failP: "returns P (failP e)"
  by (simp add: returns_def failP_def)

lemma returns_resP: "(\<And>x. r = Ok x \<Longrightarrow> P x) \<Longrightarrow> returns P (resP r)"
  by (simp add: returns_def resP_def)

lemma returns_bindP:
  assumes "good p" and "returns P p" and "\<And>x. P x \<Longrightarrow> returns R (f x)"
  shows "returns R (bindP p f)"
  unfolding returns_def
proof (intro allI impI)
  fix s x s' assume wf: "wf_scanner s" and b: "bindP p f s = (Ok x, s')"
  then obtain y s1 where ps: "p s = (Ok y, s1)" and fy: "f y s1 = (Ok x, s')"
    by (auto simp: bindP_def split: prod.splits res.splits)
  have "P y" using assms(2) wf ps by (auto simp: returns_def)
  then have "returns R (f y)" by (rule assms(3))
  then show "R x" using good_wf [OF assms(1) wf ps] fy by (auto simp: returns_def)
qed

lemma returns_True: "returns (\<lambda>_. True) p"
  by (simp add: returns_def)

lemma returns_map_errP: "returns P p \<Longrightarrow> returns P (map_errP h p)"
  by (fastforce simp: returns_def map_errP_def split: prod.splits)

lemma returns_or_elseP:
  "good p \<Longrightarrow> returns P p \<Longrightarrow> returns P q \<Longrightarrow> returns P (or_elseP p q)"
  by (fastforce simp: returns_def or_elseP_def dest: good_wf split: prod.splits res.splits)

section \<open>What a parser reads\<close>

text \<open>
  \<open>parses p inp x rest\<close>: on the input \<open>inp\<close> the parser succeeds with \<open>x\<close> and leaves \<open>rest\<close>,
  wherever in the buffer the input stands. This is the view of a parser the round trips use.
\<close>

definition parses :: "('e, 'a) parse \<Rightarrow> bytes \<Rightarrow> 'a \<Rightarrow> bytes \<Rightarrow> bool" where
  "parses p inp x rest \<longleftrightarrow>
     (\<forall>s. wf_scanner s \<longrightarrow> remaining s = inp \<longrightarrow>
        (\<exists>s'. p s = (Ok x, s') \<and> wf_scanner s' \<and> remaining s' = rest))"

lemma parsesI:
  "(\<And>s. wf_scanner s \<Longrightarrow> remaining s = inp \<Longrightarrow> \<exists>s'. p s = (Ok x, s') \<and> wf_scanner s' \<and> remaining s' = rest)
   \<Longrightarrow> parses p inp x rest"
  by (simp add: parses_def)

lemma parsesE:
  assumes "parses p inp x rest" and "wf_scanner s" and "remaining s = inp"
  obtains s' where "p s = (Ok x, s')" and "wf_scanner s'" and "remaining s' = rest"
  using assms by (auto simp: parses_def)

lemma parses_new: "parses p inp x rest \<Longrightarrow> fst (p (scanner_new inp)) = Ok x"
  using wf_scanner_new remaining_new by (fastforce simp: parses_def)

lemma parses_retP: "parses (retP x) inp x inp"
  by (simp add: parses_def retP_def)

lemma parses_resP: "r = Ok x \<Longrightarrow> parses (resP r) inp x inp"
  by (simp add: parses_def resP_def)

lemma parses_bindP: "parses p a x b \<Longrightarrow> parses (f x) b y c \<Longrightarrow> parses (bindP p f) a y c"
  by (fastforce simp: parses_def bindP_def)

lemma parses_thenP: "parses p a x b \<Longrightarrow> parses q b y c \<Longrightarrow> parses (thenP p q) a y c"
  unfolding thenP_def by (rule parses_bindP)

lemma parses_map_errP: "parses p a x b \<Longrightarrow> parses (map_errP h p) a x b"
  by (fastforce simp: parses_def map_errP_def)

lemma parses_or_elseP: "parses p a x b \<Longrightarrow> parses (or_elseP p q) a x b"
  by (fastforce simp: parses_def or_elseP_def)

lemma parses_deterministic: "parses p (remaining s) x b \<Longrightarrow> wf_scanner s \<Longrightarrow> p s = (Ok y, s') \<Longrightarrow> x = y \<and> remaining s' = b"
  by (fastforce simp: parses_def)

lemma loop_fuel_more:
  "loop_fuel n body st s = (Ok x, s') \<Longrightarrow> n \<le> m \<Longrightarrow> loop_fuel m body st s = (Ok x, s')"
proof (induction n arbitrary: m st s)
  case (Suc n)
  then obtain k where m: "m = Suc k" and "n \<le> k" by (cases m) auto
  with Suc show ?case
    by (auto simp: bindP_def split: prod.splits res.splits step.splits)
qed simp

lemma parses_loop_break:
  assumes "parses (body st) inp (Break x) rest" shows "parses (loopP body st) inp x rest"
proof (rule parsesI)
  fix s assume "wf_scanner s" and "remaining s = inp"
  with assms obtain s' where "body st s = (Ok (Break x), s')" "wf_scanner s'" "remaining s' = rest"
    by (rule parsesE)
  then show "\<exists>s'. loopP body st s = (Ok x, s') \<and> wf_scanner s' \<and> remaining s' = rest"
    by (simp add: loopP_def bindP_def retP_def)
qed

lemma parses_loop_continue:
  assumes "parses (body st) inp (Continue st') mid" and "length mid < length inp"
    and "parses (loopP body st') mid x rest"
  shows "parses (loopP body st) inp x rest"
proof (rule parsesI)
  fix s assume s: "wf_scanner s" "remaining s = inp"
  with assms(1) obtain s1 where b: "body st s = (Ok (Continue st'), s1)"
    and s1: "wf_scanner s1" "remaining s1 = mid"
    by (rule parsesE)
  from assms(3) s1 obtain s2 where l: "loopP body st' s1 = (Ok x, s2)"
    and s2: "wf_scanner s2" "remaining s2 = rest"
    by (rule parsesE)
  have "loop_fuel (length (remaining s)) body st' s1 = (Ok x, s2)"
    using l assms(2) s s1 unfolding loopP_def by (auto intro: loop_fuel_more simp del: loop_fuel.simps)
  then show "\<exists>s'. loopP body st s = (Ok x, s') \<and> wf_scanner s' \<and> remaining s' = rest"
    using b s2 by (simp add: loopP_def bindP_def)
qed

end
