(* ===== verification/Sip_Error.thy ===== *)
theory Sip_Error
  imports Parse_Monad
begin

text \<open>
  The error values: \<open>rssip-media/src/error.rs\<close> and \<open>rssip/src/error.rs\<close>. Constructors carry a
  prefix per type, since the source's names (\<open>Transport\<close>, \<open>Custom\<close>) repeat across types. The
  errors of the I/O and DNS crates are carried as their texts.
\<close>

section \<open>The media crate\<close>

datatype sdp_error =
    SdpInvalidProtocolVersion
  | SdpUnknowMediaType
  | SdpUnknowAddrType
  | SdpUnknowTransport
  | SdpScannerError scanner_error
  | SdpSyntaxError bytes

datatype media_error =
    ParseSdpError sdp_error
  | SdpTimeDescriptionNotFound
  | ErrNegotiationIsDone
  | ErrInvalidNegoState
  | ErrParseInt parse_int_error

definition media_of_scanner :: "scanner_error \<Rightarrow> media_error" where
  "media_of_scanner e = ParseSdpError (SdpScannerError e)"

section \<open>The SIP crate\<close>

datatype parse_error_kind =
    K_SyntaxError bytes
  | K_Port
  | K_Scheme
  | K_StatusCode
  | K_Host
  | K_SipMethod
  | K_Version
  | K_Uri
  | K_Param
  | K_Transport
  | K_Scanner scanner_error_kind

record parse_error =
  pe_kind :: parse_error_kind
  pe_position :: position

datatype tsx_error =
    AckCannotCreateTransaction
  | FailedToSendMessage bytes
  | TsxTimeout
  | InvalidState

datatype error =
    E_Parse parse_error
  | E_Transport bytes
  | E_Transaction tsx_error
  | E_Dialog bytes
  | E_MissingHeader bytes
  | E_Io bytes
  | E_ChannelClosed
  | E_UnsupportedTransport
  | E_InvalidStatusCode
  | E_Fmt
  | E_ResolveError bytes
  | E_Custom bytes
  | E_MediaError media_error
  | E_NoMediaConfigured

definition parse_error_of_scanner :: "scanner_error \<Rightarrow> parse_error" where
  "parse_error_of_scanner e = \<lparr>pe_kind = K_Scanner (se_kind e), pe_position = se_position e\<rparr>"

definition error_of_scanner :: "scanner_error \<Rightarrow> error" where
  "error_of_scanner e = E_Parse (parse_error_of_scanner e)"

fun is_transport_error :: "error \<Rightarrow> bool" where
  "is_transport_error (E_Transport t) = True"
| "is_transport_error e = False"

text \<open>The pretty-printed debug form of a UTF-8 error, which becomes the text of the error.\<close>

definition nl :: bytes where
  "nl = [CHR 0x0A]"

definition debug_utf8_error :: "utf8_error \<Rightarrow> bytes" where
  "debug_utf8_error e =
     ''Utf8Error {'' @ nl @ ''    valid_up_to: '' @ show_nat (valid_up_to e) @ '','' @ nl @
     ''    error_len: '' @
     (case error_len e of
        None \<Rightarrow> ''None,''
      | Some n \<Rightarrow> ''Some('' @ nl @ ''        '' @ show_nat n @ '','' @ nl @ ''    ),'') @ nl @ ''}''"

definition error_of_utf8 :: "utf8_error \<Rightarrow> error" where
  "error_of_utf8 e = E_Custom (debug_utf8_error e)"

end
