(* ===== verification/Sip_Method.thy ===== *)
theory Sip_Method
  imports Sip_Error
begin

text \<open>\<open>SipMethod\<close> of \<open>rssip/src/message/method.rs\<close>: the enumeration, its text and its parser.\<close>

datatype sip_method =
    Invite
  | Ack
  | Bye
  | Cancel
  | Register
  | Options
  | Info
  | Notify
  | Subscribe
  | Update
  | Refer
  | Prack
  | Message
  | Publish
  | Unknown

definition can_establish_dialog :: "sip_method \<Rightarrow> bool" where
  "can_establish_dialog m \<longleftrightarrow> m \<in> {Invite, Subscribe, Refer, Notify, Update}"

primrec method_str :: "sip_method \<Rightarrow> bytes" where
  "method_str Invite = ''INVITE''"
| "method_str Ack = ''ACK''"
| "method_str Bye = ''BYE''"
| "method_str Cancel = ''CANCEL''"
| "method_str Register = ''REGISTER''"
| "method_str Options = ''OPTIONS''"
| "method_str Info = ''INFO''"
| "method_str Notify = ''NOTIFY''"
| "method_str Subscribe = ''SUBSCRIBE''"
| "method_str Update = ''UPDATE''"
| "method_str Refer = ''REFER''"
| "method_str Prack = ''PRACK''"
| "method_str Message = ''MESSAGE''"
| "method_str Publish = ''PUBLISH''"
| "method_str Unknown = ''UNKNOWN-SipMethod''"

definition method_of_bytes :: "bytes \<Rightarrow> sip_method" where
  "method_of_bytes value =
    (if value = ''INVITE'' then Invite
     else if value = ''CANCEL'' then Cancel
     else if value = ''ACK'' then Ack
     else if value = ''BYE'' then Bye
     else if value = ''REGISTER'' then Register
     else if value = ''OPTIONS'' then Options
     else if value = ''INFO'' then Info
     else if value = ''NOTIFY'' then Notify
     else if value = ''SUBSCRIBE'' then Subscribe
     else if value = ''UPDATE'' then Update
     else if value = ''REFER'' then Refer
     else if value = ''PRACK'' then Prack
     else if value = ''MESSAGE'' then Message
     else if value = ''PUBLISH'' then Publish
     else Unknown)"

lemma method_of_method_str: "method_of_bytes (method_str m) = m"
  by (cases m) (simp_all add: method_of_bytes_def)

lemma method_of_bytes_known: "method_of_bytes v \<noteq> Unknown \<Longrightarrow> method_str (method_of_bytes v) = v"
  by (auto simp: method_of_bytes_def split: if_splits)

end
