(* ===== verification/Sip_Params.thy ===== *)
theory Sip_Params
  imports Sip_Method
begin

text \<open>
  Generic parameters and quality values (\<open>rssip/src/message/params/\<close>), and the transport
  protocols with their tables (\<open>TransportProtocol\<close> in \<open>rssip/src/transport/mod.rs\<close>).
\<close>

section \<open>Parameters\<close>

record param =
  p_name :: bytes
  p_value :: "bytes option"

type_synonym params = "param list"
type_synonym param_ref = "bytes \<times> bytes option"

definition param_of_ref :: "param_ref \<Rightarrow> param" where
  "param_of_ref r = \<lparr>p_name = fst r, p_value = snd r\<rparr>"

definition params_param :: "params \<Rightarrow> bytes \<Rightarrow> bytes option" where
  "params_param ps name =
     Option.bind (find (\<lambda>p. p_name p = name) ps) p_value"

definition params_push :: "params \<Rightarrow> param \<Rightarrow> params" where
  "params_push ps p = ps @ [p]"

definition show_opt :: "bytes \<Rightarrow> ('a \<Rightarrow> bytes) \<Rightarrow> 'a option \<Rightarrow> bytes" where
  "show_opt prefix f x = (case x of None \<Rightarrow> '''' | Some v \<Rightarrow> prefix @ f v)"

definition show_param :: "param \<Rightarrow> bytes" where
  "show_param p = '';'' @ p_name p @ show_opt ''='' id (p_value p)"

definition show_params :: "params \<Rightarrow> bytes" where
  "show_params ps = concat (map show_param ps)"

lemma params_param_push:
  "params_param (params_push ps p) name =
     (if name \<in> set (map p_name ps) then params_param ps name
      else if p_name p = name then p_value p else None)"
  by (induction ps) (auto simp: params_param_def params_push_def)

lemma show_params_simps [simp]:
  "show_params [] = []" "show_params (p # ps) = show_param p @ show_params ps"
  by (simp_all add: show_params_def)

section \<open>Quality values\<close>

record qvalue =
  q_int :: u8
  q_frac :: u8

datatype parse_q_error = ParseQError

definition error_of_q :: "parse_q_error \<Rightarrow> error" where
  "error_of_q e = E_Custom ''ParseQError''"

definition q_of_u8 :: "u8 \<Rightarrow> qvalue" where
  "q_of_u8 v = \<lparr>q_int = v, q_frac = 0\<rparr>"

definition parse_q :: "bytes \<Rightarrow> (parse_q_error, qvalue) res" where
  "parse_q s =
     (case rsplit_once (CHR ''.'') s of
        Some (a, b) \<Rightarrow>
          bind_res (map_err (\<lambda>_. ParseQError) (parse_u8 a)) (\<lambda>a'.
          bind_res (map_err (\<lambda>_. ParseQError) (parse_u8 b)) (\<lambda>b'.
            Ok \<lparr>q_int = a', q_frac = b'\<rparr>))
      | None \<Rightarrow>
          (case parse_u8 s of Ok n \<Rightarrow> Ok \<lparr>q_int = n, q_frac = 0\<rparr> | _ \<Rightarrow> Err ParseQError))"

definition show_q :: "qvalue \<Rightarrow> bytes" where
  "show_q q = '';q='' @ show_word (q_int q) @ ''.'' @ show_word (q_frac q)"

lemma rsplit_once_last:
  "c \<notin> set ys \<Longrightarrow> rsplit_once c (xs @ c # ys) = Some (xs, ys)"
proof -
  assume c: "c \<notin> set ys"
  have "takeWhile (\<lambda>b. b \<noteq> c) (rev ys @ c # rev xs) = rev ys"
    using c by (intro takeWhile_append_stop) auto
  then show ?thesis by (simp add: rsplit_once_def)
qed

lemma dot_not_in_show_nat: "CHR ''.'' \<notin> set (show_nat n)"
proof
  assume "CHR ''.'' \<in> set (show_nat n)"
  then have "is_ascii_digit (CHR ''.'')" using show_nat_digits by blast
  then show False by (simp add: is_ascii_digit_def byte_val_def)
qed

text \<open>Parsing the text after \<open>;q=\<close> gives the two numbers back.\<close>

lemma parse_q_show: "parse_q (drop 3 (show_q q)) = Ok q"
proof -
  have "rsplit_once (CHR ''.'') (show_word (q_int q) @ CHR ''.'' # show_word (q_frac q)) =
        Some (show_word (q_int q), show_word (q_frac q))"
    by (rule rsplit_once_last [OF dot_not_in_show_nat])
  then show ?thesis by (simp add: parse_q_def show_q_def)
qed

lemma parse_q_neq [simp]: "parse_q s \<noteq> Panic" "parse_q s \<noteq> OutOfFuel"
proof -
  have "parse_q s \<noteq> Panic \<and> parse_q s \<noteq> OutOfFuel"
    by (cases "parse_u8 (fst (the (rsplit_once (CHR ''.'') s)))";
        cases "parse_u8 (snd (the (rsplit_once (CHR ''.'') s)))"; cases "parse_u8 s")
       (auto simp: parse_q_def split: option.split)
  then show "parse_q s \<noteq> Panic" "parse_q s \<noteq> OutOfFuel" by blast+
qed

section \<open>Transport protocols\<close>

datatype protocol = Udp | Tcp | Ws | Wss | Tls | Sctp

datatype scheme = Sip | Sips

definition proto_is_reliable :: "protocol \<Rightarrow> bool" where
  "proto_is_reliable p \<longleftrightarrow> p \<in> {Tcp, Tls, Sctp, Wss, Ws}"

definition proto_is_unreliable :: "protocol \<Rightarrow> bool" where
  "proto_is_unreliable p \<longleftrightarrow> \<not> proto_is_reliable p"

primrec as_lower_case :: "protocol \<Rightarrow> bytes" where
  "as_lower_case Udp = ''udp''"
| "as_lower_case Tcp = ''tcp''"
| "as_lower_case Ws = ''ws''"
| "as_lower_case Wss = ''wss''"
| "as_lower_case Tls = ''tls''"
| "as_lower_case Sctp = ''sctp''"

primrec as_upper_case :: "protocol \<Rightarrow> bytes" where
  "as_upper_case Udp = ''UDP''"
| "as_upper_case Tcp = ''TCP''"
| "as_upper_case Ws = ''WS''"
| "as_upper_case Wss = ''WSS''"
| "as_upper_case Tls = ''TLS''"
| "as_upper_case Sctp = ''SCTP''"

primrec from_scheme :: "scheme \<Rightarrow> protocol" where
  "from_scheme Sip = Udp"
| "from_scheme Sips = Tcp"

definition proto_is_secure :: "protocol \<Rightarrow> bool" where
  "proto_is_secure p \<longleftrightarrow> p \<in> {Tls, Wss}"

primrec default_port :: "protocol \<Rightarrow> u16" where
  "default_port Udp = 5060"
| "default_port Tcp = 5060"
| "default_port Sctp = 5060"
| "default_port Tls = 5061"
| "default_port Ws = 80"
| "default_port Wss = 80"

definition parse_protocol :: "bytes \<Rightarrow> (unit, protocol) res" where
  "parse_protocol s =
    (if eq_ignore_ascii_case s ''udp'' then Ok Udp
     else if eq_ignore_ascii_case s ''tcp'' then Ok Tcp
     else if eq_ignore_ascii_case s ''ws'' then Ok Ws
     else if eq_ignore_ascii_case s ''wss'' then Ok Wss
     else if eq_ignore_ascii_case s ''tls'' then Ok Tls
     else if eq_ignore_ascii_case s ''sctp'' then Ok Sctp
     else Err ())"

lemma parse_protocol_as_lower_case: "parse_protocol (as_lower_case p) = Ok p"
  by (cases p) (simp_all, code_simp+)

lemma parse_protocol_as_upper_case: "parse_protocol (as_upper_case p) = Ok p"
  by (cases p) (simp_all, code_simp+)

lemma parse_protocol_Ok_iff: "parse_protocol s = Ok p \<longleftrightarrow> eq_ignore_ascii_case s (as_lower_case p)"
proof -
  have "eq_ignore_ascii_case s a \<Longrightarrow> eq_ignore_ascii_case s b \<Longrightarrow> map to_ascii_lowercase a = map to_ascii_lowercase b" for a b
    by (simp add: eq_ignore_ascii_case_def)
  then show ?thesis
    by (cases p) (auto simp: parse_protocol_def eq_ignore_ascii_case_def to_ascii_lowercase_def
        is_ascii_uppercase_def byte_val_def)
qed

lemma parse_protocol_neq [simp]: "parse_protocol s \<noteq> Panic" "parse_protocol s \<noteq> OutOfFuel"
  by (simp_all add: parse_protocol_def)

end
