(* ===== verification/Sip_Uri.thy ===== *)
theory Sip_Uri
  imports Sip_Params
begin

text \<open>
  SIP URIs: the data of \<open>rssip/src/message/uri.rs\<close>, its accessors, its builder and its printers.
\<close>

section \<open>Hosts\<close>

datatype host = HostName bytes | HostIp ip_addr

record host_port =
  hp_host :: host
  hp_port :: "u16 option"

definition default_host :: host where
  "default_host = HostName ''localhost''"

definition default_host_port :: host_port where
  "default_host_port = \<lparr>hp_host = default_host, hp_port = None\<rparr>"

fun show_host :: "host \<Rightarrow> bytes" where
  "show_host (HostName d) = d"
| "show_host (HostIp ip) = show_ip ip"

fun is_domain :: "host \<Rightarrow> bool" where
  "is_domain (HostName d) = True"
| "is_domain (HostIp ip) = False"

definition is_ip_addr :: "host \<Rightarrow> bool" where
  "is_ip_addr h \<longleftrightarrow> \<not> is_domain h"

definition host_of_str :: "bytes \<Rightarrow> host" where
  "host_of_str s = (case parse_ip s of Some ip \<Rightarrow> HostIp ip | None \<Rightarrow> HostName s)"

definition host_port_of_addr :: "socket_addr \<Rightarrow> host_port" where
  "host_port_of_addr a = \<lparr>hp_host = HostIp (sa_ip a), hp_port = Some (sa_port a)\<rparr>"

definition host_port_of_host :: "host \<Rightarrow> host_port" where
  "host_port_of_host h = \<lparr>hp_host = h, hp_port = None\<rparr>"

definition hp_ip_addr :: "host_port \<Rightarrow> ip_addr option" where
  "hp_ip_addr hp = (case hp_host hp of HostIp ip \<Rightarrow> Some ip | HostName _ \<Rightarrow> None)"

definition show_host_port :: "host_port \<Rightarrow> bytes" where
  "show_host_port hp =
     (case hp_host hp of HostName d \<Rightarrow> d | HostIp ip \<Rightarrow> show_ip ip) @
     show_opt '':'' show_word (hp_port hp)"

section \<open>URIs\<close>

record user_info =
  ui_user :: bytes
  ui_pass :: "bytes option"

type_synonym uri_headers = params

record uri =
  u_scheme :: scheme
  u_user :: "user_info option"
  u_host_port :: host_port
  u_user_param :: "bytes option"
  u_method_param :: "sip_method option"
  u_transport_param :: "protocol option"
  u_ttl_param :: "u8 option"
  u_lr_param :: bool
  u_maddr_param :: "host option"
  u_params :: params
  u_headers :: "uri_headers option"

type_synonym display_name = bytes

record name_addr =
  na_display :: "display_name option"
  na_uri :: uri

datatype sip_uri = PlainUri uri | NamedUri name_addr

definition default_uri :: uri where
  "default_uri =
     \<lparr>u_scheme = Sip, u_user = None, u_host_port = default_host_port, u_user_param = None,
      u_method_param = None, u_transport_param = None, u_ttl_param = None, u_lr_param = False,
      u_maddr_param = None, u_params = [], u_headers = None\<rparr>"

definition name_addr_new :: "uri \<Rightarrow> name_addr" where
  "name_addr_new u = \<lparr>na_display = None, na_uri = u\<rparr>"

text \<open>Both variants of a \<open>SipUri\<close> answer every accessor from the contained URI.\<close>

fun su_uri :: "sip_uri \<Rightarrow> uri" where
  "su_uri (PlainUri u) = u"
| "su_uri (NamedUri a) = na_uri a"

fun su_name_addr :: "sip_uri \<Rightarrow> name_addr option" where
  "su_name_addr (NamedUri a) = Some a"
| "su_name_addr (PlainUri u) = None"

fun su_display :: "sip_uri \<Rightarrow> display_name option" where
  "su_display (NamedUri a) = na_display a"
| "su_display (PlainUri u) = None"

fun su_scheme :: "sip_uri \<Rightarrow> scheme" where
  "su_scheme (PlainUri u) = u_scheme u"
| "su_scheme (NamedUri a) = u_scheme (na_uri a)"

fun su_user :: "sip_uri \<Rightarrow> user_info option" where
  "su_user (PlainUri u) = u_user u"
| "su_user (NamedUri a) = u_user (na_uri a)"

fun su_host_port :: "sip_uri \<Rightarrow> host_port" where
  "su_host_port (PlainUri u) = u_host_port u"
| "su_host_port (NamedUri a) = u_host_port (na_uri a)"

fun su_transport_param :: "sip_uri \<Rightarrow> protocol option" where
  "su_transport_param (PlainUri u) = u_transport_param u"
| "su_transport_param (NamedUri a) = u_transport_param (na_uri a)"

fun su_user_param :: "sip_uri \<Rightarrow> bytes option" where
  "su_user_param (PlainUri u) = u_user_param u"
| "su_user_param (NamedUri a) = u_user_param (na_uri a)"

fun su_method_param :: "sip_uri \<Rightarrow> sip_method option" where
  "su_method_param (PlainUri u) = u_method_param u"
| "su_method_param (NamedUri a) = u_method_param (na_uri a)"

fun su_ttl_param :: "sip_uri \<Rightarrow> u8 option" where
  "su_ttl_param (PlainUri u) = u_ttl_param u"
| "su_ttl_param (NamedUri a) = u_ttl_param (na_uri a)"

fun su_lr_param :: "sip_uri \<Rightarrow> bool" where
  "su_lr_param (PlainUri u) = u_lr_param u"
| "su_lr_param (NamedUri a) = u_lr_param (na_uri a)"

fun su_maddr_param :: "sip_uri \<Rightarrow> host option" where
  "su_maddr_param (PlainUri u) = u_maddr_param u"
| "su_maddr_param (NamedUri a) = u_maddr_param (na_uri a)"

fun su_other_params :: "sip_uri \<Rightarrow> params" where
  "su_other_params (PlainUri u) = u_params u"
| "su_other_params (NamedUri a) = u_params (na_uri a)"

fun su_headers :: "sip_uri \<Rightarrow> uri_headers option" where
  "su_headers (PlainUri u) = u_headers u"
| "su_headers (NamedUri a) = u_headers (na_uri a)"

section \<open>Builder\<close>

text \<open>The builder is the URI it is building; \<open>header\<close> inserts an empty list of headers first
  when there is none.\<close>

definition ub_scheme :: "scheme \<Rightarrow> uri \<Rightarrow> uri" where
  "ub_scheme x u = u\<lparr>u_scheme := x\<rparr>"

definition ub_user :: "user_info \<Rightarrow> uri \<Rightarrow> uri" where
  "ub_user x u = u\<lparr>u_user := Some x\<rparr>"

definition ub_host :: "host_port \<Rightarrow> uri \<Rightarrow> uri" where
  "ub_host x u = u\<lparr>u_host_port := x\<rparr>"

definition ub_user_param :: "bytes \<Rightarrow> uri \<Rightarrow> uri" where
  "ub_user_param x u = u\<lparr>u_user_param := Some x\<rparr>"

definition ub_method_param :: "sip_method \<Rightarrow> uri \<Rightarrow> uri" where
  "ub_method_param x u = u\<lparr>u_method_param := Some x\<rparr>"

definition ub_transport_param :: "protocol \<Rightarrow> uri \<Rightarrow> uri" where
  "ub_transport_param x u = u\<lparr>u_transport_param := Some x\<rparr>"

definition ub_ttl_param :: "u8 \<Rightarrow> uri \<Rightarrow> uri" where
  "ub_ttl_param x u = u\<lparr>u_ttl_param := Some x\<rparr>"

definition ub_lr_param :: "bool \<Rightarrow> uri \<Rightarrow> uri" where
  "ub_lr_param x u = u\<lparr>u_lr_param := x\<rparr>"

definition ub_maddr_param :: "host \<Rightarrow> uri \<Rightarrow> uri" where
  "ub_maddr_param x u = u\<lparr>u_maddr_param := Some x\<rparr>"

definition ub_param :: "bytes \<Rightarrow> bytes option \<Rightarrow> uri \<Rightarrow> uri" where
  "ub_param n v u = u\<lparr>u_params := params_push (u_params u) \<lparr>p_name = n, p_value = v\<rparr>\<rparr>"

definition ub_header :: "bytes \<Rightarrow> bytes option \<Rightarrow> uri \<Rightarrow> uri" where
  "ub_header n v u =
     u\<lparr>u_headers := Some (params_push (case u_headers u of Some h \<Rightarrow> h | None \<Rightarrow> []) \<lparr>p_name = n, p_value = v\<rparr>)\<rparr>"

definition ub_headers :: "uri_headers \<Rightarrow> uri \<Rightarrow> uri" where
  "ub_headers x u = u\<lparr>u_headers := Some x\<rparr>"

section \<open>Printers\<close>

primrec show_scheme :: "scheme \<Rightarrow> bytes" where
  "show_scheme Sip = ''sip''"
| "show_scheme Sips = ''sips''"

definition show_uri_header :: "param \<Rightarrow> bytes" where
  "show_uri_header p = p_name p @ ''='' @ (case p_value p of Some v \<Rightarrow> v | None \<Rightarrow> '''')"

definition show_uri_headers :: "uri_headers \<Rightarrow> bytes" where
  "show_uri_headers hs = join ''&'' (map show_uri_header hs)"

definition show_user_info :: "user_info \<Rightarrow> bytes" where
  "show_user_info i = ui_user i @ show_opt '':'' id (ui_pass i) @ ''@''"

definition show_uri_params :: "uri \<Rightarrow> bytes" where
  "show_uri_params u =
     show_opt '';user='' id (u_user_param u) @
     show_opt '';method='' method_str (u_method_param u) @
     show_opt '';maddr='' show_host (u_maddr_param u) @
     show_opt '';transport='' as_lower_case (u_transport_param u) @
     show_opt '';ttl='' show_word (u_ttl_param u) @
     (if u_lr_param u then '';lr'' else '''') @
     show_params (u_params u)"

definition show_uri :: "uri \<Rightarrow> bytes" where
  "show_uri u =
     show_scheme (u_scheme u) @ '':'' @
     show_opt '''' show_user_info (u_user u) @
     show_host_port (u_host_port u) @
     show_uri_params u @
     show_opt ''?'' show_uri_headers (u_headers u)"

definition quote :: byte where
  "quote = CHR 0x22"

definition show_name_addr :: "name_addr \<Rightarrow> bytes" where
  "show_name_addr a =
     (case na_display a of Some d \<Rightarrow> [quote] @ d @ [quote] @ '' '' | None \<Rightarrow> '''') @
     ''<'' @ show_uri (na_uri a) @ ''>''"

fun show_sip_uri :: "sip_uri \<Rightarrow> bytes" where
  "show_sip_uri (PlainUri u) = show_uri u"
| "show_sip_uri (NamedUri a) = show_name_addr a"

text \<open>Printing an address as a host and port loses nothing but the brackets an IPv6 address
  would need, so it is only a text the parser reads back for names and IPv4.\<close>

lemma su_accessors:
  "su_scheme s = u_scheme (su_uri s)" "su_user s = u_user (su_uri s)"
  "su_host_port s = u_host_port (su_uri s)" "su_transport_param s = u_transport_param (su_uri s)"
  "su_user_param s = u_user_param (su_uri s)" "su_method_param s = u_method_param (su_uri s)"
  "su_ttl_param s = u_ttl_param (su_uri s)" "su_lr_param s = u_lr_param (su_uri s)"
  "su_maddr_param s = u_maddr_param (su_uri s)" "su_other_params s = u_params (su_uri s)"
  "su_headers s = u_headers (su_uri s)"
  by (cases s; simp)+

end
