(* ===== verification/Parser_Core.thy ===== *)
theory Parser_Core
  imports Sip_Uri
begin

text \<open>
  The token level of \<open>rssip/src/parser.rs\<close>: the character classes as lookup tables
  (\<open>rssip-utils/src/lookup_table.rs\<close>), the scanner operations with the parser's errors, tokens,
  parameters and the two repetition macros of \<open>rssip/src/macros.rs\<close>.
\<close>

type_synonym 'a parser = "(error, 'a) parse"

section \<open>Character classes\<close>

text \<open>\<open>lookup_table!\<close> sets the entry of every byte of every slice in a table of 256 entries.\<close>

definition lookup_table :: "bytes list \<Rightarrow> bool list" where
  "lookup_table slices =
     fold (\<lambda>b arr. arr[byte_val b := True]) (concat slices) (replicate 256 False)"

definition ALPHANUMERIC :: bytes where
  "ALPHANUMERIC = ''abcdefghijklmnopqrstuvwxyzABCDEFGHIJKLMNOPQRSTUVWXYZ0123456789''"

definition UNRESERVED :: bytes where
  "UNRESERVED = ''-_.!~*'' @ [CHR 0x27] @ ''()%''"

definition ESCAPED :: bytes where
  "ESCAPED = ''%''"

definition USER_UNRESERVED :: bytes where
  "USER_UNRESERVED = ''&=+$,;?/''"

definition TOKEN :: bytes where
  "TOKEN = ''-.!%*_'' @ [CHR 0x60, CHR 0x27] @ ''~+''"

definition PASS :: bytes where
  "PASS = ''&=+$,''"

definition HOST :: bytes where
  "HOST = ''_-.''"

definition is_token :: "byte \<Rightarrow> bool" where
  "is_token b = lookup_table [ALPHANUMERIC, TOKEN] ! byte_val b"

definition is_user :: "byte \<Rightarrow> bool" where
  "is_user b = lookup_table [ALPHANUMERIC, UNRESERVED, USER_UNRESERVED, ESCAPED] ! byte_val b"

definition is_pass :: "byte \<Rightarrow> bool" where
  "is_pass b = lookup_table [ALPHANUMERIC, UNRESERVED, ESCAPED, PASS] ! byte_val b"

definition is_host :: "byte \<Rightarrow> bool" where
  "is_host b = lookup_table [ALPHANUMERIC, HOST] ! byte_val b"

definition is_param :: "byte \<Rightarrow> bool" where
  "is_param b = lookup_table [''[]/:&+$'', ALPHANUMERIC, UNRESERVED, ESCAPED] ! byte_val b"

definition is_hdr_uri :: "byte \<Rightarrow> bool" where
  "is_hdr_uri b = lookup_table [''[]/?:+$'', ALPHANUMERIC, UNRESERVED, ESCAPED] ! byte_val b"

definition is_via_param :: "byte \<Rightarrow> bool" where
  "is_via_param b = lookup_table [''[:]'', ALPHANUMERIC, TOKEN] ! byte_val b"

lemma lookup_table_loop:
  "length arr = 256 \<Longrightarrow>
   fold (\<lambda>b arr. arr[byte_val b := True]) bs arr ! byte_val c \<longleftrightarrow> c \<in> set bs \<or> arr ! byte_val c"
  by (induction bs arbitrary: arr) (auto simp: nth_list_update)

lemma lookup_table_iff: "lookup_table slices ! byte_val b \<longleftrightarrow> b \<in> set (concat slices)"
  by (simp add: lookup_table_def lookup_table_loop)

lemmas class_iffs =
  is_token_def is_user_def is_pass_def is_host_def is_param_def is_hdr_uri_def is_via_param_def
  lookup_table_iff

lemmas class_bytes = ALPHANUMERIC_def UNRESERVED_def ESCAPED_def USER_UNRESERVED_def TOKEN_def
  PASS_def HOST_def

text \<open>For evaluation, a class is the list of its bytes.\<close>

lemma class_code [code]:
  "is_token b \<longleftrightarrow> b \<in> set (ALPHANUMERIC @ TOKEN)"
  "is_user b \<longleftrightarrow> b \<in> set (ALPHANUMERIC @ UNRESERVED @ USER_UNRESERVED @ ESCAPED)"
  "is_pass b \<longleftrightarrow> b \<in> set (ALPHANUMERIC @ UNRESERVED @ ESCAPED @ PASS)"
  "is_host b \<longleftrightarrow> b \<in> set (ALPHANUMERIC @ HOST)"
  "is_param b \<longleftrightarrow> b \<in> set (''[]/:&+$'' @ ALPHANUMERIC @ UNRESERVED @ ESCAPED)"
  "is_hdr_uri b \<longleftrightarrow> b \<in> set (''[]/?:+$'' @ ALPHANUMERIC @ UNRESERVED @ ESCAPED)"
  "is_via_param b \<longleftrightarrow> b \<in> set (''[:]'' @ ALPHANUMERIC @ TOKEN)"
  by (simp_all add: class_iffs)

text \<open>The tables only contain ASCII bytes, which is what the unchecked conversions to \<open>str\<close>
  rely on.\<close>

lemma class_ascii:
  "\<forall>b\<in>set (concat [''[]/?:+$'', ''[]/:&+$'', ''[:]'', ALPHANUMERIC, UNRESERVED, ESCAPED, USER_UNRESERVED,
     TOKEN, PASS, HOST]). is_ascii b"
  by (simp only: class_bytes) code_simp

lemma is_token_ascii: "is_token b \<Longrightarrow> is_ascii b"
  and is_user_ascii: "is_user b \<Longrightarrow> is_ascii b"
  and is_pass_ascii: "is_pass b \<Longrightarrow> is_ascii b"
  and is_host_ascii: "is_host b \<Longrightarrow> is_ascii b"
  and is_param_ascii: "is_param b \<Longrightarrow> is_ascii b"
  and is_hdr_uri_ascii: "is_hdr_uri b \<Longrightarrow> is_ascii b"
  and is_via_param_ascii: "is_via_param b \<Longrightarrow> is_ascii b"
  using class_ascii by (auto simp: class_iffs)

section \<open>Scanner operations as parser operations\<close>

definition errP :: "parse_error_kind \<Rightarrow> 'a parser" where
  "errP k s = (Err (E_Parse \<lparr>pe_kind = k, pe_position = sc_position s\<rparr>), s)"

definition scanP :: "(scanner \<Rightarrow> 'a scan_result \<times> scanner) \<Rightarrow> 'a parser" where
  "scanP f = map_errP error_of_scanner f"

definition utf8P :: "bytes \<Rightarrow> bytes parser" where
  "utf8P bs = resP (map_err error_of_utf8 (from_utf8 bs))"

definition scan_whileP :: "(byte \<Rightarrow> bool) \<Rightarrow> bytes parser" where
  "scan_whileP f = liftP (scan_while f)"

definition skip_ws :: "unit parser" where
  "skip_ws = liftP (\<lambda>s. ((), snd (scan_while is_space s)))"

definition skip_newline :: "unit parser" where
  "skip_newline = liftP (\<lambda>s. ((), snd (scan_while is_newline s)))"

definition take_if_eq :: "byte \<Rightarrow> byte option parser" where
  "take_if_eq b = liftP (scan_if_eq b)"

definition take_until :: "byte \<Rightarrow> bytes parser" where
  "take_until b = liftP (scan_until b)"

definition take_alphabetic :: "bytes parser" where
  "take_alphabetic = liftP (scan_while is_ascii_alphabetic)"

definition advance :: "byte parser" where
  "advance = scanP next_byte"

definition must_readP :: "byte \<Rightarrow> unit parser" where
  "must_readP b = scanP (must_read b)"

definition read_line :: "bytes parser" where
  "read_line = scanP scan_line"

definition p_parse_u32 :: "u32 parser" where
  "p_parse_u32 = scanP scan_u32"

definition is_next_newline :: "scanner \<Rightarrow> bool" where
  "is_next_newline s \<longleftrightarrow> peek_if is_newline s \<noteq> None"

definition read_while_unchecked :: "(byte \<Rightarrow> bool) \<Rightarrow> bytes parser" where
  "read_while_unchecked f = liftP (scan_while_as_str_unchecked f)"

definition read_token :: "bytes parser" where
  "read_token = read_while_unchecked is_token"

definition read_user :: "bytes parser" where
  "read_user = read_while_unchecked is_user"

definition read_pass :: "bytes parser" where
  "read_pass = read_while_unchecked is_pass"

definition read_host :: "bytes parser" where
  "read_host = read_while_unchecked is_host"

section \<open>Quoted strings, tokens and parameters\<close>

text \<open>The tail of a quoted string, after its opening quote: the bytes up to the closing quote,
  which must be there, as UTF-8.\<close>

definition quoted_rest :: "bytes parser" where
  "quoted_rest =
     bindP (scan_whileP (\<lambda>b. b \<noteq> quote)) (\<lambda>value.
     thenP advance
       (utf8P value))"

definition token :: "bytes parser" where
  "token =
     bindP (take_if_eq quote) (\<lambda>q.
       case q of Some _ \<Rightarrow> quoted_rest | None \<Rightarrow> read_token)"

definition param_ref_unchecked :: "(byte \<Rightarrow> bool) \<Rightarrow> param_ref parser" where
  "param_ref_unchecked func =
     thenP skip_ws
     (bindP (read_while_unchecked func) (\<lambda>name.
      bindP (take_if_eq (CHR ''='')) (\<lambda>eq.
        case eq of
          None \<Rightarrow> retP (name, None)
        | Some _ \<Rightarrow>
            bindP (take_if_eq quote) (\<lambda>q.
            bindP (case q of Some _ \<Rightarrow> quoted_rest | None \<Rightarrow> read_while_unchecked func) (\<lambda>value.
              retP (name, Some value))))))"

definition p_param_ref :: "param_ref parser" where
  "p_param_ref = param_ref_unchecked is_token"

definition parse_uri_param :: "param_ref parser" where
  "parse_uri_param = param_ref_unchecked is_param"

definition via_param :: "param_ref parser" where
  "via_param = param_ref_unchecked is_via_param"

definition parse_param :: "param parser" where
  "parse_param = bindP p_param_ref (\<lambda>r. retP (param_of_ref r))"

definition parse_uri_header :: "param parser" where
  "parse_uri_header = bindP (param_ref_unchecked is_hdr_uri) (\<lambda>r. retP (param_of_ref r))"

definition param_of_str :: "bytes \<Rightarrow> (error, param) res" where
  "param_of_str s = fst (parse_param (scanner_new s))"

section \<open>Repetition macros\<close>

text \<open>
  \<open>parse_params!\<close>: the block handles one parameter; it may update the variables it captures
  (the loop state) and gives the parameter to keep, if any.
\<close>

definition parse_params_body ::
  "('st \<Rightarrow> ('st \<times> param option) parser) \<Rightarrow> 'st \<times> params \<Rightarrow> ('st \<times> params, 'st \<times> params) step parser" where
  "parse_params_body func z =
     bindP (take_if_eq (CHR '';'')) (\<lambda>semi.
       case semi of
         None \<Rightarrow> retP (Break z)
       | Some _ \<Rightarrow>
           bindP (func (fst z)) (\<lambda>r.
           thenP skip_ws
             (retP (Continue (fst r, case snd r of Some p \<Rightarrow> params_push (snd z) p | None \<Rightarrow> snd z)))))"

definition parse_params_with ::
  "('st \<Rightarrow> ('st \<times> param option) parser) \<Rightarrow> 'st \<Rightarrow> ('st \<times> params) parser" where
  "parse_params_with func st = thenP skip_ws (loopP (parse_params_body func) (st, []))"

definition parse_params :: "params parser" where
  "parse_params =
     bindP (parse_params_with (\<lambda>_. bindP parse_param (\<lambda>p. retP ((), Some p))) ()) (\<lambda>r. retP (snd r))"

text \<open>\<open>collect_elems_separated_by_comma!\<close>.\<close>

definition comma_body :: "'a parser \<Rightarrow> 'a list \<Rightarrow> ('a list, 'a list) step parser" where
  "comma_body func itens =
     thenP skip_ws
     (bindP func (\<lambda>x.
      bindP (take_if_eq (CHR '','')) (\<lambda>comma.
        case comma of
          None \<Rightarrow> retP (Break (itens @ [x]))
        | Some _ \<Rightarrow> retP (Continue (itens @ [x])))))"

definition collect_comma :: "'a parser \<Rightarrow> 'a list parser" where
  "collect_comma func = loopP (comma_body func) []"

section \<open>Termination and forward movement\<close>

lemma good_errP [good_intros]: "good (errP k)"
  by (simp add: good_def errP_def)

lemma good_utf8P [good_intros]: "good (utf8P bs)"
  by (simp add: utf8P_def good_resP)

lemma good_scanP: "(\<And>s. wf_scanner s \<Longrightarrow> forward s (snd (f s)) \<and> fst (f s) \<noteq> OutOfFuel) \<Longrightarrow> good (scanP f)"
  unfolding scanP_def by (rule good_map_errP) (simp add: good_def)

lemma good_scan_whileP [good_intros]: "good (scan_whileP f)"
  unfolding scan_whileP_def by (rule good_liftP) (auto intro: consumes_forward scan_while_spec)

lemma good_read_while_unchecked [good_intros]: "good (read_while_unchecked f)"
  unfolding read_while_unchecked_def scan_while_as_str_unchecked_def
  by (rule good_liftP) (auto intro: consumes_forward scan_while_spec)

lemma good_skip_ws [good_intros]: "good skip_ws"
  unfolding skip_ws_def by (rule good_liftP) (auto intro: consumes_forward scan_while_spec)

lemma good_skip_newline [good_intros]: "good skip_newline"
  unfolding skip_newline_def by (rule good_liftP) (auto intro: consumes_forward scan_while_spec)

lemma good_take_until [good_intros]: "good (take_until b)"
  unfolding take_until_def scan_until_def
  by (rule good_liftP) (auto intro: consumes_forward scan_while_spec)

lemma good_take_alphabetic [good_intros]: "good take_alphabetic"
  unfolding take_alphabetic_def by (rule good_liftP) (auto intro: consumes_forward scan_while_spec)

lemma scan_if_forward: "wf_scanner s \<Longrightarrow> forward s (snd (scan_if f s))"
  by (auto simp: scan_if_spec intro: consumes_forward consumes_bump split: list.split)

lemma good_take_if_eq [good_intros]: "good (take_if_eq b)"
  unfolding take_if_eq_def scan_if_eq_def by (rule good_liftP) (rule scan_if_forward)

lemma good_advance [good_intros]: "good advance"
  unfolding advance_def
  by (rule good_scanP)
     (auto simp: next_byte_def peek_scan intro: consumes_forward consumes_bump split: list.split)

lemma good_must_readP [good_intros]: "good (must_readP b)"
  unfolding must_readP_def
  by (rule good_scanP)
     (auto simp: must_read_def peek_remaining intro: consumes_forward consumes_bump split: list.split)

lemma good_scan_while_as_str: "wf_scanner s \<Longrightarrow>
  forward s (snd (scan_while_as_str f s)) \<and> fst (scan_while_as_str f s) \<noteq> OutOfFuel"
  using scan_while_spec(2) [of s f]
  by (auto simp: scan_while_as_str_def split_beta intro: consumes_forward)

lemma good_read_line [good_intros]: "good read_line"
  unfolding read_line_def scan_line_def by (rule good_scanP) (rule good_scan_while_as_str)

lemma scan_number_forward:
  "(\<And>bs. f bs \<noteq> OutOfFuel) \<Longrightarrow> wf_scanner s \<Longrightarrow>
   forward s (snd (scan_number f s)) \<and> fst (scan_number f s) \<noteq> OutOfFuel"
  using scan_while_spec(2) [of s]
  by (auto simp: scan_number_def scan_number_str_def split_beta intro: consumes_forward)

lemma good_p_parse_u32 [good_intros]: "good p_parse_u32"
  unfolding p_parse_u32_def scan_u32_def by (rule good_scanP) (simp add: scan_number_forward)

lemma good_read_string [good_intros]:
  "good read_token" "good read_user" "good read_pass" "good read_host"
  by (simp_all add: read_token_def read_user_def read_pass_def read_host_def good_read_while_unchecked)

lemma good_quoted_rest [good_intros]: "good quoted_rest"
  unfolding quoted_rest_def by (intro good_intros)

lemma good_token [good_intros]: "good token"
  unfolding token_def by (intro good_intros)

lemma good_param_ref_unchecked [good_intros]: "good (param_ref_unchecked f)"
  unfolding param_ref_unchecked_def by (intro good_intros)

lemma good_params [good_intros]:
  "good p_param_ref" "good parse_uri_param" "good via_param" "good parse_param" "good parse_uri_header"
  unfolding p_param_ref_def parse_uri_param_def via_param_def parse_param_def parse_uri_header_def
  by (intro good_intros)+

text \<open>A guard that reads one given byte before it goes on: the loops of the parser make progress.\<close>

lemma eats_take_Some: "eats (\<lambda>r. r \<noteq> None) (take_if_eq b)"
  by (auto simp: eats_def take_if_eq_def liftP_def scan_if_eq_def scan_if_spec
      remaining_bump split: list.splits if_splits prod.splits)

lemma eats_guard:
  assumes "\<And>x. good (f x)" and "\<not> Q y"
  shows "eats Q (bindP (take_if_eq b) (\<lambda>r. case r of None \<Rightarrow> retP y | Some x \<Rightarrow> f x))"
  unfolding eats_def
proof (intro allI impI)
  fix s x s'
  assume wf: "wf_scanner s" and Q: "Q x"
    and run: "bindP (take_if_eq b) (\<lambda>r. case r of None \<Rightarrow> retP y | Some x \<Rightarrow> f x) s = (Ok x, s')"
  then obtain r s1 where t: "take_if_eq b s = (Ok r, s1)"
    and k: "(case r of None \<Rightarrow> retP y | Some x \<Rightarrow> f x) s1 = (Ok x, s')"
    by (auto simp: bindP_def split: prod.splits res.splits)
  then obtain z where r: "r = Some z" using assms(2) Q by (cases r) (auto simp: retP_def)
  have "length (remaining s1) < length (remaining s)"
    using eats_take_Some wf t r by (fastforce simp: eats_def)
  moreover have "forward s1 s'"
    using good_forward [OF assms(1) good_wf [OF good_take_if_eq wf t]] k r by simp
  ultimately show "length (remaining s') < length (remaining s)"
    using forward_remaining by fastforce
qed

lemma good_parse_params_body:
  "(\<And>st. good (func st)) \<Longrightarrow> good (parse_params_body func z)"
  unfolding parse_params_body_def by (intro good_intros) blast

lemma good_parse_params_with [good_intros]:
  "(\<And>st. good (func st)) \<Longrightarrow> good (parse_params_with func st)"
  unfolding parse_params_with_def
  by (intro good_thenP good_skip_ws good_loopP good_parse_params_body)
     (auto simp: parse_params_body_def intro!: eats_guard intro: good_intros)

lemma good_parse_params [good_intros]: "good parse_params"
  unfolding parse_params_def by (intro good_intros)

lemma good_comma_body: "good func \<Longrightarrow> good (comma_body func xs)"
  unfolding comma_body_def by (intro good_intros)

lemma eats_comma_body: "good func \<Longrightarrow> eats (\<lambda>r. \<exists>st'. r = Continue st') (comma_body func xs)"
  unfolding comma_body_def thenP_def
  by (intro eats_bind_second good_intros eats_guard) auto

lemma good_collect_comma [good_intros]: "good func \<Longrightarrow> good (collect_comma func)"
  unfolding collect_comma_def by (intro good_loopP good_comma_body eats_comma_body)

section \<open>No panic\<close>

lemma calm_errP [calm_intros]: "calm (errP k)"
  by (simp add: calm_def errP_def)

lemma calm_utf8P [calm_intros]: "calm (utf8P bs)"
  by (simp add: utf8P_def calm_resP)

lemma calm_scanP: "(\<And>s. fst (f s) \<noteq> Panic) \<Longrightarrow> calm (scanP f)"
  unfolding scanP_def by (rule calm_map_errP) (simp add: calm_def)

lemma calm_lifted [calm_intros]:
  "calm (scan_whileP f)" "calm skip_ws" "calm skip_newline" "calm (take_if_eq b)" "calm (take_until b)"
  "calm take_alphabetic" "calm (read_while_unchecked f)" "calm read_token" "calm read_user"
  "calm read_pass" "calm read_host"
  by (simp_all add: scan_whileP_def skip_ws_def skip_newline_def take_if_eq_def take_until_def
      take_alphabetic_def read_while_unchecked_def read_token_def read_user_def read_pass_def
      read_host_def calm_basic)

lemma ok_or_neq [simp]: "ok_or x e \<noteq> Panic" "ok_or x e \<noteq> OutOfFuel"
  by (cases x; simp)+

lemma calm_advance [calm_intros]: "calm advance"
  unfolding advance_def by (rule calm_scanP) (simp add: next_byte_def split_beta)

lemma calm_must_readP [calm_intros]: "calm (must_readP b)"
  unfolding must_readP_def by (rule calm_scanP) (auto simp: must_read_def split: option.split)

lemma calm_scan_while_as_str: "fst (scan_while_as_str f s) \<noteq> Panic"
  by (simp add: scan_while_as_str_def split_beta)

lemma calm_read_line [calm_intros]: "calm read_line"
  unfolding read_line_def scan_line_def by (rule calm_scanP) (rule calm_scan_while_as_str)

lemma calm_scan_number: "(\<And>bs. f bs \<noteq> Panic) \<Longrightarrow> fst (scan_number f s) \<noteq> Panic"
  by (simp add: scan_number_def split_beta)

lemma calm_p_parse_u32 [calm_intros]: "calm p_parse_u32"
  unfolding p_parse_u32_def scan_u32_def by (rule calm_scanP) (simp add: calm_scan_number)

lemma calm_quoted_rest [calm_intros]: "calm quoted_rest"
  unfolding quoted_rest_def by (intro calm_intros)

lemma calm_token [calm_intros]: "calm token"
  unfolding token_def by (intro calm_intros)

lemma calm_param_ref_unchecked [calm_intros]: "calm (param_ref_unchecked f)"
  unfolding param_ref_unchecked_def by (intro calm_intros)

lemma calm_params [calm_intros]:
  "calm p_param_ref" "calm parse_uri_param" "calm via_param" "calm parse_param" "calm parse_uri_header"
  unfolding p_param_ref_def parse_uri_param_def via_param_def parse_param_def parse_uri_header_def
  by (intro calm_intros)+

lemma calm_parse_params_with [calm_intros]:
  "(\<And>st. calm (func st)) \<Longrightarrow> calm (parse_params_with func st)"
  unfolding parse_params_with_def parse_params_body_def by (intro calm_intros) blast

lemma calm_parse_params [calm_intros]: "calm parse_params"
  unfolding parse_params_def by (intro calm_intros)

lemma calm_collect_comma [calm_intros]: "calm func \<Longrightarrow> calm (collect_comma func)"
  unfolding collect_comma_def comma_body_def by (intro calm_intros)

section \<open>Property\<close>

lemma unchecked_utf8:
  assumes "wf_scanner s" and "\<And>b. f b \<Longrightarrow> is_ascii b"
  shows "valid_utf8 (fst (scan_while_as_str_unchecked f s))"
  using assms scan_while_spec(1) [OF assms(1), of f]
  by (auto simp: scan_while_as_str_unchecked_def intro!: valid_utf8_ascii dest: set_takeWhileD)

text \<open>C20: The parser's unchecked conversions are sound: for every character class it passes to
  \<open>scan_while_as_str_unchecked\<close>, the bytes taken from any input are valid UTF-8.\<close>

theorem unchecked_str_sound:
  assumes "wf_scanner s"
    and "f \<in> {is_token, is_user, is_pass, is_host, is_param, is_hdr_uri, is_via_param}"
  shows "valid_utf8 (fst (scan_while_as_str_unchecked f s))"
  using assms(2) by (auto intro: unchecked_utf8 [OF assms(1)] is_token_ascii is_user_ascii
      is_pass_ascii is_host_ascii is_param_ascii is_hdr_uri_ascii is_via_param_ascii)

theorem unchecked_str_sound_witness:
  "wf_scanner (scanner_new [CHR ''a'', CHR 0xC3]) \<and> is_token \<in> {is_token} \<and>
   valid_utf8 (fst (scan_while_as_str_unchecked is_token (scanner_new [CHR ''a'', CHR 0xC3]))) \<and>
   \<not> valid_utf8 [CHR ''a'', CHR 0xC3]"
proof -
  have "\<not> valid_utf8 [CHR ''a'', CHR 0xC3]" by code_simp
  then show ?thesis
    using unchecked_str_sound [OF wf_scanner_new, of is_token] by (simp add: wf_scanner_new)
qed

end
