(* ===== verification/Uri_Parser.thy ===== *)
theory Uri_Parser
  imports Parser_Core
begin

text \<open>
  The URI level of \<open>rssip/src/parser.rs\<close>: scheme, user part, host and port, URI parameters and
  headers, display names, name-addr and the choice between the two forms of an address.
\<close>

section \<open>Host and port\<close>

definition is_valid_port :: "u16 \<Rightarrow> bool" where
  "is_valid_port v \<longleftrightarrow> 0 \<le> v \<and> v \<le> 65535"

definition parse_port :: "u16 option parser" where
  "parse_port =
     bindP (take_if_eq (CHR '':'')) (\<lambda>colon.
       case colon of
         Some _ \<Rightarrow>
           bindP (or_elseP scan_u16 (errP K_Host)) (\<lambda>port.
             if is_valid_port port then retP (Some port) else errP K_Host)
       | None \<Rightarrow> retP None)"

definition parse_ipv6_host :: "host parser" where
  "parse_ipv6_host =
     thenP advance
     (bindP (or_elseP (scan_while_as_str (\<lambda>b. b \<noteq> CHR '']'')) (errP K_Host)) (\<lambda>h.
      thenP advance
        (case parse_ip h of
           Some ip \<Rightarrow> retP (HostIp ip)
         | None \<Rightarrow> errP K_Host)))"

definition parse_name_host :: "host parser" where
  "parse_name_host =
     bindP read_host (\<lambda>h.
       if h = [] then errP K_Host
       else (case parse_ip h of
               Some ip \<Rightarrow> retP (HostIp ip)
             | None \<Rightarrow> retP (HostName h)))"

definition parse_host_port :: "host_port parser" where
  "parse_host_port =
     bindP (askP peek) (\<lambda>b.
     bindP (if b = Some (CHR ''['') then parse_ipv6_host else parse_name_host) (\<lambda>h.
     bindP parse_port (\<lambda>port.
       retP \<lparr>hp_host = h, hp_port = port\<rparr>)))"

section \<open>Scheme and user part\<close>

definition parse_scheme :: "scheme parser" where
  "parse_scheme =
     bindP (askP (peek_while is_token)) (\<lambda>tok.
     bindP (if tok = ''sip'' then retP Sip
            else if tok = ''sips'' then retP Sips
            else errP K_Scheme) (\<lambda>scheme.
     thenP (liftP (\<lambda>s. ((), advance_n (length tok) s)))
     (thenP (must_readP (CHR '':''))
       (retP scheme))))"

definition exists_user_part :: "scanner \<Rightarrow> bool" where
  "exists_user_part s \<longleftrightarrow>
     CHR ''@'' \<in> set (takeWhile (\<lambda>b. \<not> is_space b \<and> \<not> is_newline b \<and> b \<noteq> CHR ''>'') (remaining s))"

definition parse_user_info :: "user_info option parser" where
  "parse_user_info =
     bindP (askP exists_user_part) (\<lambda>has_user.
       if has_user then
         bindP read_user (\<lambda>user.
         bindP (take_if_eq (CHR '':'')) (\<lambda>colon.
         bindP (case colon of
                  Some _ \<Rightarrow> bindP read_pass (\<lambda>p. retP (Some p))
                | None \<Rightarrow> retP None) (\<lambda>pass.
         thenP (or_elseP (must_read (CHR ''@'')) (errP K_Uri))
           (retP (Some \<lparr>ui_user = user, ui_pass = pass\<rparr>)))))
       else retP None)"

section \<open>URI parameters and headers\<close>

text \<open>One URI parameter, as an update of the URI under construction or a generic parameter.\<close>

definition uri_param_step :: "uri \<Rightarrow> (uri \<times> param option) parser" where
  "uri_param_step u =
     bindP parse_uri_param (\<lambda>(pname, pvalue).
       if pname = ''user'' then retP (u\<lparr>u_user_param := pvalue\<rparr>, None)
       else if pname = ''method'' then
         retP (u\<lparr>u_method_param := map_option method_of_bytes pvalue\<rparr>, None)
       else if pname = ''transport'' then
         bindP (or_elseP (resP (transpose (map_option parse_protocol pvalue))) (errP K_Transport)) (\<lambda>v.
           retP (u\<lparr>u_transport_param := v\<rparr>, None))
       else if pname = ''ttl'' then
         bindP (or_elseP (resP (transpose (map_option parse_u8 pvalue))) (errP K_Param)) (\<lambda>v.
           retP (u\<lparr>u_ttl_param := v\<rparr>, None))
       else if pname = ''lr'' then retP (u\<lparr>u_lr_param := True\<rparr>, None)
       else if pname = ''maddr'' then
         retP (u\<lparr>u_maddr_param := map_option host_of_str pvalue\<rparr>, None)
       else retP (u, Some (param_of_ref (pname, pvalue))))"

definition uri_headers_body :: "uri_headers \<Rightarrow> (uri_headers, uri_headers) step parser" where
  "uri_headers_body hs =
     bindP parse_uri_header (\<lambda>param.
     bindP (take_if_eq (CHR ''&'')) (\<lambda>amp.
       case amp of
         None \<Rightarrow> retP (Break (params_push hs param))
       | Some _ \<Rightarrow> retP (Continue (params_push hs param))))"

definition parse_uri_headers :: "uri_headers parser" where
  "parse_uri_headers = loopP uri_headers_body []"

definition parse_uri :: "bool \<Rightarrow> uri parser" where
  "parse_uri with_params =
     bindP parse_scheme (\<lambda>scheme.
     bindP parse_user_info (\<lambda>user.
     bindP parse_host_port (\<lambda>hp.
       let u = default_uri\<lparr>u_scheme := scheme, u_user := user, u_host_port := hp\<rparr> in
       if \<not> with_params then retP u
       else
         bindP (parse_params_with uri_param_step u) (\<lambda>(u', ps).
         bindP (take_if_eq (CHR ''?'')) (\<lambda>q.
         bindP (case q of
                  Some _ \<Rightarrow> bindP parse_uri_headers (\<lambda>h. retP (Some h))
                | None \<Rightarrow> retP None) (\<lambda>headers.
           retP (u'\<lparr>u_params := ps, u_headers := headers\<rparr>)))))))"

definition uri_of_str :: "bytes \<Rightarrow> (error, uri) res" where
  "uri_of_str s = fst (parse_uri True (scanner_new s))"

definition host_port_of_str :: "bytes \<Rightarrow> (error, host_port) res" where
  "host_port_of_str s = fst (parse_host_port (scanner_new s))"

section \<open>Name-addr and the two forms of an address\<close>

definition parse_display_name :: "display_name option parser" where
  "parse_display_name =
     bindP (askP peek) (\<lambda>b.
       if b = Some quote then
         thenP advance (bindP quoted_rest (\<lambda>name. retP (Some name)))
       else if b = Some (CHR ''<'') then retP None
       else
         bindP read_token (\<lambda>name.
         thenP skip_ws
           (retP (Some name))))"

definition parse_name_addr :: "name_addr parser" where
  "parse_name_addr =
     thenP skip_ws
     (bindP parse_display_name (\<lambda>display.
      thenP skip_ws
      (thenP (must_readP (CHR ''<''))
      (bindP (parse_uri True) (\<lambda>u.
       thenP (must_readP (CHR ''>''))
         (retP \<lparr>na_display = display, na_uri = u\<rparr>))))))"

definition parse_sip_uri :: "bool \<Rightarrow> sip_uri parser" where
  "parse_sip_uri with_params =
     thenP skip_ws
     (bindP (askP peek) (\<lambda>b.
        if b = Some quote \<or> b = Some (CHR ''<'') then
          bindP parse_name_addr (\<lambda>a. retP (NamedUri a))
        else
          bindP (askP (peek_while (\<lambda>b. b \<notin> set [CHR '':'', CHR 0x0D, CHR 0x0A, CHR ''<'']))) (\<lambda>head.
            if head = ''sip'' \<or> head = ''sips'' then
              bindP (parse_uri with_params) (\<lambda>u. retP (PlainUri u))
            else
              bindP parse_name_addr (\<lambda>a. retP (NamedUri a)))))"

definition name_addr_of_str :: "bytes \<Rightarrow> (error, name_addr) res" where
  "name_addr_of_str s = fst (parse_name_addr (scanner_new s))"

definition sip_uri_of_str :: "bytes \<Rightarrow> (error, sip_uri) res" where
  "sip_uri_of_str s = fst (parse_sip_uri True (scanner_new s))"

section \<open>Termination, forward movement, no panic\<close>

lemma good_scan_u16 [good_intros]: "good scan_u16"
  by (simp add: good_def scan_u16_def scan_number_forward)

lemma good_must_read [good_intros]: "good (must_read b)"
  by (auto simp: good_def must_read_def peek_remaining
      intro: consumes_forward consumes_bump split: list.split)

lemma good_scan_while_as_str' [good_intros]: "good (scan_while_as_str f)"
  by (simp add: good_def good_scan_while_as_str)

lemma calm_scan_ops [calm_intros]:
  "calm scan_u16" "calm (must_read b)" "calm (scan_while_as_str f)"
  by (auto simp: calm_def scan_u16_def calm_scan_number must_read_def calm_scan_while_as_str
      split: option.split)

lemma good_advance_n [good_intros]: "good (liftP (\<lambda>s. ((), advance_n n s)))"
proof -
  have "wf_scanner s \<Longrightarrow> forward s (advance_n n s)" for s
  proof (induction n arbitrary: s)
    case (Suc n)
    then show ?case
      by (auto simp: peek_scan split: list.split
          intro: forward_trans [OF consumes_forward [OF consumes_bump]] wf_scanner_bump)
  qed simp
  then show ?thesis by (intro good_liftP) simp
qed

lemma transpose_neq [simp]:
  "transpose (map_option f v) \<noteq> OutOfFuel \<longleftrightarrow> (case v of None \<Rightarrow> True | Some x \<Rightarrow> f x \<noteq> OutOfFuel)"
  "transpose (map_option f v) \<noteq> Panic \<longleftrightarrow> (case v of None \<Rightarrow> True | Some x \<Rightarrow> f x \<noteq> Panic)"
  by (cases v; simp)+

lemma good_host_port [good_intros]:
  "good parse_port" "good parse_ipv6_host" "good parse_name_host" "good parse_host_port"
proof -
  show p: "good parse_port" unfolding parse_port_def by (intro good_intros)
  show v6: "good parse_ipv6_host" unfolding parse_ipv6_host_def by (intro good_intros)
  show n: "good parse_name_host" unfolding parse_name_host_def by (intro good_intros)
  show "good parse_host_port" unfolding parse_host_port_def by (intro good_intros p v6 n)
qed

lemma good_scheme_user [good_intros]: "good parse_scheme" "good parse_user_info"
  unfolding parse_scheme_def parse_user_info_def by (intro good_intros)+

lemma good_uri_param_step [good_intros]: "good (uri_param_step u)"
  unfolding uri_param_step_def by (intro good_intros) (simp_all split: option.split)

lemma good_parse_uri_headers [good_intros]: "good parse_uri_headers"
  unfolding parse_uri_headers_def
  by (rule good_loopP; unfold uri_headers_body_def; (intro good_intros)?)
     (intro eats_bind_second good_intros eats_guard; simp)

lemma good_parse_uri [good_intros]: "good (parse_uri b)"
  unfolding parse_uri_def by (intro good_intros)

lemma good_addresses [good_intros]:
  "good parse_display_name" "good parse_name_addr" "good (parse_sip_uri b)"
proof -
  show d: "good parse_display_name" unfolding parse_display_name_def by (intro good_intros)
  show n: "good parse_name_addr" unfolding parse_name_addr_def by (intro good_intros d)
  show "good (parse_sip_uri b)" unfolding parse_sip_uri_def by (intro good_intros n)
qed

lemma calm_uri_parts [calm_intros]:
  "calm parse_port" "calm parse_ipv6_host" "calm parse_name_host" "calm parse_scheme"
  "calm parse_user_info"
  unfolding parse_port_def parse_ipv6_host_def parse_name_host_def parse_scheme_def parse_user_info_def
  by (intro calm_intros)+

lemma calm_parse_host_port [calm_intros]: "calm parse_host_port"
  unfolding parse_host_port_def by (intro calm_intros)

lemma calm_uri_param_step [calm_intros]: "calm (uri_param_step u)"
  unfolding uri_param_step_def by (intro calm_intros) (simp_all split: option.split)

lemma calm_parse_uri [calm_intros]: "calm (parse_uri b)"
  unfolding parse_uri_def parse_uri_headers_def uri_headers_body_def by (intro calm_intros)

lemma calm_addresses [calm_intros]:
  "calm parse_display_name" "calm parse_name_addr" "calm (parse_sip_uri b)"
  unfolding parse_display_name_def parse_name_addr_def parse_sip_uri_def parse_display_name_def
  by (intro calm_intros)+

end
