(* ===== verification/Auth.thy ===== *)
theory Auth
  imports Uri_Parser
begin

text \<open>
  Authentication data of \<open>rssip/src/message/auth.rs\<close> with its printers, the challenge and
  credential parsers of \<open>rssip/src/parser.rs\<close>, and media types
  (\<open>rssip/src/message/media_type.rs\<close>).
\<close>

section \<open>Challenges and credentials\<close>

record digest_challenge =
  dc_realm :: "bytes option"
  dc_domain :: "bytes option"
  dc_nonce :: "bytes option"
  dc_opaque :: "bytes option"
  dc_stale :: "bytes option"
  dc_algorithm :: "bytes option"
  dc_qop :: "bytes option"

definition default_challenge :: digest_challenge where
  "default_challenge =
     \<lparr>dc_realm = None, dc_domain = None, dc_nonce = None, dc_opaque = None, dc_stale = None,
      dc_algorithm = None, dc_qop = None\<rparr>"

datatype challenge = DigestChallenge digest_challenge | OtherChallenge bytes params

record digest_credential =
  cr_realm :: "bytes option"
  cr_username :: "bytes option"
  cr_nonce :: "bytes option"
  cr_uri :: "bytes option"
  cr_response :: "bytes option"
  cr_algorithm :: "bytes option"
  cr_cnonce :: "bytes option"
  cr_opaque :: "bytes option"
  cr_qop :: "bytes option"
  cr_nc :: "bytes option"

definition default_credential :: digest_credential where
  "default_credential =
     \<lparr>cr_realm = None, cr_username = None, cr_nonce = None, cr_uri = None, cr_response = None,
      cr_algorithm = None, cr_cnonce = None, cr_opaque = None, cr_qop = None, cr_nc = None\<rparr>"

datatype credential = DigestCredential digest_credential | OtherCredential bytes params

section \<open>Parsers\<close>

definition set_challenge_param :: "bytes \<Rightarrow> bytes option \<Rightarrow> digest_challenge \<Rightarrow> digest_challenge" where
  "set_challenge_param name value d =
    (if name = ''realm'' then d\<lparr>dc_realm := value\<rparr>
     else if name = ''nonce'' then d\<lparr>dc_nonce := value\<rparr>
     else if name = ''domain'' then d\<lparr>dc_domain := value\<rparr>
     else if name = ''algorithm'' then d\<lparr>dc_algorithm := value\<rparr>
     else if name = ''opaque'' then d\<lparr>dc_opaque := value\<rparr>
     else if name = ''qop'' then d\<lparr>dc_qop := value\<rparr>
     else if name = ''stale'' then d\<lparr>dc_stale := value\<rparr>
     else d)"

text \<open>The loop the digest parsers share: parameters separated by commas, each an update of the
  record under construction.\<close>

definition digest_body ::
  "(bytes \<Rightarrow> bytes option \<Rightarrow> 'd \<Rightarrow> 'd) \<Rightarrow> 'd \<Rightarrow> ('d, 'd) step parser" where
  "digest_body set_param d =
     thenP skip_ws
     (bindP p_param_ref (\<lambda>(name, value).
      bindP (take_if_eq (CHR '','')) (\<lambda>comma.
        case comma of
          None \<Rightarrow> retP (Break (set_param name value d))
        | Some _ \<Rightarrow> retP (Continue (set_param name value d)))))"

definition parse_digest_challenge :: "challenge parser" where
  "parse_digest_challenge =
     bindP (loopP (digest_body set_challenge_param) default_challenge) (\<lambda>d.
       retP (DigestChallenge d))"

definition parse_auth_challenge :: "challenge parser" where
  "parse_auth_challenge =
     bindP token (\<lambda>scheme.
       if scheme = ''Digest'' then parse_digest_challenge
       else bindP parse_params (\<lambda>ps. retP (OtherChallenge scheme ps)))"

definition set_credential_param :: "bytes \<Rightarrow> bytes option \<Rightarrow> digest_credential \<Rightarrow> digest_credential" where
  "set_credential_param name value d =
    (if name = ''realm'' then d\<lparr>cr_realm := value\<rparr>
     else if name = ''username'' then d\<lparr>cr_username := value\<rparr>
     else if name = ''nonce'' then d\<lparr>cr_nonce := value\<rparr>
     else if name = ''uri'' then d\<lparr>cr_uri := value\<rparr>
     else if name = ''response'' then d\<lparr>cr_response := value\<rparr>
     else if name = ''algorithm'' then d\<lparr>cr_algorithm := value\<rparr>
     else if name = ''cnonce'' then d\<lparr>cr_cnonce := value\<rparr>
     else if name = ''opaque'' then d\<lparr>cr_opaque := value\<rparr>
     else if name = ''qop'' then d\<lparr>cr_qop := value\<rparr>
     else if name = ''nc'' then d\<lparr>cr_nc := value\<rparr>
     else d)"

definition parse_digest_credential :: "credential parser" where
  "parse_digest_credential =
     bindP (loopP (digest_body set_credential_param) default_credential) (\<lambda>d.
       retP (DigestCredential d))"

definition parse_other_credential :: "bytes \<Rightarrow> credential parser" where
  "parse_other_credential scheme =
     bindP parse_params (\<lambda>ps. retP (OtherCredential scheme ps))"

definition parse_auth_credential :: "credential parser" where
  "parse_auth_credential =
     bindP token (\<lambda>scheme.
       if scheme = ''Digest'' then parse_digest_credential else parse_other_credential scheme)"

section \<open>Printers\<close>

text \<open>Printing a challenge or a credential of another scheme is \<open>todo!()\<close>.\<close>

fun show_challenge :: "challenge \<Rightarrow> (error, bytes) res" where
  "show_challenge (DigestChallenge d) =
     Ok (''Digest '' @
       (case dc_realm d of Some v \<Rightarrow> ''realm='' @ v @ '', '' | None \<Rightarrow> '''') @
       (case dc_domain d of Some v \<Rightarrow> ''domain='' @ v @ '', '' | None \<Rightarrow> '''') @
       (case dc_nonce d of Some v \<Rightarrow> ''nonce='' @ v @ '', '' | None \<Rightarrow> '''') @
       (case dc_opaque d of Some v \<Rightarrow> ''opaque='' @ v @ '', '' | None \<Rightarrow> '''') @
       (case dc_stale d of Some v \<Rightarrow> ''stale='' @ v @ '', '' | None \<Rightarrow> '''') @
       (case dc_algorithm d of Some v \<Rightarrow> ''algorithm='' @ v @ '', '' | None \<Rightarrow> '''') @
       (case dc_qop d of Some v \<Rightarrow> ''qop='' @ v | None \<Rightarrow> ''''))"
| "show_challenge (OtherChallenge scheme ps) = Panic"

fun show_credential :: "credential \<Rightarrow> (error, bytes) res" where
  "show_credential (DigestCredential d) =
     Ok (''Digest '' @
       show_opt ''username='' id (cr_username d) @
       show_opt '', realm='' id (cr_realm d) @
       show_opt '', nonce='' id (cr_nonce d) @
       show_opt '', uri='' id (cr_uri d) @
       show_opt '', response='' id (cr_response d) @
       show_opt '', algorithm='' id (cr_algorithm d) @
       show_opt '', cnonce='' id (cr_cnonce d) @
       show_opt '', qop='' id (cr_qop d) @
       show_opt '', nc='' id (cr_nc d) @
       show_opt '', opaque='' id (cr_opaque d))"
| "show_credential (OtherCredential scheme ps) = Panic"

section \<open>Media types\<close>

record mime_type =
  mt_type :: bytes
  mt_subtype :: bytes

record media_type =
  md_mimetype :: mime_type
  md_params :: params

definition media_type_new :: "bytes \<Rightarrow> bytes \<Rightarrow> media_type" where
  "media_type_new t st = \<lparr>md_mimetype = \<lparr>mt_type = t, mt_subtype = st\<rparr>, md_params = []\<rparr>"

definition media_type_from_parts :: "bytes \<Rightarrow> bytes \<Rightarrow> params \<Rightarrow> media_type" where
  "media_type_from_parts t st ps = \<lparr>md_mimetype = \<lparr>mt_type = t, mt_subtype = st\<rparr>, md_params = ps\<rparr>"

definition parse_media_type :: "media_type parser" where
  "parse_media_type =
     bindP token (\<lambda>t.
     thenP advance
     (bindP token (\<lambda>st.
      bindP parse_params (\<lambda>ps.
        retP (media_type_from_parts t st ps)))))"

definition show_media_type :: "media_type \<Rightarrow> bytes" where
  "show_media_type m =
     mt_type (md_mimetype m) @ ''/'' @ mt_subtype (md_mimetype m) @ show_params (md_params m)"

section \<open>Termination, forward movement, no panic\<close>

lemma good_digest_loop [good_intros]: "good (loopP (digest_body f) d)"
proof (rule good_loopP)
  show "good (digest_body f st)" for st
    unfolding digest_body_def by (intro good_intros)
  show "eats (\<lambda>r. \<exists>st'. r = Continue st') (digest_body f st)" for st
    unfolding digest_body_def thenP_def
    by (intro eats_bind_second good_intros) (auto intro!: eats_bind_second eats_guard good_intros)
qed

lemma good_auth [good_intros]:
  "good parse_digest_challenge" "good parse_auth_challenge" "good parse_digest_credential"
  "good (parse_other_credential sch)" "good parse_auth_credential" "good parse_media_type"
proof -
  show c: "good parse_digest_challenge" unfolding parse_digest_challenge_def by (intro good_intros)
  show "good parse_auth_challenge" unfolding parse_auth_challenge_def by (intro good_intros c)
  show d: "good parse_digest_credential" unfolding parse_digest_credential_def by (intro good_intros)
  show o': "good (parse_other_credential sch)" for sch
    unfolding parse_other_credential_def by (intro good_intros)
  show "good parse_auth_credential" unfolding parse_auth_credential_def by (intro good_intros d o')
  show "good parse_media_type" unfolding parse_media_type_def by (intro good_intros)
qed

lemma calm_auth [calm_intros]:
  "calm parse_digest_challenge" "calm parse_auth_challenge" "calm parse_digest_credential"
  "calm (parse_other_credential sch)" "calm parse_auth_credential" "calm parse_media_type"
  unfolding parse_digest_challenge_def parse_auth_challenge_def parse_digest_credential_def
    parse_other_credential_def parse_auth_credential_def parse_media_type_def digest_body_def
    parse_digest_challenge_def parse_digest_credential_def parse_other_credential_def
  by (intro calm_intros)+

end
