(* ===== verification/F32.thy ===== *)
theory F32
  imports Scanner
begin

text \<open>
  Rust's \<open>f32\<close> as far as the program uses it: reading a non-negative decimal literal (rounding to
  the nearest binary32 number, ties to even) and printing (the shortest decimal text that reads
  back, without an exponent). A finite value is \<open>Fin m e\<close>, that is \<open>m * 2 ^ e / 2 ^ 149\<close>, with the
  exponent counted from that of the smallest subnormal.
\<close>

datatype f32 = Fin nat nat | Inf

fun bit_len :: "nat \<Rightarrow> nat" where
  "bit_len n = (if n = 0 then 0 else 1 + bit_len (n div 2))"

declare bit_len.simps [simp del]

definition round_half_even :: "nat \<Rightarrow> nat \<Rightarrow> nat" where
  "round_half_even num den =
     (let q = num div den; r = num mod den in
      if den < 2 * r \<or> (den = 2 * r \<and> odd q) then q + 1 else q)"

text \<open>The \<open>f32\<close> nearest to \<open>num / den\<close>.\<close>

definition f32_of_ratio :: "nat \<Rightarrow> nat \<Rightarrow> f32" where
  "f32_of_ratio num den =
     (let n = num * 2 ^ 149;
          e = bit_len (n div den) - 24;
          m = round_half_even n (den * 2 ^ e);
          z = (if m = 2 ^ 24 then (2 ^ 23, e + 1) else (m, e))
      in if 254 \<le> snd z then Inf else Fin (fst z) (if fst z = 0 then 0 else snd z))"

definition digits_value :: "bytes \<Rightarrow> nat" where
  "digits_value ds = fold (\<lambda>b acc. acc * 10 + digit_val b) ds 0"

text \<open>\<open>f32::from_str\<close> on a text of digits and points, the only texts the scanner passes to it.\<close>

definition parse_f32 :: "bytes \<Rightarrow> (unit, f32) res" where
  "parse_f32 s =
     (case split_at_byte (CHR ''.'') s of
        [a] \<Rightarrow> if a = [] then Err () else Ok (f32_of_ratio (digits_value a) 1)
      | [a, b] \<Rightarrow>
          if a = [] \<and> b = [] then Err ()
          else Ok (f32_of_ratio (digits_value (a @ b)) (10 ^ length b))
      | _ \<Rightarrow> Err ())"

definition scan_f32 :: "scanner \<Rightarrow> f32 scan_result \<times> scanner" where
  "scan_f32 s =
     (case scan_number_str True s of (ds, s') \<Rightarrow>
        (map_err (\<lambda>_. scan_error InvalidNumber s') (parse_f32 ds), s'))"

section \<open>Printing\<close>

text \<open>\<open>num / den\<close> is at least \<open>10 ^ - k\<close>, for the least such \<open>k\<close> up to the fuel (46 is enough
  for the smallest subnormal).\<close>

fun neg_exp10 :: "nat \<Rightarrow> nat \<Rightarrow> nat \<Rightarrow> nat \<Rightarrow> nat" where
  "neg_exp10 0 k num den = k"
| "neg_exp10 (Suc fuel) k num den = (if den \<le> num then k else neg_exp10 fuel (k + 1) (num * 10) den)"

text \<open>The candidate with \<open>n\<close> significant digits: its digits and the number of digits after the
  point (negative: zeros before it).\<close>

definition round_trips :: "f32 \<Rightarrow> nat \<Rightarrow> int \<Rightarrow> bool" where
  "round_trips v c k =
     ((if 0 \<le> k then f32_of_ratio c (10 ^ nat k) else f32_of_ratio (c * 10 ^ nat (- k)) 1) = v)"

definition candidate :: "f32 \<Rightarrow> nat \<Rightarrow> nat \<Rightarrow> int \<Rightarrow> nat option" where
  "candidate v num den k =
     (let n = (if 0 \<le> k then num * 10 ^ nat k else num);
          d = (if 0 \<le> k then den else den * 10 ^ nat (- k));
          lo = n div d; r = n mod d;
          up = round_trips v (lo + 1) k; down = round_trips v lo k
      in if r = 0 then (if down then Some lo else None)
         else if up \<and> (\<not> down \<or> d \<le> 2 * r) then Some (lo + 1)
         else if down then Some lo
         else None)"

fun shortest :: "nat \<Rightarrow> f32 \<Rightarrow> nat \<Rightarrow> nat \<Rightarrow> int \<Rightarrow> nat \<times> int" where
  "shortest 0 v num den k = (num div den, 0)"
| "shortest (Suc fuel) v num den k =
     (case candidate v num den k of Some c \<Rightarrow> (c, k) | None \<Rightarrow> shortest fuel v num den (k + 1))"

definition show_decimal :: "nat \<Rightarrow> int \<Rightarrow> bytes" where
  "show_decimal c k =
     (if k \<le> 0 then show_nat (c * 10 ^ nat (- k))
      else let frac = show_nat (c mod 10 ^ nat k)
           in show_nat (c div 10 ^ nat k) @ ''.'' @ replicate (nat k - length frac) (CHR ''0'') @ frac)"

definition show_f32 :: "f32 \<Rightarrow> bytes" where
  "show_f32 v =
     (case v of
        Inf \<Rightarrow> ''inf''
      | Fin m e \<Rightarrow>
          if m = 0 then ''0''
          else
            let num = m * 2 ^ e; den = 2 ^ 149;
                p = (if den \<le> num then int (length (show_nat (num div den))) - 1
                     else - int (neg_exp10 46 0 num den))
            in (case shortest 17 v num den (- p) of (c, k) \<Rightarrow>
                  if 0 < k \<and> c mod 10 = 0 then show_decimal (c div 10) (k - 1) else show_decimal c k))"

lemma parse_f32_neq [simp]: "parse_f32 s \<noteq> Panic" "parse_f32 s \<noteq> OutOfFuel"
  by (auto simp: parse_f32_def split: list.split)

end
