(* ===== verification/Sip_Headers.thy ===== *)
theory Sip_Headers
  imports Auth F32
begin

text \<open>
  The header fields of \<open>rssip/src/message/headers/\<close>: the data of each and its parser. A header
  that wraps a single value is that value; the constructors of \<open>Header\<close> carry the prefix \<open>H_\<close>.
\<close>

section \<open>Shared shapes\<close>

text \<open>The bytes up to a stop byte, which is skipped and must be there, as UTF-8.\<close>

definition until_utf8 :: "byte \<Rightarrow> bytes parser" where
  "until_utf8 c =
     bindP (take_until c) (\<lambda>b.
     thenP advance
       (utf8P b))"

text \<open>The block of the headers that pick one parameter out of the list.\<close>

definition tag_step :: "bytes option \<Rightarrow> (bytes option \<times> param option) parser" where
  "tag_step tag =
     bindP p_param_ref (\<lambda>(pname, pvalue).
       if pname = ''tag'' then retP (pvalue, None)
       else retP (tag, Some (param_of_ref (pname, pvalue))))"

definition q_step :: "qvalue option \<Rightarrow> (qvalue option \<times> param option) parser" where
  "q_step q =
     bindP p_param_ref (\<lambda>(pname, pvalue).
       if pname = ''q'' then
         bindP (resP (map_err error_of_q (transpose (map_option parse_q pvalue)))) (\<lambda>v. retP (v, None))
       else retP (q, Some (param_of_ref (pname, pvalue))))"

section \<open>Accept, Accept-Encoding, Accept-Language\<close>

type_synonym accept = "media_type list"

definition parse_accept :: "accept parser" where
  "parse_accept = collect_comma parse_media_type"

record coding =
  cd_coding :: bytes
  cd_q :: "qvalue option"
  cd_params :: params

definition parse_coding :: "coding parser" where
  "parse_coding =
     bindP token (\<lambda>c.
     bindP (parse_params_with q_step None) (\<lambda>(q, ps).
       retP \<lparr>cd_coding = c, cd_q = q, cd_params = ps\<rparr>))"

definition parse_accept_encoding :: "coding list parser" where
  "parse_accept_encoding = collect_comma parse_coding"

record language =
  lg_tag :: bytes
  lg_q :: "qvalue option"
  lg_params :: params

definition is_lang :: "byte \<Rightarrow> bool" where
  "is_lang b \<longleftrightarrow> is_ascii_alphabetic b \<or> b = CHR ''*'' \<or> b = CHR ''-''"

definition parse_language_tag :: "bytes parser" where
  "parse_language_tag = read_while_unchecked is_lang"

definition parse_language :: "language parser" where
  "parse_language =
     bindP parse_language_tag (\<lambda>t.
     bindP (parse_params_with q_step None) (\<lambda>(q, ps).
       retP \<lparr>lg_tag = t, lg_q = q, lg_params = ps\<rparr>))"

definition parse_accept_language :: "language list parser" where
  "parse_accept_language = collect_comma parse_language"

section \<open>Alert-Info, Call-Info, Error-Info\<close>

record alert_info =
  ai_url :: bytes
  ai_params :: params

definition parse_alert_info :: "alert_info parser" where
  "parse_alert_info =
     thenP skip_ws
     (thenP (must_readP (CHR ''<''))
     (bindP (until_utf8 (CHR ''>'')) (\<lambda>url.
      bindP parse_params (\<lambda>ps.
        retP \<lparr>ai_url = url, ai_params = ps\<rparr>))))"

record call_info =
  ci_url :: bytes
  ci_purpose :: "bytes option"
  ci_params :: params

definition purpose_step :: "bytes option \<Rightarrow> (bytes option \<times> param option) parser" where
  "purpose_step purpose =
     bindP p_param_ref (\<lambda>(pname, pvalue).
       if pname = ''purpose'' then retP (pvalue, None)
       else retP (purpose, Some (param_of_ref (pname, pvalue))))"

definition parse_call_info :: "call_info parser" where
  "parse_call_info =
     thenP (must_readP (CHR ''<''))
     (bindP (until_utf8 (CHR ''>'')) (\<lambda>url.
      bindP (parse_params_with purpose_step None) (\<lambda>(purpose, ps).
        retP \<lparr>ci_url = url, ci_purpose = purpose, ci_params = ps\<rparr>)))"

record error_info_uri =
  ei_url :: bytes
  ei_params :: params

definition parse_error_info_uri :: "error_info_uri parser" where
  "parse_error_info_uri =
     thenP (must_readP (CHR ''<''))
     (bindP (until_utf8 (CHR ''>'')) (\<lambda>url.
      bindP parse_params (\<lambda>ps.
        retP \<lparr>ei_url = url, ei_params = ps\<rparr>)))"

definition parse_error_info :: "error_info_uri list parser" where
  "parse_error_info = collect_comma parse_error_info_uri"

section \<open>Allow, CSeq\<close>

definition parse_allow :: "sip_method list parser" where
  "parse_allow = collect_comma (bindP take_alphabetic (\<lambda>m. retP (method_of_bytes m)))"

record cseq =
  cs_cseq :: u32
  cs_method :: sip_method

definition parse_cseq :: "cseq parser" where
  "parse_cseq =
     bindP p_parse_u32 (\<lambda>n.
     thenP skip_ws
     (bindP take_alphabetic (\<lambda>m.
        retP \<lparr>cs_cseq = n, cs_method = method_of_bytes m\<rparr>)))"

definition cseq_of_str :: "bytes \<Rightarrow> (error, cseq) res" where
  "cseq_of_str s = fst (parse_cseq (scanner_new s))"

section \<open>Authentication headers\<close>

record authentication_info =
  an_nextnonce :: "bytes option"
  an_qop :: "bytes option"
  an_rspauth :: "bytes option"
  an_cnonce :: "bytes option"
  an_nc :: "bytes option"

definition set_auth_info_param :: "bytes \<Rightarrow> bytes option \<Rightarrow> authentication_info \<Rightarrow> authentication_info" where
  "set_auth_info_param name value d =
    (if name = ''nextnonce'' then d\<lparr>an_nextnonce := value\<rparr>
     else if name = ''qop'' then d\<lparr>an_qop := value\<rparr>
     else if name = ''rspauth'' then d\<lparr>an_rspauth := value\<rparr>
     else if name = ''cnonce'' then d\<lparr>an_cnonce := value\<rparr>
     else if name = ''nc'' then d\<lparr>an_nc := value\<rparr>
     else d)"

definition parse_authentication_info :: "authentication_info parser" where
  "parse_authentication_info =
     loopP (digest_body set_auth_info_param)
       \<lparr>an_nextnonce = None, an_qop = None, an_rspauth = None, an_cnonce = None, an_nc = None\<rparr>"

definition parse_authorization :: "credential parser" where
  "parse_authorization = parse_auth_credential"

definition parse_proxy_authenticate :: "challenge parser" where
  "parse_proxy_authenticate = parse_auth_challenge"

definition parse_proxy_authorization :: "credential parser" where
  "parse_proxy_authorization = parse_auth_credential"

definition parse_www_authenticate :: "challenge parser" where
  "parse_www_authenticate = parse_auth_challenge"

section \<open>Headers that are the rest of the line\<close>

definition parse_call_id :: "bytes parser" where
  "parse_call_id = read_line"

definition call_id_of_str :: "bytes \<Rightarrow> (error, bytes) res" where
  "call_id_of_str s = fst (parse_call_id (scanner_new s))"

definition parse_date :: "bytes parser" where
  "parse_date = read_line"

definition parse_organization :: "bytes parser" where
  "parse_organization = read_line"

definition parse_server :: "bytes parser" where
  "parse_server = read_line"

definition parse_subject :: "bytes parser" where
  "parse_subject = read_line"

definition parse_user_agent :: "bytes parser" where
  "parse_user_agent = read_line"

section \<open>Headers that are a number\<close>

definition parse_content_length :: "u32 parser" where
  "parse_content_length = p_parse_u32"

definition parse_expires :: "u32 parser" where
  "parse_expires = p_parse_u32"

definition parse_max_forwards :: "u32 parser" where
  "parse_max_forwards = p_parse_u32"

definition parse_min_expires :: "u32 parser" where
  "parse_min_expires = p_parse_u32"

section \<open>Headers that are a list of tokens\<close>

definition parse_content_encoding :: "bytes list parser" where
  "parse_content_encoding = collect_comma token"

definition parse_content_language :: "bytes list parser" where
  "parse_content_language = collect_comma parse_language_tag"

definition parse_proxy_require :: "bytes list parser" where
  "parse_proxy_require = collect_comma token"

definition parse_require :: "bytes list parser" where
  "parse_require = collect_comma token"

definition parse_supported :: "bytes list parser" where
  "parse_supported = collect_comma token"

definition parse_unsupported :: "bytes list parser" where
  "parse_unsupported = collect_comma token"

definition parse_priority :: "bytes parser" where
  "parse_priority = token"

definition parse_in_reply_to :: "bytes list parser" where
  "parse_in_reply_to =
     collect_comma (bindP (scan_whileP (\<lambda>b. \<not> is_newline b \<and> b \<noteq> CHR '','')) utf8P)"

section \<open>Contact, From, To, Reply-To, Route, Record-Route\<close>

record contact =
  ct_uri :: sip_uri
  ct_q :: "qvalue option"
  ct_expires :: "u32 option"
  ct_param :: params

definition contact_step ::
  "qvalue option \<times> u32 option \<Rightarrow> ((qvalue option \<times> u32 option) \<times> param option) parser" where
  "contact_step z =
     bindP p_param_ref (\<lambda>(pname, pvalue).
       if pname = ''q'' then
         bindP (resP (map_err error_of_q (transpose (map_option parse_q pvalue)))) (\<lambda>v.
           retP ((v, snd z), None))
       else if pname = ''expires'' then
         bindP (or_elseP (resP (transpose (map_option parse_u32 pvalue))) (errP K_Param)) (\<lambda>v.
           retP ((fst z, v), None))
       else retP (z, Some (param_of_ref (pname, pvalue))))"

definition parse_contact :: "contact parser" where
  "parse_contact =
     bindP (parse_sip_uri False) (\<lambda>u.
     bindP (parse_params_with contact_step (None, None)) (\<lambda>(z, ps).
       retP \<lparr>ct_uri = u, ct_q = fst z, ct_expires = snd z, ct_param = ps\<rparr>))"

definition contact_of_str :: "bytes \<Rightarrow> (error, contact) res" where
  "contact_of_str s = fst (parse_contact (scanner_new s))"

record from_header =
  fr_uri :: sip_uri
  fr_tag :: "bytes option"
  fr_params :: params

definition parse_from :: "from_header parser" where
  "parse_from =
     bindP (parse_sip_uri False) (\<lambda>u.
     bindP (parse_params_with tag_step None) (\<lambda>(tag, ps).
       retP \<lparr>fr_uri = u, fr_tag = tag, fr_params = ps\<rparr>))"

definition from_of_str :: "bytes \<Rightarrow> (error, from_header) res" where
  "from_of_str s = fst (parse_from (scanner_new s))"

record to_header =
  to_uri :: sip_uri
  to_tag :: "bytes option"
  to_params :: params

definition set_tag :: "bytes option \<Rightarrow> to_header \<Rightarrow> to_header" where
  "set_tag t h = h\<lparr>to_tag := t\<rparr>"

definition parse_to :: "to_header parser" where
  "parse_to =
     bindP (parse_sip_uri False) (\<lambda>u.
     bindP (parse_params_with tag_step None) (\<lambda>(tag, ps).
       retP \<lparr>to_uri = u, to_tag = tag, to_params = ps\<rparr>))"

definition to_of_str :: "bytes \<Rightarrow> (error, to_header) res" where
  "to_of_str s = fst (parse_to (scanner_new s))"

record reply_to =
  rp_uri :: sip_uri
  rp_param :: params

definition parse_reply_to :: "reply_to parser" where
  "parse_reply_to =
     bindP (parse_sip_uri False) (\<lambda>u.
     bindP parse_params (\<lambda>ps.
       retP \<lparr>rp_uri = u, rp_param = ps\<rparr>))"

record route =
  rt_name_addr :: name_addr
  rt_params :: params

definition parse_route :: "route parser" where
  "parse_route =
     bindP parse_name_addr (\<lambda>a.
     bindP parse_params (\<lambda>ps.
       retP \<lparr>rt_name_addr = a, rt_params = ps\<rparr>))"

record record_route =
  rr_addr :: name_addr
  rr_params :: params

definition parse_record_route :: "record_route parser" where
  "parse_record_route =
     bindP parse_name_addr (\<lambda>a.
     bindP parse_params (\<lambda>ps.
       retP \<lparr>rr_addr = a, rr_params = ps\<rparr>))"

section \<open>Content-Disposition, Content-Type, MIME-Version\<close>

record content_disposition =
  cdp_type :: bytes
  cdp_params :: params

definition parse_content_disposition :: "content_disposition parser" where
  "parse_content_disposition =
     bindP token (\<lambda>t.
     bindP parse_params (\<lambda>ps.
       retP \<lparr>cdp_type = t, cdp_params = ps\<rparr>))"

definition parse_content_type :: "media_type parser" where
  "parse_content_type = parse_media_type"

definition content_type_new_sdp :: media_type where
  "content_type_new_sdp = media_type_new ''application'' ''sdp''"

record mime_version =
  mv_major :: u8
  mv_minor :: u8

text \<open>\<open>advance()? - b'0'\<close>: the subtraction on \<open>u8\<close> overflows below \<open>'0'\<close>.\<close>

definition minus_zero :: "byte \<Rightarrow> u8 parser" where
  "minus_zero b = (if byte_val b < 48 then panicP else retP (of_nat (byte_val b - 48)))"

definition parse_mime_version :: "mime_version parser" where
  "parse_mime_version =
     bindP (bindP advance minus_zero) (\<lambda>major.
     thenP (must_readP (CHR ''.''))
     (bindP (bindP advance minus_zero) (\<lambda>minor.
        retP \<lparr>mv_major = major, mv_minor = minor\<rparr>)))"

section \<open>Retry-After, Timestamp, Warning\<close>

record retry_after =
  ra_seconds :: u32
  ra_param :: params
  ra_comment :: "bytes option"

definition parse_retry_after :: "retry_after parser" where
  "parse_retry_after =
     bindP p_parse_u32 (\<lambda>n.
     thenP skip_ws
     (bindP (askP peek) (\<lambda>b.
      bindP (if b = Some (CHR ''('') then
               thenP advance (bindP (until_utf8 (CHR '')'')) (\<lambda>c. retP (Some c)))
             else retP None) (\<lambda>comment.
      bindP parse_params (\<lambda>ps.
        retP \<lparr>ra_seconds = n, ra_param = ps, ra_comment = comment\<rparr>)))))"

record timestamp =
  ts_time :: f32
  ts_delay :: "f32 option"

definition p_parse_f32 :: "f32 parser" where
  "p_parse_f32 = scanP scan_f32"

definition parse_timestamp :: "timestamp parser" where
  "parse_timestamp =
     bindP p_parse_f32 (\<lambda>t.
     thenP skip_ws
     (bindP (askP peek) (\<lambda>b.
      bindP (if (case b of Some c \<Rightarrow> is_ascii_digit c | None \<Rightarrow> False)
             then bindP p_parse_f32 (\<lambda>d. retP (Some d)) else retP None) (\<lambda>delay.
        retP \<lparr>ts_time = t, ts_delay = delay\<rparr>))))"

record warning =
  w_code :: u32
  w_host :: bytes
  w_text :: bytes

definition parse_warning :: "warning parser" where
  "parse_warning =
     bindP p_parse_u32 (\<lambda>code.
     thenP skip_ws
     (bindP read_host (\<lambda>host.
      thenP skip_ws
      (thenP (must_readP quote)
      (bindP (until_utf8 quote) (\<lambda>text.
         retP \<lparr>w_code = code, w_host = host, w_text = text\<rparr>))))))"

record raw_header =
  rh_name :: bytes
  rh_data :: bytes

end
