(* ===== verification/Status_Code.thy ===== *)
theory Status_Code
  imports Sip_Error
begin

text \<open>
  \<open>StatusCode\<close> of \<open>rssip/src/message/status_code.rs\<close>: the enumeration, its number, its two
  parsers (from a number, from the digits of a status line), its reason texts and the
  provisional/final split. The constructors carry the prefix \<open>SC_\<close>, because \<open>Ok\<close> is also the
  constructor of results.
\<close>

section \<open>The enumeration\<close>

datatype (plugins only: code) status_code =
    SC_Trying
  | SC_Ringing
  | SC_CallIsBeingForwarded
  | SC_Queued
  | SC_SessionProgress
  | SC_EarlyDialogTerminated
  | SC_Ok
  | SC_Accepted
  | SC_NoNotification
  | SC_MultipleChoices
  | SC_MovedPermanently
  | SC_MovedTemporarily
  | SC_UseProxy
  | SC_AlternativeService
  | SC_BadRequest
  | SC_Unauthorized
  | SC_PaymentRequired
  | SC_Forbidden
  | SC_NotFound
  | SC_MethodNotAllowed
  | SC_NotAcceptable
  | SC_ProxyAuthenticationRequired
  | SC_RequestTimeout
  | SC_Conflict
  | SC_Gone
  | SC_LengthRequired
  | SC_ConditionalRequestFailed
  | SC_RequestEntityTooLarge
  | SC_RequestUriTooLong
  | SC_UnsupportedMediaType
  | SC_UnsupportedUriScheme
  | SC_UnknownResourcePriority
  | SC_BadExtension
  | SC_ExtensionRequired
  | SC_SessionIntervalTooSmall
  | SC_IntervalTooBrief
  | SC_BadLocationInformation
  | SC_UseIdentityHeader
  | SC_ProvideReferrerIdentity
  | SC_FlowFailed
  | SC_AnonymityDisallowed
  | SC_BadIdentityInfo
  | SC_UnsupportedCertificate
  | SC_InvalidIdentityHeader
  | SC_FirstHopLacksOutboundSupport
  | SC_MaxBreadthExceeded
  | SC_BadInfoPackage
  | SC_ConsentNeeded
  | SC_TemporarilyUnavailable
  | SC_CallOrTransactionDoesNotExist
  | SC_LoopDetected
  | SC_TooManyHops
  | SC_AddressIncomplete
  | SC_Ambiguous
  | SC_BusyHere
  | SC_RequestTerminated
  | SC_NotAcceptableHere
  | SC_BadEvent
  | SC_RequestUpdated
  | SC_RequestPending
  | SC_Undecipherable
  | SC_SecurityAgreementRequired
  | SC_ServerInternalError
  | SC_NotImplemented
  | SC_BadGateway
  | SC_ServiceUnavailable
  | SC_ServerTimeout
  | SC_VersionNotSupported
  | SC_MessageTooLarge
  | SC_PushNotificationServiceNotSupported
  | SC_PreconditionFailure
  | SC_BusyEverywhere
  | SC_Decline
  | SC_DoesNotExistAnywhere
  | SC_NotAcceptableAnywhere
  | SC_Unwanted
  | SC_Rejected

primrec as_u16 :: "status_code \<Rightarrow> u16" where
  "as_u16 SC_Trying = 100"
| "as_u16 SC_Ringing = 180"
| "as_u16 SC_CallIsBeingForwarded = 181"
| "as_u16 SC_Queued = 182"
| "as_u16 SC_SessionProgress = 183"
| "as_u16 SC_EarlyDialogTerminated = 199"
| "as_u16 SC_Ok = 200"
| "as_u16 SC_Accepted = 202"
| "as_u16 SC_NoNotification = 204"
| "as_u16 SC_MultipleChoices = 300"
| "as_u16 SC_MovedPermanently = 301"
| "as_u16 SC_MovedTemporarily = 302"
| "as_u16 SC_UseProxy = 305"
| "as_u16 SC_AlternativeService = 380"
| "as_u16 SC_BadRequest = 400"
| "as_u16 SC_Unauthorized = 401"
| "as_u16 SC_PaymentRequired = 402"
| "as_u16 SC_Forbidden = 403"
| "as_u16 SC_NotFound = 404"
| "as_u16 SC_MethodNotAllowed = 405"
| "as_u16 SC_NotAcceptable = 406"
| "as_u16 SC_ProxyAuthenticationRequired = 407"
| "as_u16 SC_RequestTimeout = 408"
| "as_u16 SC_Conflict = 409"
| "as_u16 SC_Gone = 410"
| "as_u16 SC_LengthRequired = 411"
| "as_u16 SC_ConditionalRequestFailed = 412"
| "as_u16 SC_RequestEntityTooLarge = 413"
| "as_u16 SC_RequestUriTooLong = 414"
| "as_u16 SC_UnsupportedMediaType = 415"
| "as_u16 SC_UnsupportedUriScheme = 416"
| "as_u16 SC_UnknownResourcePriority = 417"
| "as_u16 SC_BadExtension = 420"
| "as_u16 SC_ExtensionRequired = 421"
| "as_u16 SC_SessionIntervalTooSmall = 422"
| "as_u16 SC_IntervalTooBrief = 423"
| "as_u16 SC_BadLocationInformation = 424"
| "as_u16 SC_UseIdentityHeader = 428"
| "as_u16 SC_ProvideReferrerIdentity = 429"
| "as_u16 SC_FlowFailed = 430"
| "as_u16 SC_AnonymityDisallowed = 433"
| "as_u16 SC_BadIdentityInfo = 436"
| "as_u16 SC_UnsupportedCertificate = 437"
| "as_u16 SC_InvalidIdentityHeader = 438"
| "as_u16 SC_FirstHopLacksOutboundSupport = 439"
| "as_u16 SC_MaxBreadthExceeded = 440"
| "as_u16 SC_BadInfoPackage = 469"
| "as_u16 SC_ConsentNeeded = 470"
| "as_u16 SC_TemporarilyUnavailable = 480"
| "as_u16 SC_CallOrTransactionDoesNotExist = 481"
| "as_u16 SC_LoopDetected = 482"
| "as_u16 SC_TooManyHops = 483"
| "as_u16 SC_AddressIncomplete = 484"
| "as_u16 SC_Ambiguous = 485"
| "as_u16 SC_BusyHere = 486"
| "as_u16 SC_RequestTerminated = 487"
| "as_u16 SC_NotAcceptableHere = 488"
| "as_u16 SC_BadEvent = 489"
| "as_u16 SC_RequestUpdated = 490"
| "as_u16 SC_RequestPending = 491"
| "as_u16 SC_Undecipherable = 493"
| "as_u16 SC_SecurityAgreementRequired = 494"
| "as_u16 SC_ServerInternalError = 500"
| "as_u16 SC_NotImplemented = 501"
| "as_u16 SC_BadGateway = 502"
| "as_u16 SC_ServiceUnavailable = 503"
| "as_u16 SC_ServerTimeout = 504"
| "as_u16 SC_VersionNotSupported = 505"
| "as_u16 SC_MessageTooLarge = 513"
| "as_u16 SC_PushNotificationServiceNotSupported = 555"
| "as_u16 SC_PreconditionFailure = 580"
| "as_u16 SC_BusyEverywhere = 600"
| "as_u16 SC_Decline = 603"
| "as_u16 SC_DoesNotExistAnywhere = 604"
| "as_u16 SC_NotAcceptableAnywhere = 606"
| "as_u16 SC_Unwanted = 607"
| "as_u16 SC_Rejected = 608"

definition from_u16 :: "u16 \<Rightarrow> status_code option" where
  "from_u16 input =
    (if input = 100 then Some SC_Trying
     else if input = 180 then Some SC_Ringing
     else if input = 181 then Some SC_CallIsBeingForwarded
     else if input = 182 then Some SC_Queued
     else if input = 183 then Some SC_SessionProgress
     else if input = 199 then Some SC_EarlyDialogTerminated
     else if input = 200 then Some SC_Ok
     else if input = 202 then Some SC_Accepted
     else if input = 204 then Some SC_NoNotification
     else if input = 300 then Some SC_MultipleChoices
     else if input = 301 then Some SC_MovedPermanently
     else if input = 302 then Some SC_MovedTemporarily
     else if input = 305 then Some SC_UseProxy
     else if input = 380 then Some SC_AlternativeService
     else if input = 400 then Some SC_BadRequest
     else if input = 401 then Some SC_Unauthorized
     else if input = 402 then Some SC_PaymentRequired
     else if input = 403 then Some SC_Forbidden
     else if input = 404 then Some SC_NotFound
     else if input = 405 then Some SC_MethodNotAllowed
     else if input = 406 then Some SC_NotAcceptable
     else if input = 407 then Some SC_ProxyAuthenticationRequired
     else if input = 408 then Some SC_RequestTimeout
     else if input = 409 then Some SC_Conflict
     else if input = 410 then Some SC_Gone
     else if input = 411 then Some SC_LengthRequired
     else if input = 412 then Some SC_ConditionalRequestFailed
     else if input = 413 then Some SC_RequestEntityTooLarge
     else if input = 414 then Some SC_RequestUriTooLong
     else if input = 415 then Some SC_UnsupportedMediaType
     else if input = 416 then Some SC_UnsupportedUriScheme
     else if input = 417 then Some SC_UnknownResourcePriority
     else if input = 420 then Some SC_BadExtension
     else if input = 421 then Some SC_ExtensionRequired
     else if input = 422 then Some SC_SessionIntervalTooSmall
     else if input = 423 then Some SC_IntervalTooBrief
     else if input = 424 then Some SC_BadLocationInformation
     else if input = 428 then Some SC_UseIdentityHeader
     else if input = 429 then Some SC_ProvideReferrerIdentity
     else if input = 430 then Some SC_FlowFailed
     else if input = 433 then Some SC_AnonymityDisallowed
     else if input = 436 then Some SC_BadIdentityInfo
     else if input = 437 then Some SC_UnsupportedCertificate
     else if input = 438 then Some SC_InvalidIdentityHeader
     else if input = 439 then Some SC_FirstHopLacksOutboundSupport
     else if input = 440 then Some SC_MaxBreadthExceeded
     else if input = 469 then Some SC_BadInfoPackage
     else if input = 470 then Some SC_ConsentNeeded
     else if input = 480 then Some SC_TemporarilyUnavailable
     else if input = 481 then Some SC_CallOrTransactionDoesNotExist
     else if input = 482 then Some SC_LoopDetected
     else if input = 483 then Some SC_TooManyHops
     else if input = 484 then Some SC_AddressIncomplete
     else if input = 485 then Some SC_Ambiguous
     else if input = 486 then Some SC_BusyHere
     else if input = 487 then Some SC_RequestTerminated
     else if input = 488 then Some SC_NotAcceptableHere
     else if input = 489 then Some SC_BadEvent
     else if input = 490 then Some SC_RequestUpdated
     else if input = 491 then Some SC_RequestPending
     else if input = 493 then Some SC_Undecipherable
     else if input = 494 then Some SC_SecurityAgreementRequired
     else if input = 500 then Some SC_ServerInternalError
     else if input = 501 then Some SC_NotImplemented
     else if input = 502 then Some SC_BadGateway
     else if input = 503 then Some SC_ServiceUnavailable
     else if input = 504 then Some SC_ServerTimeout
     else if input = 505 then Some SC_VersionNotSupported
     else if input = 513 then Some SC_MessageTooLarge
     else if input = 555 then Some SC_PushNotificationServiceNotSupported
     else if input = 580 then Some SC_PreconditionFailure
     else if input = 600 then Some SC_BusyEverywhere
     else if input = 603 then Some SC_Decline
     else if input = 604 then Some SC_DoesNotExistAnywhere
     else if input = 606 then Some SC_NotAcceptableAnywhere
     else if input = 607 then Some SC_Unwanted
     else if input = 608 then Some SC_Rejected
     else None)"

definition status_of_bytes :: "bytes \<Rightarrow> (error, status_code) res" where
  "status_of_bytes code =
    (if code = ''100'' then Ok SC_Trying
     else if code = ''180'' then Ok SC_Ringing
     else if code = ''181'' then Ok SC_CallIsBeingForwarded
     else if code = ''182'' then Ok SC_Queued
     else if code = ''183'' then Ok SC_SessionProgress
     else if code = ''199'' then Ok SC_EarlyDialogTerminated
     else if code = ''200'' then Ok SC_Ok
     else if code = ''202'' then Ok SC_Accepted
     else if code = ''204'' then Ok SC_NoNotification
     else if code = ''300'' then Ok SC_MultipleChoices
     else if code = ''301'' then Ok SC_MovedPermanently
     else if code = ''302'' then Ok SC_MovedTemporarily
     else if code = ''305'' then Ok SC_UseProxy
     else if code = ''380'' then Ok SC_AlternativeService
     else if code = ''400'' then Ok SC_BadRequest
     else if code = ''401'' then Ok SC_Unauthorized
     else if code = ''402'' then Ok SC_PaymentRequired
     else if code = ''403'' then Ok SC_Forbidden
     else if code = ''404'' then Ok SC_NotFound
     else if code = ''405'' then Ok SC_MethodNotAllowed
     else if code = ''406'' then Ok SC_NotAcceptable
     else if code = ''407'' then Ok SC_ProxyAuthenticationRequired
     else if code = ''408'' then Ok SC_RequestTimeout
     else if code = ''409'' then Ok SC_Conflict
     else if code = ''410'' then Ok SC_Gone
     else if code = ''411'' then Ok SC_LengthRequired
     else if code = ''412'' then Ok SC_ConditionalRequestFailed
     else if code = ''413'' then Ok SC_RequestEntityTooLarge
     else if code = ''414'' then Ok SC_RequestUriTooLong
     else if code = ''415'' then Ok SC_UnsupportedMediaType
     else if code = ''416'' then Ok SC_UnsupportedUriScheme
     else if code = ''417'' then Ok SC_UnknownResourcePriority
     else if code = ''420'' then Ok SC_BadExtension
     else if code = ''421'' then Ok SC_ExtensionRequired
     else if code = ''422'' then Ok SC_SessionIntervalTooSmall
     else if code = ''423'' then Ok SC_IntervalTooBrief
     else if code = ''424'' then Ok SC_BadLocationInformation
     else if code = ''428'' then Ok SC_UseIdentityHeader
     else if code = ''429'' then Ok SC_ProvideReferrerIdentity
     else if code = ''430'' then Ok SC_FlowFailed
     else if code = ''433'' then Ok SC_AnonymityDisallowed
     else if code = ''436'' then Ok SC_BadIdentityInfo
     else if code = ''437'' then Ok SC_UnsupportedCertificate
     else if code = ''438'' then Ok SC_InvalidIdentityHeader
     else if code = ''439'' then Ok SC_FirstHopLacksOutboundSupport
     else if code = ''440'' then Ok SC_MaxBreadthExceeded
     else if code = ''469'' then Ok SC_BadInfoPackage
     else if code = ''470'' then Ok SC_ConsentNeeded
     else if code = ''480'' then Ok SC_TemporarilyUnavailable
     else if code = ''481'' then Ok SC_CallOrTransactionDoesNotExist
     else if code = ''482'' then Ok SC_LoopDetected
     else if code = ''483'' then Ok SC_TooManyHops
     else if code = ''484'' then Ok SC_AddressIncomplete
     else if code = ''485'' then Ok SC_Ambiguous
     else if code = ''486'' then Ok SC_BusyHere
     else if code = ''487'' then Ok SC_RequestTerminated
     else if code = ''488'' then Ok SC_NotAcceptableHere
     else if code = ''489'' then Ok SC_BadEvent
     else if code = ''490'' then Ok SC_RequestUpdated
     else if code = ''491'' then Ok SC_RequestPending
     else if code = ''493'' then Ok SC_Undecipherable
     else if code = ''494'' then Ok SC_SecurityAgreementRequired
     else if code = ''500'' then Ok SC_ServerInternalError
     else if code = ''501'' then Ok SC_NotImplemented
     else if code = ''502'' then Ok SC_BadGateway
     else if code = ''503'' then Ok SC_ServiceUnavailable
     else if code = ''504'' then Ok SC_ServerTimeout
     else if code = ''505'' then Ok SC_VersionNotSupported
     else if code = ''513'' then Ok SC_MessageTooLarge
     else if code = ''555'' then Ok SC_PushNotificationServiceNotSupported
     else if code = ''580'' then Ok SC_PreconditionFailure
     else if code = ''600'' then Ok SC_BusyEverywhere
     else if code = ''603'' then Ok SC_Decline
     else if code = ''604'' then Ok SC_DoesNotExistAnywhere
     else if code = ''606'' then Ok SC_NotAcceptableAnywhere
     else if code = ''607'' then Ok SC_Unwanted
     else if code = ''608'' then Ok SC_Rejected
     else Err E_InvalidStatusCode)"

definition status_of_u16 :: "u16 \<Rightarrow> (error, status_code) res" where
  "status_of_u16 code = ok_or (from_u16 code) E_InvalidStatusCode"

primrec reason :: "status_code \<Rightarrow> bytes" where
  "reason SC_Trying = ''Trying''"
| "reason SC_Ringing = ''Ringing''"
| "reason SC_CallIsBeingForwarded = ''Call Is Being Forwarded''"
| "reason SC_Queued = ''Queued''"
| "reason SC_SessionProgress = ''InviteSession Progress''"
| "reason SC_EarlyDialogTerminated = ''Early Dialog Terminated''"
| "reason SC_Ok = ''OK''"
| "reason SC_Accepted = ''Accepted''"
| "reason SC_NoNotification = ''No Notification''"
| "reason SC_MultipleChoices = ''Multiple Choices''"
| "reason SC_MovedPermanently = ''Moved Permanently''"
| "reason SC_MovedTemporarily = ''Moved Temporarily''"
| "reason SC_UseProxy = ''Use Proxy''"
| "reason SC_AlternativeService = ''Alternative Service''"
| "reason SC_BadRequest = ''Bad Request''"
| "reason SC_Unauthorized = ''Unauthorized''"
| "reason SC_PaymentRequired = ''Payment Required''"
| "reason SC_Forbidden = ''Forbidden''"
| "reason SC_NotFound = ''Not Found''"
| "reason SC_MethodNotAllowed = ''Method Not Allowed''"
| "reason SC_NotAcceptable = ''Not Acceptable''"
| "reason SC_ProxyAuthenticationRequired = ''Proxy Authentication Required''"
| "reason SC_RequestTimeout = ''Request Timeout''"
| "reason SC_Conflict = ''Conflict''"
| "reason SC_Gone = ''Gone''"
| "reason SC_LengthRequired = ''Length Required''"
| "reason SC_ConditionalRequestFailed = ''Conditional Request Failed''"
| "reason SC_RequestEntityTooLarge = ''Request Entity Too Large''"
| "reason SC_RequestUriTooLong = ''Request URI Too Long''"
| "reason SC_UnsupportedMediaType = ''Unsupported Media Type''"
| "reason SC_UnsupportedUriScheme = ''Unsupported URI Scheme''"
| "reason SC_UnknownResourcePriority = ''Unknown Resource Priority''"
| "reason SC_BadExtension = ''Bad Extension''"
| "reason SC_ExtensionRequired = ''Extension Required''"
| "reason SC_SessionIntervalTooSmall = ''InviteSession Interval Too Small''"
| "reason SC_IntervalTooBrief = ''Interval Too Brief''"
| "reason SC_BadLocationInformation = ''Bad Location Information''"
| "reason SC_UseIdentityHeader = ''Use Identity Header''"
| "reason SC_ProvideReferrerIdentity = ''Provide Referrer Identity''"
| "reason SC_FlowFailed = ''Flow Failed''"
| "reason SC_AnonymityDisallowed = ''Anonymity Disallowed''"
| "reason SC_BadIdentityInfo = ''Bad Identity Info''"
| "reason SC_UnsupportedCertificate = ''Unsupported Certificate''"
| "reason SC_InvalidIdentityHeader = ''Invalid Identity Header''"
| "reason SC_FirstHopLacksOutboundSupport = ''First Hop Lacks Outbound Support''"
| "reason SC_MaxBreadthExceeded = ''Max Breadth Exceeded''"
| "reason SC_BadInfoPackage = ''Bad Info Package''"
| "reason SC_ConsentNeeded = ''Consent Needed''"
| "reason SC_TemporarilyUnavailable = ''Temporarily Unavailable''"
| "reason SC_CallOrTransactionDoesNotExist = ''Call or Transaction Does Not Exist''"
| "reason SC_LoopDetected = ''Loop Detected''"
| "reason SC_TooManyHops = ''Too Many Hops''"
| "reason SC_AddressIncomplete = ''Address Incomplete''"
| "reason SC_Ambiguous = ''Ambiguous''"
| "reason SC_BusyHere = ''Busy Here''"
| "reason SC_RequestTerminated = ''Request Terminated''"
| "reason SC_NotAcceptableHere = ''Not Acceptable Here''"
| "reason SC_BadEvent = ''Bad Event''"
| "reason SC_RequestUpdated = ''Request Updated''"
| "reason SC_RequestPending = ''Request Pending''"
| "reason SC_Undecipherable = ''Undecipherable''"
| "reason SC_SecurityAgreementRequired = ''Security Agreement Required''"
| "reason SC_ServerInternalError = ''Server Internal Error''"
| "reason SC_NotImplemented = ''Not Implemented''"
| "reason SC_BadGateway = ''Bad Gateway''"
| "reason SC_ServiceUnavailable = ''Service Unavailable''"
| "reason SC_ServerTimeout = ''Server Timeout''"
| "reason SC_VersionNotSupported = ''Version Not Supported''"
| "reason SC_MessageTooLarge = ''Message Too Large''"
| "reason SC_PushNotificationServiceNotSupported = ''Push Notification Service Not Supported''"
| "reason SC_PreconditionFailure = ''Precondition Failure''"
| "reason SC_BusyEverywhere = ''Busy Everywhere''"
| "reason SC_Decline = ''Decline''"
| "reason SC_DoesNotExistAnywhere = ''Does Not Exist Anywhere''"
| "reason SC_NotAcceptableAnywhere = ''Not Acceptable Anywhere''"
| "reason SC_Unwanted = ''Unwanted''"
| "reason SC_Rejected = ''Rejected''"

definition is_provisional :: "status_code \<Rightarrow> bool" where
  "is_provisional c \<longleftrightarrow> 100 \<le> as_u16 c \<and> as_u16 c \<le> 199"

definition is_final :: "status_code \<Rightarrow> bool" where
  "is_final c \<longleftrightarrow> \<not> is_provisional c"

section \<open>Laws\<close>

lemma as_u16_range: "100 \<le> as_u16 c \<and> as_u16 c \<le> 699"
  by (cases c) simp_all

lemma from_u16_as_u16: "from_u16 (as_u16 c) = Some c"
  by (cases c) (simp_all add: from_u16_def)

lemma from_u16_Some_iff: "from_u16 n = Some c \<longleftrightarrow> as_u16 c = n"
proof
  assume "from_u16 n = Some c"
  then show "as_u16 c = n" unfolding from_u16_def by (auto split: if_split_asm)
next
  assume "as_u16 c = n"
  then show "from_u16 n = Some c" using from_u16_as_u16 by blast
qed

lemma as_u16_inject: "as_u16 c = as_u16 d \<Longrightarrow> c = d"
  by (metis from_u16_as_u16 option.inject)

lemma show_nat_three:
  "100 \<le> n \<Longrightarrow> n < 1000 \<Longrightarrow> show_nat n = [digit_char (n div 100), digit_char (n div 10 mod 10), digit_char (n mod 10)]"
proof -
  assume n: "100 \<le> n" "n < 1000"
  then have "\<not> n < 10" "\<not> n div 10 < 10" "n div 10 div 10 < 10" "n div 10 div 10 = n div 100"
    by (simp_all flip: div_mult2_eq)
  then show ?thesis
    by (simp add: show_nat.simps [of n] show_nat.simps [of "n div 10"] show_nat.simps [of "n div 100"])
qed

lemma show_as_u16_of_bytes: "status_of_bytes (show_word (as_u16 c)) = Ok c"
  by (cases c) (simp_all add: show_nat_three, code_simp+)

lemma status_of_bytes_neq [simp]: "status_of_bytes bs \<noteq> Panic" "status_of_bytes bs \<noteq> OutOfFuel"
  by (simp_all add: status_of_bytes_def)

end
