(* ===== verification/Sip_Message.thy ===== *)
theory Sip_Message
  imports Sip_Headers Status_Code
begin

text \<open>
  Via headers, the \<open>Header\<close> type, SIP messages (\<open>rssip/src/message/mod.rs\<close>) and the message
  level of \<open>rssip/src/parser.rs\<close>: the start lines, the dispatch on header names and the header
  loop.
\<close>

section \<open>Via\<close>

datatype rport = Rport "u16 option"

record via =
  v_transport :: protocol
  v_sent_by :: host_port
  v_ttl :: "u8 option"
  v_maddr :: "host option"
  v_received :: "ip_addr option"
  v_branch :: "bytes option"
  v_rport :: "rport option"
  v_comment :: "bytes option"
  v_params :: params

definition via_new_with_transport ::
  "protocol \<Rightarrow> host_port \<Rightarrow> bytes option \<Rightarrow> rport option \<Rightarrow> via" where
  "via_new_with_transport t sent_by branch rport =
     \<lparr>v_transport = t, v_sent_by = sent_by, v_ttl = None, v_maddr = None, v_received = None,
      v_branch = branch, v_rport = rport, v_comment = None, v_params = []\<rparr>"

definition via_new_udp :: "host_port \<Rightarrow> bytes option \<Rightarrow> rport option \<Rightarrow> via" where
  "via_new_udp sent_by branch rport = via_new_with_transport Udp sent_by branch rport"

definition default_via :: via where
  "default_via = via_new_with_transport Udp default_host_port None None"

definition SIPV2 :: bytes where
  "SIPV2 = ''SIP/2.0''"

definition parse_sip_version :: "unit parser" where
  "parse_sip_version = or_elseP (must_scan_slice SIPV2) (errP K_Version)"

definition ip_res :: "bytes \<Rightarrow> (unit, ip_addr) res" where
  "ip_res s = ok_or (parse_ip s) ()"

definition via_step :: "via \<Rightarrow> (via \<times> param option) parser" where
  "via_step via =
     bindP via_param (\<lambda>(pname, pvalue).
       if pname = ''branch'' then retP (via\<lparr>v_branch := pvalue\<rparr>, None)
       else if pname = ''ttl'' then
         bindP (or_elseP (resP (transpose (map_option parse_u8 pvalue))) (errP K_Param)) (\<lambda>v.
           retP (via\<lparr>v_ttl := v\<rparr>, None))
       else if pname = ''maddr'' then
         retP (via\<lparr>v_maddr := map_option host_of_str pvalue\<rparr>, None)
       else if pname = ''received'' then
         bindP (or_elseP (resP (transpose (map_option ip_res pvalue))) (errP K_Param)) (\<lambda>v.
           retP (via\<lparr>v_received := v\<rparr>, None))
       else if pname = ''rport'' then
         bindP (or_elseP (resP (transpose (map_option parse_u16
                  (case pvalue of Some [] \<Rightarrow> None | _ \<Rightarrow> pvalue)))) (errP K_Port)) (\<lambda>v.
           case v of
             Some port \<Rightarrow>
               if is_valid_port port then retP (via\<lparr>v_rport := Some (Rport (Some port))\<rparr>, None)
               else errP K_Port
           | None \<Rightarrow> retP (via\<lparr>v_rport := Some (Rport None)\<rparr>, None))
       else retP (via, Some (param_of_ref (pname, pvalue))))"

definition parse_via :: "via parser" where
  "parse_via =
     thenP parse_sip_version
     (thenP advance
     (bindP (bindP read_token (\<lambda>t. or_elseP (resP (parse_protocol t)) (errP K_Transport))) (\<lambda>t.
      thenP skip_ws
      (bindP parse_host_port (\<lambda>hp.
       bindP (parse_params_with via_step (default_via\<lparr>v_transport := t, v_sent_by := hp\<rparr>)) (\<lambda>(via, ps).
       bindP (take_if_eq (CHR ''('')) (\<lambda>paren.
       bindP (case paren of
                Some _ \<Rightarrow> bindP (until_utf8 (CHR '')'')) (\<lambda>c. retP (Some c))
              | None \<Rightarrow> retP None) (\<lambda>comment.
         retP (via\<lparr>v_params := ps, v_comment := comment\<rparr>)))))))))"

definition via_of_str :: "bytes \<Rightarrow> (error, via) res" where
  "via_of_str s = fst (parse_via (scanner_new s))"

section \<open>The header type\<close>

datatype (plugins only: code) header =
    H_Accept accept
  | H_AcceptEncoding "coding list"
  | H_AcceptLanguage "language list"
  | H_AlertInfo alert_info
  | H_Allow "sip_method list"
  | H_AuthenticationInfo authentication_info
  | H_Authorization credential
  | H_CallId bytes
  | H_CallInfo call_info
  | H_Contact contact
  | H_ContentDisposition content_disposition
  | H_ContentEncoding "bytes list"
  | H_ContentLanguage "bytes list"
  | H_ContentLength u32
  | H_ContentType media_type
  | H_CSeq cseq
  | H_Date bytes
  | H_ErrorInfo "error_info_uri list"
  | H_Expires u32
  | H_From from_header
  | H_InReplyTo "bytes list"
  | H_MaxForwards u32
  | H_MinExpires u32
  | H_MimeVersion mime_version
  | H_Organization bytes
  | H_Priority bytes
  | H_ProxyAuthenticate challenge
  | H_ProxyAuthorization credential
  | H_ProxyRequire "bytes list"
  | H_RetryAfter retry_after
  | H_Route route
  | H_RecordRoute record_route
  | H_ReplyTo reply_to
  | H_Require "bytes list"
  | H_Server bytes
  | H_Subject bytes
  | H_Supported "bytes list"
  | H_Timestamp timestamp
  | H_To to_header
  | H_Unsupported "bytes list"
  | H_UserAgent bytes
  | H_Via via
  | H_Warning warning
  | H_WWWAuthenticate challenge
  | H_RawHeader raw_header

type_synonym headers = "header list"

section \<open>Messages\<close>

record request_line =
  rl_method :: sip_method
  rl_uri :: uri

record status_line =
  sl_code :: status_code
  sl_reason :: bytes

type_synonym sip_body = bytes

record request =
  rq_line :: request_line
  rq_headers :: headers
  rq_body :: "sip_body option"

record response =
  rs_line :: status_line
  rs_headers :: headers
  rs_body :: "sip_body option"

datatype sip_message = SipRequest request | SipResponse response

fun msg_headers :: "sip_message \<Rightarrow> headers" where
  "msg_headers (SipRequest r) = rq_headers r"
| "msg_headers (SipResponse r) = rs_headers r"

fun msg_body :: "sip_message \<Rightarrow> sip_body option" where
  "msg_body (SipRequest r) = rq_body r"
| "msg_body (SipResponse r) = rs_body r"

fun set_msg_headers :: "headers \<Rightarrow> sip_message \<Rightarrow> sip_message" where
  "set_msg_headers h (SipRequest r) = SipRequest (r\<lparr>rq_headers := h\<rparr>)"
| "set_msg_headers h (SipResponse r) = SipResponse (r\<lparr>rs_headers := h\<rparr>)"

fun set_msg_body :: "sip_body option \<Rightarrow> sip_message \<Rightarrow> sip_message" where
  "set_msg_body b (SipRequest r) = SipRequest (r\<lparr>rq_body := b\<rparr>)"
| "set_msg_body b (SipResponse r) = SipResponse (r\<lparr>rs_body := b\<rparr>)"

fun msg_request :: "sip_message \<Rightarrow> request option" where
  "msg_request (SipRequest r) = Some r"
| "msg_request (SipResponse r) = None"

fun msg_response :: "sip_message \<Rightarrow> response option" where
  "msg_response (SipResponse r) = Some r"
| "msg_response (SipRequest r) = None"

definition request_new :: "sip_method \<Rightarrow> uri \<Rightarrow> request" where
  "request_new m u = \<lparr>rq_line = \<lparr>rl_method = m, rl_uri = u\<rparr>, rq_headers = [], rq_body = None\<rparr>"

definition request_with_headers :: "sip_method \<Rightarrow> uri \<Rightarrow> headers \<Rightarrow> request" where
  "request_with_headers m u hs = \<lparr>rq_line = \<lparr>rl_method = m, rl_uri = u\<rparr>, rq_headers = hs, rq_body = None\<rparr>"

definition response_new :: "status_code \<Rightarrow> bytes \<Rightarrow> response" where
  "response_new c r = \<lparr>rs_line = \<lparr>sl_code = c, sl_reason = r\<rparr>, rs_headers = [], rs_body = None\<rparr>"

definition response_with_headers :: "status_line \<Rightarrow> headers \<Rightarrow> response" where
  "response_with_headers l hs = \<lparr>rs_line = l, rs_headers = hs, rs_body = None\<rparr>"

section \<open>Start lines\<close>

definition parse_status_code :: "status_code parser" where
  "parse_status_code =
     thenP skip_ws
     (bindP (scan_whileP is_ascii_digit) (\<lambda>digits.
      thenP skip_ws
        (or_elseP (resP (status_of_bytes digits)) (errP K_StatusCode))))"

definition parse_reason_phrase :: "bytes parser" where
  "parse_reason_phrase = read_line"

definition parse_status_line :: "status_line parser" where
  "parse_status_line =
     thenP parse_sip_version
     (bindP parse_status_code (\<lambda>code.
      bindP parse_reason_phrase (\<lambda>r.
      thenP skip_newline
        (retP \<lparr>sl_code = code, sl_reason = r\<rparr>))))"

definition parse_request_line :: "request_line parser" where
  "parse_request_line =
     bindP (scan_whileP is_token) (\<lambda>tok.
     thenP skip_ws
     (bindP (parse_uri True) (\<lambda>u.
      thenP skip_ws
      (thenP parse_sip_version
      (thenP skip_newline
        (retP \<lparr>rl_method = method_of_bytes tok, rl_uri = u\<rparr>))))))"

definition header_name :: "bytes parser" where
  "header_name =
     bindP read_token (\<lambda>n.
     thenP skip_ws
     (thenP (must_readP (CHR '':''))
     (thenP skip_ws
       (retP n))))"

section \<open>One header\<close>

text \<open>A header that may be repeated within one line, its values separated by commas.\<close>

definition repeat_body :: "'a parser \<Rightarrow> ('a \<Rightarrow> header) \<Rightarrow> headers \<Rightarrow> (headers, headers) step parser" where
  "repeat_body p H hs =
     bindP p (\<lambda>x.
     bindP (take_if_eq (CHR '','')) (\<lambda>comma.
       case comma of
         None \<Rightarrow> retP (Break (hs @ [H x]))
       | Some _ \<Rightarrow> retP (Continue (hs @ [H x]))))"

definition repeated :: "'a parser \<Rightarrow> ('a \<Rightarrow> header) \<Rightarrow> headers \<Rightarrow> headers parser" where
  "repeated p H hs = loopP (repeat_body p H) hs"

definition single :: "'a parser \<Rightarrow> ('a \<Rightarrow> header) \<Rightarrow> headers \<Rightarrow> headers parser" where
  "single p H hs = bindP p (\<lambda>x. retP (hs @ [H x]))"

text \<open>The last branches of the match on the header name.\<close>

definition late_header_value :: "bytes \<Rightarrow> headers \<Rightarrow> headers parser" where
  "late_header_value name hs =
    (if name = ''Accept-Language'' then single parse_accept_language H_AcceptLanguage hs
     else if name = ''Alert-Info'' then single parse_alert_info H_AlertInfo hs
     else if name = ''Allow'' then single parse_allow H_Allow hs
     else if name = ''Authentication-Info'' then single parse_authentication_info H_AuthenticationInfo hs
     else if name = ''Supported'' \<or> name = ''k'' then single parse_supported H_Supported hs
     else if name = ''Timestamp'' then single parse_timestamp H_Timestamp hs
     else if name = ''Unsupported'' then single parse_unsupported H_Unsupported hs
     else if name = ''WWW-Authenticate'' then single parse_www_authenticate H_WWWAuthenticate hs
     else if name = ''Warning'' then single parse_warning H_Warning hs
     else single read_line (\<lambda>d. H_RawHeader \<lparr>rh_name = name, rh_data = d\<rparr>) hs)"

text \<open>The branch of the header loop for one header name, with the headers found so far.\<close>

definition header_value :: "bytes \<Rightarrow> headers \<Rightarrow> headers parser" where
  "header_value name hs =
    (if name = ''Error-Info'' then single parse_error_info H_ErrorInfo hs
     else if name = ''Route'' then repeated parse_route H_Route hs
     else if name = ''Via'' \<or> name = ''v'' then repeated parse_via H_Via hs
     else if name = ''Max-Forwards'' then single parse_max_forwards H_MaxForwards hs
     else if name = ''From'' \<or> name = ''f'' then single parse_from H_From hs
     else if name = ''To'' \<or> name = ''t'' then single parse_to H_To hs
     else if name = ''Call-ID'' \<or> name = ''i'' then single parse_call_id H_CallId hs
     else if name = ''CSeq'' then single parse_cseq H_CSeq hs
     else if name = ''Authorization'' then single parse_authorization H_Authorization hs
     else if name = ''Contact'' \<or> name = ''m'' then repeated parse_contact H_Contact hs
     else if name = ''Expires'' then single parse_expires H_Expires hs
     else if name = ''In-Reply-To'' then single parse_in_reply_to H_InReplyTo hs
     else if name = ''MIME-Version'' then single parse_mime_version H_MimeVersion hs
     else if name = ''Min-Expires'' then single parse_min_expires H_MinExpires hs
     else if name = ''User-Agent'' then single parse_user_agent H_UserAgent hs
     else if name = ''Date'' then single parse_date H_Date hs
     else if name = ''Server'' then single parse_server H_Server hs
     else if name = ''Subject'' \<or> name = ''s'' then single parse_subject H_Subject hs
     else if name = ''Priority'' then single parse_priority H_Priority hs
     else if name = ''Proxy-Authenticate'' then single parse_proxy_authenticate H_ProxyAuthenticate hs
     else if name = ''Proxy-Authorization'' then single parse_proxy_authorization H_ProxyAuthorization hs
     else if name = ''Proxy-Require'' then single parse_proxy_require H_ProxyRequire hs
     else if name = ''Reply-To'' then single parse_reply_to H_ReplyTo hs
     else if name = ''Content-Length'' \<or> name = ''l'' then single parse_content_length H_ContentLength hs
     else if name = ''Content-Encoding'' \<or> name = ''e'' then single parse_content_encoding H_ContentEncoding hs
     else if name = ''Content-Type'' \<or> name = ''c'' then single parse_content_type H_ContentType hs
     else if name = ''Content-Disposition'' then single parse_content_disposition H_ContentDisposition hs
     else if name = ''Record-Route'' then repeated parse_record_route H_RecordRoute hs
     else if name = ''Require'' then single parse_require H_Require hs
     else if name = ''Retry-After'' then single parse_retry_after H_RetryAfter hs
     else if name = ''Organization'' then single parse_organization H_Organization hs
     else if name = ''Accept-Encoding'' then single parse_accept_encoding H_AcceptEncoding hs
     else if name = ''Accept'' then single parse_accept H_Accept hs
     else late_header_value name hs)"

section \<open>The message\<close>

text \<open>One round of the header loop; the flag remembers a Content-Type header.\<close>

definition headers_body :: "headers \<times> bool \<Rightarrow> (headers \<times> bool, headers \<times> bool) step parser" where
  "headers_body z =
     bindP header_name (\<lambda>name.
     bindP (header_value name (fst z)) (\<lambda>hs.
     thenP (scanP scan_newline)
     (bindP (askP peek) (\<lambda>b.
        let z' = (hs, snd z \<or> name = ''Content-Type'' \<or> name = ''c'')
        in if b = Some (CHR 0x0D) \<or> b = Some (CHR 0x0A) \<or> b = None
           then retP (Break z') else retP (Continue z')))))"

definition parse_headers :: "(headers \<times> bool) parser" where
  "parse_headers = loopP headers_body ([], False)"

definition is_status_start :: "scanner \<Rightarrow> bool" where
  "is_status_start s \<longleftrightarrow> peek_n (length SIPV2) s = Some SIPV2"

definition parse_start :: "sip_message parser" where
  "parse_start =
     bindP (askP is_status_start) (\<lambda>is_sip_v2.
       if is_sip_v2 then
         bindP parse_status_line (\<lambda>l. retP (SipResponse (response_with_headers l [])))
       else
         bindP parse_request_line (\<lambda>l.
           retP (SipRequest (request_with_headers (rl_method l) (rl_uri l) []))))"

text \<open>The body is read only after a Content-Type header.\<close>

definition read_body :: "bool \<Rightarrow> sip_message \<Rightarrow> sip_message parser" where
  "read_body found_content_type msg =
     (if found_content_type then
        thenP skip_newline
        (bindP (askP remaining) (\<lambda>body.
          retP (set_msg_body (Some body) msg)))
      else retP msg)"

definition parse_sip_msg :: "sip_message parser" where
  "parse_sip_msg =
     bindP parse_start (\<lambda>msg.
     bindP parse_headers (\<lambda>(hs, found_content_type).
       read_body found_content_type (set_msg_headers hs msg)))"

definition sip_parse :: "bytes \<Rightarrow> (error, sip_message) res" where
  "sip_parse buf = fst (parse_sip_msg (scanner_new buf))"

end
