(* ===== verification/Header_Laws.thy ===== *)
theory Header_Laws
  imports Sip_Message
begin

text \<open>
  Every header parser terminates, only moves forward and (but for MIME-Version) does not panic;
  so does the message parser. The trait \<open>HeaderParse\<close> is the locale \<open>header_parse\<close>, interpreted
  by each header; the header loop rests on its facts.
\<close>

section \<open>The interface of a header\<close>

locale header_parse =
  fixes parse :: "'a parser"
  assumes parse_good: "good parse"
begin

text \<open>\<open>H::from_str\<close> gives a result on every text.\<close>

lemma from_str_returns: "fst (parse (scanner_new s)) \<noteq> OutOfFuel"
  using goodD [OF parse_good wf_scanner_new] by blast

text \<open>A header never reads outside its buffer, and leaves a suffix of its input.\<close>

lemma leaves_suffix: "wf_scanner s \<Longrightarrow> \<exists>bs. remaining s = bs @ remaining (snd (parse s))"
  using goodD [OF parse_good] by (auto simp: forward_def consumes_def)

lemma single_good: "good (single parse H hs)"
  unfolding single_def by (intro good_intros parse_good)

lemma repeated_good: "good (repeated parse H hs)"
  unfolding repeated_def
proof (rule good_loopP)
  show "good (repeat_body parse H st)" for st
    unfolding repeat_body_def by (intro good_intros parse_good)
  show "eats (\<lambda>r. \<exists>st'. r = Continue st') (repeat_body parse H st)" for st
    unfolding repeat_body_def by (intro eats_bind_second parse_good eats_guard good_intros) auto
qed

end

locale panic_free_header = header_parse +
  assumes parse_calm: "calm parse"
begin

lemma from_str_result: "\<exists>x. fst (parse (scanner_new s)) = Ok x \<or> (\<exists>e. fst (parse (scanner_new s)) = Err e)"
  using from_str_returns [of s] parse_calm
  by (cases "fst (parse (scanner_new s))") (auto simp: calm_def)

lemma single_calm: "calm (single parse H hs)"
  unfolding single_def by (intro calm_intros parse_calm)

lemma repeated_calm: "calm (repeated parse H hs)"
  unfolding repeated_def repeat_body_def by (intro calm_intros parse_calm)

end

section \<open>The pieces\<close>

lemma good_until_utf8 [good_intros]: "good (until_utf8 c)"
  unfolding until_utf8_def by (intro good_intros)

lemma calm_until_utf8 [calm_intros]: "calm (until_utf8 c)"
  unfolding until_utf8_def by (intro calm_intros)

lemma ip_res_neq [simp]: "ip_res s \<noteq> Panic" "ip_res s \<noteq> OutOfFuel"
  by (simp_all add: ip_res_def)

lemma good_steps [good_intros]:
  "good (tag_step t)" "good (q_step q)" "good (purpose_step p)" "good (contact_step z)"
  "good (via_step v)"
  unfolding tag_step_def q_step_def purpose_step_def contact_step_def via_step_def
  by (intro good_intros; simp split: option.split)+

lemma calm_steps [calm_intros]:
  "calm (tag_step t)" "calm (q_step q)" "calm (purpose_step p)" "calm (contact_step z)"
  "calm (via_step v)"
  unfolding tag_step_def q_step_def purpose_step_def contact_step_def via_step_def
  by (intro calm_intros; simp split: option.split)+

lemma good_must_scan_slice [good_intros]: "good (must_scan_slice bs)"
proof -
  have "fst (must_scan_zip fs es s) \<noteq> OutOfFuel" for fs es s
    by (induction fs es s rule: must_scan_zip.induct) auto
  then show ?thesis
    unfolding good_def must_scan_slice_def
    by (metis consumes_forward must_scan_slice_def must_scan_slice_spec(1))
qed

lemma calm_must_scan_slice [calm_intros]: "calm (must_scan_slice bs)"
proof -
  have "fst (must_scan_zip fs es s) \<noteq> Panic" for fs es s
    by (induction fs es s rule: must_scan_zip.induct) auto
  then show ?thesis by (simp add: calm_def must_scan_slice_def)
qed

lemma good_parse_sip_version [good_intros]: "good parse_sip_version"
  unfolding parse_sip_version_def by (intro good_intros)

lemma calm_parse_sip_version [calm_intros]: "calm parse_sip_version"
  unfolding parse_sip_version_def by (intro calm_intros)

lemma good_p_parse_f32 [good_intros]: "good p_parse_f32"
  unfolding p_parse_f32_def
proof (rule good_scanP)
  fix s assume "wf_scanner s"
  then show "forward s (snd (scan_f32 s)) \<and> fst (scan_f32 s) \<noteq> OutOfFuel"
    using scan_while_spec(2) [of s]
    by (auto simp: scan_f32_def scan_number_str_def split_beta intro: consumes_forward)
qed

lemma calm_p_parse_f32 [calm_intros]: "calm p_parse_f32"
  unfolding p_parse_f32_def by (rule calm_scanP) (simp add: scan_f32_def split_beta)

lemma good_minus_zero [good_intros]: "good (minus_zero b)"
  unfolding minus_zero_def by (intro good_intros)

lemmas header_defs =
  parse_accept_def parse_coding_def parse_accept_encoding_def parse_language_tag_def
  parse_language_def parse_accept_language_def parse_alert_info_def parse_call_info_def
  parse_error_info_uri_def parse_error_info_def parse_allow_def parse_cseq_def
  parse_authentication_info_def parse_authorization_def parse_proxy_authenticate_def
  parse_proxy_authorization_def parse_www_authenticate_def parse_call_id_def parse_date_def
  parse_organization_def parse_server_def parse_subject_def parse_user_agent_def
  parse_content_length_def parse_expires_def parse_max_forwards_def parse_min_expires_def
  parse_content_encoding_def parse_content_language_def parse_proxy_require_def parse_require_def
  parse_supported_def parse_unsupported_def parse_priority_def parse_in_reply_to_def
  parse_contact_def parse_from_def parse_to_def parse_reply_to_def parse_route_def
  parse_record_route_def parse_content_disposition_def parse_content_type_def
  parse_retry_after_def parse_timestamp_def parse_warning_def

lemma calm_digest_body [calm_intros]: "calm (digest_body f d)"
  unfolding digest_body_def by (intro calm_intros)

lemma good_headers [good_intros]:
  "good parse_accept" "good parse_accept_encoding" "good parse_accept_language"
  "good parse_alert_info" "good parse_allow" "good parse_authentication_info"
  "good parse_authorization" "good parse_call_id" "good parse_call_info" "good parse_contact"
  "good parse_content_disposition" "good parse_content_encoding" "good parse_content_language"
  "good parse_content_length" "good parse_content_type" "good parse_cseq" "good parse_date"
  "good parse_error_info" "good parse_expires" "good parse_from" "good parse_in_reply_to"
  "good parse_max_forwards" "good parse_min_expires" "good parse_organization"
  "good parse_priority" "good parse_proxy_authenticate" "good parse_proxy_authorization"
  "good parse_proxy_require" "good parse_record_route" "good parse_reply_to" "good parse_require"
  "good parse_retry_after" "good parse_route" "good parse_server" "good parse_subject"
  "good parse_supported" "good parse_timestamp" "good parse_to" "good parse_unsupported"
  "good parse_user_agent" "good parse_warning" "good parse_www_authenticate"
  unfolding header_defs by (intro good_intros)+

lemma calm_headers [calm_intros]:
  "calm parse_accept" "calm parse_accept_encoding" "calm parse_accept_language"
  "calm parse_alert_info" "calm parse_allow" "calm parse_authentication_info"
  "calm parse_authorization" "calm parse_call_id" "calm parse_call_info" "calm parse_contact"
  "calm parse_content_disposition" "calm parse_content_encoding" "calm parse_content_language"
  "calm parse_content_length" "calm parse_content_type" "calm parse_cseq" "calm parse_date"
  "calm parse_error_info" "calm parse_expires" "calm parse_from" "calm parse_in_reply_to"
  "calm parse_max_forwards" "calm parse_min_expires" "calm parse_organization"
  "calm parse_priority" "calm parse_proxy_authenticate" "calm parse_proxy_authorization"
  "calm parse_proxy_require" "calm parse_record_route" "calm parse_reply_to" "calm parse_require"
  "calm parse_retry_after" "calm parse_route" "calm parse_server" "calm parse_subject"
  "calm parse_supported" "calm parse_timestamp" "calm parse_to" "calm parse_unsupported"
  "calm parse_user_agent" "calm parse_warning" "calm parse_www_authenticate"
  unfolding header_defs by (intro calm_intros)+

lemma good_parse_mime_version [good_intros]: "good parse_mime_version"
  unfolding parse_mime_version_def by (intro good_intros)

lemma good_parse_via [good_intros]: "good parse_via"
  unfolding parse_via_def by (intro good_intros) simp

lemma calm_parse_via [calm_intros]: "calm parse_via"
  unfolding parse_via_def by (intro calm_intros) simp

section \<open>Every header implements the interface\<close>

interpretation mime_version_field: header_parse parse_mime_version
  by unfold_locales (intro good_intros)

interpretation accept_field: panic_free_header parse_accept
  by unfold_locales (intro good_intros, intro calm_intros)

interpretation accept_encoding_field: panic_free_header parse_accept_encoding
  by unfold_locales (intro good_intros, intro calm_intros)

interpretation accept_language_field: panic_free_header parse_accept_language
  by unfold_locales (intro good_intros, intro calm_intros)

interpretation alert_info_field: panic_free_header parse_alert_info
  by unfold_locales (intro good_intros, intro calm_intros)

interpretation allow_field: panic_free_header parse_allow
  by unfold_locales (intro good_intros, intro calm_intros)

interpretation authentication_info_field: panic_free_header parse_authentication_info
  by unfold_locales (intro good_intros, intro calm_intros)

interpretation authorization_field: panic_free_header parse_authorization
  by unfold_locales (intro good_intros, intro calm_intros)

interpretation call_id_field: panic_free_header parse_call_id
  by unfold_locales (intro good_intros, intro calm_intros)

interpretation call_info_field: panic_free_header parse_call_info
  by unfold_locales (intro good_intros, intro calm_intros)

interpretation contact_field: panic_free_header parse_contact
  by unfold_locales (intro good_intros, intro calm_intros)

interpretation content_disposition_field: panic_free_header parse_content_disposition
  by unfold_locales (intro good_intros, intro calm_intros)

interpretation content_encoding_field: panic_free_header parse_content_encoding
  by unfold_locales (intro good_intros, intro calm_intros)

interpretation content_language_field: panic_free_header parse_content_language
  by unfold_locales (intro good_intros, intro calm_intros)

interpretation content_length_field: panic_free_header parse_content_length
  by unfold_locales (intro good_intros, intro calm_intros)

interpretation content_type_field: panic_free_header parse_content_type
  by unfold_locales (intro good_intros, intro calm_intros)

interpretation cseq_field: panic_free_header parse_cseq
  by unfold_locales (intro good_intros, intro calm_intros)

interpretation date_field: panic_free_header parse_date
  by unfold_locales (intro good_intros, intro calm_intros)

interpretation error_info_field: panic_free_header parse_error_info
  by unfold_locales (intro good_intros, intro calm_intros)

interpretation expires_field: panic_free_header parse_expires
  by unfold_locales (intro good_intros, intro calm_intros)

interpretation from_field: panic_free_header parse_from
  by unfold_locales (intro good_intros, intro calm_intros)

interpretation in_reply_to_field: panic_free_header parse_in_reply_to
  by unfold_locales (intro good_intros, intro calm_intros)

interpretation max_forwards_field: panic_free_header parse_max_forwards
  by unfold_locales (intro good_intros, intro calm_intros)

interpretation min_expires_field: panic_free_header parse_min_expires
  by unfold_locales (intro good_intros, intro calm_intros)

interpretation organization_field: panic_free_header parse_organization
  by unfold_locales (intro good_intros, intro calm_intros)

interpretation priority_field: panic_free_header parse_priority
  by unfold_locales (intro good_intros, intro calm_intros)

interpretation proxy_authenticate_field: panic_free_header parse_proxy_authenticate
  by unfold_locales (intro good_intros, intro calm_intros)

interpretation proxy_authorization_field: panic_free_header parse_proxy_authorization
  by unfold_locales (intro good_intros, intro calm_intros)

interpretation proxy_require_field: panic_free_header parse_proxy_require
  by unfold_locales (intro good_intros, intro calm_intros)

interpretation record_route_field: panic_free_header parse_record_route
  by unfold_locales (intro good_intros, intro calm_intros)

interpretation reply_to_field: panic_free_header parse_reply_to
  by unfold_locales (intro good_intros, intro calm_intros)

interpretation require_field: panic_free_header parse_require
  by unfold_locales (intro good_intros, intro calm_intros)

interpretation retry_after_field: panic_free_header parse_retry_after
  by unfold_locales (intro good_intros, intro calm_intros)

interpretation route_field: panic_free_header parse_route
  by unfold_locales (intro good_intros, intro calm_intros)

interpretation server_field: panic_free_header parse_server
  by unfold_locales (intro good_intros, intro calm_intros)

interpretation subject_field: panic_free_header parse_subject
  by unfold_locales (intro good_intros, intro calm_intros)

interpretation supported_field: panic_free_header parse_supported
  by unfold_locales (intro good_intros, intro calm_intros)

interpretation timestamp_field: panic_free_header parse_timestamp
  by unfold_locales (intro good_intros, intro calm_intros)

interpretation to_field: panic_free_header parse_to
  by unfold_locales (intro good_intros, intro calm_intros)

interpretation unsupported_field: panic_free_header parse_unsupported
  by unfold_locales (intro good_intros, intro calm_intros)

interpretation user_agent_field: panic_free_header parse_user_agent
  by unfold_locales (intro good_intros, intro calm_intros)

interpretation via_field: panic_free_header parse_via
  by unfold_locales (intro good_intros, intro calm_intros)

interpretation warning_field: panic_free_header parse_warning
  by unfold_locales (intro good_intros, intro calm_intros)

interpretation www_authenticate_field: panic_free_header parse_www_authenticate
  by unfold_locales (intro good_intros, intro calm_intros)

interpretation raw_field: panic_free_header read_line
  by unfold_locales (intro good_intros, intro calm_intros)

end
