(* ===== verification/Message_Laws.thy ===== *)
theory Message_Laws
  imports Header_Laws
begin

text \<open>
  The message parser: it returns on every input, it consumes a prefix of it, and the only panic
  it can reach is the digit arithmetic of a MIME-Version header.
\<close>

lemma scan_newline_forward: "wf_scanner s \<Longrightarrow> forward s (snd (scan_newline s)) \<and> fst (scan_newline s) \<noteq> OutOfFuel"
proof -
  assume wf: "wf_scanner s"
  obtain c s1 where 1: "scan_if_eq (CHR 0x0D) s = (c, s1)" by fastforce
  obtain d s2 where 2: "scan_if_eq (CHR 0x0A) s1 = (d, s2)" by fastforce
  have f1: "forward s s1" using scan_if_forward [OF wf] 1 by (metis scan_if_eq_def snd_conv)
  have "forward s1 s2"
    using scan_if_forward [OF forward_wf [OF f1 wf]] 2 by (metis scan_if_eq_def snd_conv)
  then show ?thesis using 1 2 f1 by (auto simp: scan_newline_def intro: forward_trans)
qed

lemma good_scan_newlineP [good_intros]: "good (scanP scan_newline)"
  by (rule good_scanP) (rule scan_newline_forward)

lemma calm_scan_newlineP [calm_intros]: "calm (scanP scan_newline)"
  by (rule calm_scanP) (simp add: scan_newline_def split_beta)

lemma good_start_lines [good_intros]:
  "good parse_status_code" "good parse_reason_phrase" "good parse_status_line"
  "good parse_request_line" "good header_name" "good parse_start"
proof -
  show c: "good parse_status_code" unfolding parse_status_code_def by (intro good_intros) simp
  show r: "good parse_reason_phrase" unfolding parse_reason_phrase_def by (intro good_intros)
  show s: "good parse_status_line" unfolding parse_status_line_def by (intro good_intros c r)
  show q: "good parse_request_line" unfolding parse_request_line_def by (intro good_intros)
  show "good header_name" unfolding header_name_def by (intro good_intros)
  show "good parse_start" unfolding parse_start_def by (intro good_intros s q)
qed

lemma calm_start_lines [calm_intros]:
  "calm parse_status_code" "calm parse_reason_phrase" "calm parse_status_line"
  "calm parse_request_line" "calm header_name" "calm parse_start"
proof -
  show c: "calm parse_status_code" unfolding parse_status_code_def by (intro calm_intros) simp
  show r: "calm parse_reason_phrase" unfolding parse_reason_phrase_def by (intro calm_intros)
  show s: "calm parse_status_line" unfolding parse_status_line_def by (intro calm_intros c r)
  show q: "calm parse_request_line" unfolding parse_request_line_def by (intro calm_intros)
  show "calm header_name" unfolding header_name_def by (intro calm_intros)
  show "calm parse_start" unfolding parse_start_def by (intro calm_intros s q)
qed

lemmas single_goods =
  accept_field.single_good accept_encoding_field.single_good accept_language_field.single_good
  alert_info_field.single_good allow_field.single_good authentication_info_field.single_good
  authorization_field.single_good call_id_field.single_good content_disposition_field.single_good
  content_encoding_field.single_good content_length_field.single_good content_type_field.single_good
  cseq_field.single_good date_field.single_good error_info_field.single_good
  expires_field.single_good from_field.single_good in_reply_to_field.single_good
  max_forwards_field.single_good mime_version_field.single_good min_expires_field.single_good
  organization_field.single_good priority_field.single_good proxy_authenticate_field.single_good
  proxy_authorization_field.single_good proxy_require_field.single_good reply_to_field.single_good
  require_field.single_good retry_after_field.single_good server_field.single_good
  subject_field.single_good supported_field.single_good timestamp_field.single_good
  to_field.single_good unsupported_field.single_good user_agent_field.single_good
  warning_field.single_good www_authenticate_field.single_good raw_field.single_good

lemmas repeated_goods =
  route_field.repeated_good via_field.repeated_good contact_field.repeated_good
  record_route_field.repeated_good

lemmas single_calms =
  accept_field.single_calm accept_encoding_field.single_calm accept_language_field.single_calm
  alert_info_field.single_calm allow_field.single_calm authentication_info_field.single_calm
  authorization_field.single_calm call_id_field.single_calm content_disposition_field.single_calm
  content_encoding_field.single_calm content_length_field.single_calm content_type_field.single_calm
  cseq_field.single_calm date_field.single_calm error_info_field.single_calm
  expires_field.single_calm from_field.single_calm in_reply_to_field.single_calm
  max_forwards_field.single_calm min_expires_field.single_calm
  organization_field.single_calm priority_field.single_calm proxy_authenticate_field.single_calm
  proxy_authorization_field.single_calm proxy_require_field.single_calm reply_to_field.single_calm
  require_field.single_calm retry_after_field.single_calm server_field.single_calm
  subject_field.single_calm supported_field.single_calm timestamp_field.single_calm
  to_field.single_calm unsupported_field.single_calm user_agent_field.single_calm
  warning_field.single_calm www_authenticate_field.single_calm raw_field.single_calm

lemmas repeated_calms =
  route_field.repeated_calm via_field.repeated_calm contact_field.repeated_calm
  record_route_field.repeated_calm

lemma good_header_value [good_intros]: "good (header_value name hs)"
  unfolding header_value_def late_header_value_def by (intro good_If single_goods repeated_goods)

lemma calm_header_value: "name \<noteq> ''MIME-Version'' \<Longrightarrow> calm (header_value name hs)"
proof -
  assume n: "name \<noteq> ''MIME-Version''"
  show ?thesis
    unfolding header_value_def late_header_value_def if_not_P [OF n] by (intro calm_If single_calms repeated_calms)
qed

lemma good_headers_body: "good (headers_body z)"
  unfolding headers_body_def by (intro good_intros)

lemma eats_must_readP: "eats Q (must_readP b)"
  by (auto simp: eats_def must_readP_def scanP_def map_errP_def must_read_def peek_remaining
      remaining_bump split: list.splits if_splits prod.splits)

lemma eats_header_name: "eats Q header_name"
  unfolding header_name_def thenP_def
  by (intro eats_bind_second good_intros eats_bind_first eats_must_readP)

lemma good_parse_headers [good_intros]: "good parse_headers"
  unfolding parse_headers_def
proof (rule good_loopP)
  show "good (headers_body z)" for z by (rule good_headers_body)
  show "eats (\<lambda>r. \<exists>st'. r = Continue st') (headers_body z)" for z
    unfolding headers_body_def by (intro eats_bind_first eats_header_name good_intros)
qed

lemma good_parse_sip_msg [good_intros]: "good parse_sip_msg"
  unfolding parse_sip_msg_def read_body_def by (intro good_intros)

section \<open>Where a panic comes from\<close>

text \<open>\<open>panic_needs w p\<close>: the parser only panics on inputs in which the text \<open>w\<close> occurs.\<close>

definition occurs :: "bytes \<Rightarrow> bytes \<Rightarrow> bool" where
  "occurs w bs \<longleftrightarrow> (\<exists>pre post. bs = pre @ w @ post)"

definition panic_needs :: "bytes \<Rightarrow> 'a parser \<Rightarrow> bool" where
  "panic_needs w p \<longleftrightarrow> (\<forall>s. wf_scanner s \<longrightarrow> fst (p s) = Panic \<longrightarrow> occurs w (remaining s))"

lemma occurs_forward: "forward s s' \<Longrightarrow> occurs w (remaining s') \<Longrightarrow> occurs w (remaining s)"
proof -
  assume "forward s s'" and "occurs w (remaining s')"
  then obtain bs pre post where "remaining s = bs @ pre @ w @ post"
    by (auto simp: forward_def consumes_def occurs_def)
  then have "remaining s = (bs @ pre) @ w @ post" by simp
  then show ?thesis unfolding occurs_def by blast
qed

lemma panic_needs_calm: "calm p \<Longrightarrow> panic_needs w p"
  by (simp add: panic_needs_def calm_def)

lemma panic_needs_bindP:
  assumes "good p" and "panic_needs w p" and "\<And>x. panic_needs w (f x)"
  shows "panic_needs w (bindP p f)"
  unfolding panic_needs_def
proof (intro allI impI)
  fix s assume wf: "wf_scanner s" and p: "fst (bindP p f s) = Panic"
  obtain r s' where ps: "p s = (r, s')" by fastforce
  have fw: "forward s s'" using good_forward [OF assms(1) wf ps] .
  show "occurs w (remaining s)"
  proof (cases r)
    case (Ok x)
    then have "fst (f x s') = Panic" using p ps by (simp add: bindP_def)
    then have "occurs w (remaining s')"
      using assms(3) forward_wf [OF fw wf] by (simp add: panic_needs_def)
    then show ?thesis by (rule occurs_forward [OF fw])
  qed (use assms(2) wf p ps in \<open>auto simp: bindP_def panic_needs_def\<close>)
qed

lemma panic_needs_loop_fuel:
  assumes "\<And>st. good (body st)" and "\<And>st. panic_needs w (body st)"
  shows "wf_scanner s \<Longrightarrow> fst (loop_fuel n body st s) = Panic \<Longrightarrow> occurs w (remaining s)"
proof (induction n arbitrary: st s)
  case (Suc n)
  obtain r s' where b: "body st s = (r, s')" by fastforce
  have fw: "forward s s'" using good_forward [OF assms(1) Suc.prems(1) b] .
  consider "r = Panic" | st' where "r = Ok (Continue st')" "fst (loop_fuel n body st' s') = Panic"
    using Suc.prems(2) b by (auto simp: bindP_def retP_def split: res.splits step.splits)
  then show ?case
  proof cases
    case 1
    then show ?thesis using assms(2) [of st] Suc.prems(1) b by (auto simp: panic_needs_def)
  next
    case 2
    then show ?thesis
      using Suc.IH forward_wf [OF fw Suc.prems(1)] occurs_forward [OF fw] by blast
  qed
qed simp

lemma panic_needs_loopP:
  "(\<And>st. good (body st)) \<Longrightarrow> (\<And>st. panic_needs w (body st)) \<Longrightarrow> panic_needs w (loopP body st)"
  using panic_needs_loop_fuel by (fastforce simp: panic_needs_def loopP_def simp del: loop_fuel.simps)

text \<open>What \<open>header_name\<close> returns stands in the input.\<close>

lemma header_name_in_input:
  assumes "wf_scanner s" and "header_name s = (Ok name, s')"
  shows "occurs name (remaining s)"
proof -
  have "name = takeWhile is_token (remaining s)"
    using assms scan_while_spec(1) [OF assms(1), of is_token]
    by (auto simp: header_name_def bindP_def thenP_def read_token_def read_while_unchecked_def
        scan_while_as_str_unchecked_def liftP_def retP_def split: prod.splits res.splits)
  then have "remaining s = [] @ name @ dropWhile is_token (remaining s)" by simp
  then show ?thesis unfolding occurs_def by blast
qed

lemma panic_needs_headers_body: "panic_needs ''MIME-Version'' (headers_body z)"
  unfolding panic_needs_def
proof (intro allI impI)
  fix s assume wf: "wf_scanner s" and p: "fst (headers_body z s) = Panic"
  let ?rest = "\<lambda>name. bindP (header_value name (fst z)) (\<lambda>hs.
     thenP (scanP scan_newline) (bindP (askP peek) (\<lambda>b.
       let z' = (hs, snd z \<or> name = ''Content-Type'' \<or> name = ''c'')
       in if b = Some (CHR 0x0D) \<or> b = Some (CHR 0x0A) \<or> b = None
          then retP (Break z') else retP (Continue z'))))"
  have "fst (header_name s) \<noteq> Panic" using calm_start_lines(5) by (simp add: calm_def)
  then obtain name s' where n: "header_name s = (Ok name, s')" and r: "fst (?rest name s') = Panic"
    using p by (auto simp: headers_body_def bindP_def [of header_name] split: prod.splits res.splits)
  have "name = ''MIME-Version''"
  proof (rule ccontr)
    assume "name \<noteq> ''MIME-Version''"
    then have "calm (?rest name)" by (intro calm_intros calm_header_value)
    then show False using r by (simp add: calm_def)
  qed
  then show "occurs ''MIME-Version'' (remaining s)" using header_name_in_input [OF wf n] by simp
qed

lemma panic_needs_parse_sip_msg: "panic_needs ''MIME-Version'' parse_sip_msg"
proof -
  have hs: "panic_needs ''MIME-Version'' parse_headers"
    unfolding parse_headers_def
    by (intro panic_needs_loopP good_headers_body panic_needs_headers_body)
  have "calm (case z of (hs, found) \<Rightarrow> read_body found (set_msg_headers hs msg))" for z msg
    unfolding read_body_def by (intro calm_intros)
  then show ?thesis
    unfolding parse_sip_msg_def
    by (intro panic_needs_bindP hs panic_needs_calm good_intros calm_start_lines)
qed

section \<open>Properties\<close>

text \<open>C13: The message parser returns on every input: no loop of it runs on, and whatever the
  outcome the scanner it leaves is well formed (index in bounds, position that of the bytes
  consumed) and what it consumed and what it left make up the input.\<close>

theorem parse_sip_msg_returns:
  "case parse_sip_msg (scanner_new buf) of (r, s) \<Rightarrow>
     r \<noteq> OutOfFuel \<and> wf_scanner s \<and> (\<exists>used. buf = used @ remaining s)"
proof -
  obtain r s where run: "parse_sip_msg (scanner_new buf) = (r, s)" by fastforce
  then have "forward (scanner_new buf) s" and "r \<noteq> OutOfFuel"
    using goodD [OF good_parse_sip_msg wf_scanner_new [of buf]] by auto
  then show ?thesis
    using run forward_wf [OF _ wf_scanner_new] by (auto simp: forward_def consumes_def remaining_new)
qed

text \<open>C14: The message parser only panics on an input that contains the text \<open>MIME-Version\<close>, whose
  digits are converted by an unchecked subtraction; every other input gives a message or an
  error. The witness is a message on which it does panic.\<close>

theorem sip_parse_panic_source:
  assumes "sip_parse buf = Panic"
  shows "occurs ''MIME-Version'' buf"
  using panic_needs_parse_sip_msg assms wf_scanner_new [of buf] remaining_new [of buf]
  unfolding panic_needs_def sip_parse_def by metis

theorem sip_parse_panic_source_witness:
  "sip_parse (''SIP/2.0 200'' @ [CHR 0x0A] @ ''MIME-Version:/'') = Panic \<and>
   occurs ''MIME-Version'' (''SIP/2.0 200'' @ [CHR 0x0A] @ ''MIME-Version:/'')"
proof -
  have "sip_parse (''SIP/2.0 200'' @ [CHR 0x0A] @ ''MIME-Version:/'') = Panic" by code_simp
  then show ?thesis using sip_parse_panic_source by blast
qed

end
