(* ===== verification/Header_Display.thy ===== *)
theory Header_Display
  imports Sip_Message
begin

text \<open>
  The printers of the headers (\<open>Display\<close> in \<open>rssip/src/message/headers/\<close>) and of the start
  lines. Printing is total but for challenges and credentials of other schemes, whose printers
  are \<open>todo!()\<close>; the printer of a header therefore has an outcome.
\<close>

section \<open>Each header\<close>

definition show_list :: "('a \<Rightarrow> bytes) \<Rightarrow> 'a list \<Rightarrow> bytes" where
  "show_list f xs = join '', '' (map f xs)"

definition show_accept :: "accept \<Rightarrow> bytes" where
  "show_accept ms = ''Accept: '' @ show_list show_media_type ms"

definition show_coding :: "coding \<Rightarrow> bytes" where
  "show_coding c =
     cd_coding c @
     (case cd_q c of Some q \<Rightarrow> '';q='' @ show_word (q_int q) @ ''.'' @ show_word (q_frac q) | None \<Rightarrow> '''') @
     show_params (cd_params c)"

definition show_accept_encoding :: "coding list \<Rightarrow> bytes" where
  "show_accept_encoding cs = ''Accept-Encoding: '' @ show_list show_coding cs"

definition show_language :: "language \<Rightarrow> bytes" where
  "show_language l = lg_tag l @ show_opt '''' show_q (lg_q l) @ show_params (lg_params l)"

definition show_accept_language :: "language list \<Rightarrow> bytes" where
  "show_accept_language ls = ''Accept-Language: '' @ show_list show_language ls"

definition show_alert_info :: "alert_info \<Rightarrow> bytes" where
  "show_alert_info a = ''Alert-Info: <'' @ ai_url a @ ''>'' @ show_params (ai_params a)"

definition show_allow :: "sip_method list \<Rightarrow> bytes" where
  "show_allow ms = ''Allow: '' @ show_list method_str ms"

definition show_authentication_info :: "authentication_info \<Rightarrow> bytes" where
  "show_authentication_info a =
     ''Authentication-Info: '' @
     show_opt ''nextnonce='' id (an_nextnonce a) @
     show_opt '', qop='' id (an_qop a) @
     show_opt '', rspauth='' id (an_rspauth a) @
     show_opt '', cnonce='' id (an_cnonce a) @
     show_opt '', nc='' id (an_nc a)"

definition show_authorization :: "credential \<Rightarrow> (error, bytes) res" where
  "show_authorization c = map_ok (\<lambda>t. ''Authorization: '' @ t) (show_credential c)"

definition show_call_id :: "bytes \<Rightarrow> bytes" where
  "show_call_id i = ''Call-ID: '' @ i"

definition show_call_info :: "call_info \<Rightarrow> bytes" where
  "show_call_info c =
     ''Call-Info: <'' @ ci_url c @ ''>'' @ show_opt '';'' id (ci_purpose c) @ show_params (ci_params c)"

definition show_contact :: "contact \<Rightarrow> bytes" where
  "show_contact c =
     ''Contact: '' @ show_sip_uri (ct_uri c) @ show_opt '''' show_q (ct_q c) @
     show_opt '''' show_word (ct_expires c) @ show_params (ct_param c)"

definition show_content_disposition :: "content_disposition \<Rightarrow> bytes" where
  "show_content_disposition c =
     ''Content-Disposition: '' @ cdp_type c @ '';'' @ show_params (cdp_params c)"

definition show_content_encoding :: "bytes list \<Rightarrow> bytes" where
  "show_content_encoding cs = ''Content-Encoding: '' @ show_list id cs"

definition show_content_language :: "bytes list \<Rightarrow> bytes" where
  "show_content_language ls = ''Content-Language: '' @ show_list id ls"

definition show_content_length :: "u32 \<Rightarrow> bytes" where
  "show_content_length n = ''Content-Length: '' @ show_word n"

definition show_content_type :: "media_type \<Rightarrow> bytes" where
  "show_content_type m = ''Content-Type: '' @ show_media_type m"

definition show_cseq :: "cseq \<Rightarrow> bytes" where
  "show_cseq c = ''CSeq: '' @ show_word (cs_cseq c) @ '' '' @ method_str (cs_method c)"

definition show_date :: "bytes \<Rightarrow> bytes" where
  "show_date d = ''Date: '' @ d"

definition show_error_info_uri :: "error_info_uri \<Rightarrow> bytes" where
  "show_error_info_uri u = ei_url u @ '';'' @ show_params (ei_params u)"

definition show_error_info :: "error_info_uri list \<Rightarrow> bytes" where
  "show_error_info us = show_list show_error_info_uri us"

definition show_expires :: "u32 \<Rightarrow> bytes" where
  "show_expires n = ''Expires: '' @ show_word n"

definition show_from :: "from_header \<Rightarrow> bytes" where
  "show_from f =
     ''From: '' @ show_sip_uri (fr_uri f) @ show_opt '';tag='' id (fr_tag f) @ show_params (fr_params f)"

definition show_in_reply_to :: "bytes list \<Rightarrow> bytes" where
  "show_in_reply_to ids = ''In-Reply-To: '' @ show_list show_call_id ids"

definition show_max_forwards :: "u32 \<Rightarrow> bytes" where
  "show_max_forwards n = ''Max-Forwards: '' @ show_word n"

definition show_min_expires :: "u32 \<Rightarrow> bytes" where
  "show_min_expires n = ''Min-Expires: '' @ show_word n"

definition show_mime_version :: "mime_version \<Rightarrow> bytes" where
  "show_mime_version v = ''MIME-Version: '' @ show_word (mv_major v) @ ''.'' @ show_word (mv_minor v)"

definition show_organization :: "bytes \<Rightarrow> bytes" where
  "show_organization x = ''Organization: '' @ x"

definition show_priority :: "bytes \<Rightarrow> bytes" where
  "show_priority x = ''Priority: '' @ x"

definition show_proxy_authenticate :: "challenge \<Rightarrow> (error, bytes) res" where
  "show_proxy_authenticate c = map_ok (\<lambda>t. ''Proxy-Authenticate: '' @ t) (show_challenge c)"

definition show_proxy_authorization :: "credential \<Rightarrow> (error, bytes) res" where
  "show_proxy_authorization c = map_ok (\<lambda>t. ''Proxy-Authorization: '' @ t) (show_credential c)"

definition show_proxy_require :: "bytes list \<Rightarrow> bytes" where
  "show_proxy_require ts = ''Proxy-Require: '' @ show_list id ts"

definition show_retry_after :: "retry_after \<Rightarrow> bytes" where
  "show_retry_after r =
     ''Retry-After: '' @ show_word (ra_seconds r) @ show_params (ra_param r) @
     show_opt '''' id (ra_comment r)"

definition show_route :: "route \<Rightarrow> bytes" where
  "show_route r = ''Route: '' @ show_name_addr (rt_name_addr r) @ show_params (rt_params r)"

definition show_record_route :: "record_route \<Rightarrow> bytes" where
  "show_record_route r = ''Record-Route: '' @ show_name_addr (rr_addr r) @ show_params (rr_params r)"

definition show_reply_to :: "reply_to \<Rightarrow> bytes" where
  "show_reply_to r = ''Reply-To: '' @ show_sip_uri (rp_uri r) @ show_params (rp_param r)"

definition show_require :: "bytes list \<Rightarrow> bytes" where
  "show_require ts = ''Require: '' @ show_list id ts"

definition show_server :: "bytes \<Rightarrow> bytes" where
  "show_server x = ''Server: '' @ x"

definition show_subject :: "bytes \<Rightarrow> bytes" where
  "show_subject x = ''Subject: '' @ x"

definition show_supported :: "bytes list \<Rightarrow> bytes" where
  "show_supported ts = ''Supported: '' @ show_list id ts"

definition show_timestamp :: "timestamp \<Rightarrow> bytes" where
  "show_timestamp t = ''Timestamp: '' @ show_f32 (ts_time t) @ show_opt '''' show_f32 (ts_delay t)"

definition show_to :: "to_header \<Rightarrow> bytes" where
  "show_to t =
     ''To: '' @ show_sip_uri (to_uri t) @ show_opt '';tag='' id (to_tag t) @ show_params (to_params t)"

definition show_unsupported :: "bytes list \<Rightarrow> bytes" where
  "show_unsupported ts = ''Unsupported: '' @ show_list id ts"

definition show_user_agent :: "bytes \<Rightarrow> bytes" where
  "show_user_agent x = ''User-Agent: '' @ x"

fun show_rport :: "rport \<Rightarrow> bytes" where
  "show_rport (Rport port) = '';rport'' @ show_opt ''='' show_word port"

definition show_via :: "via \<Rightarrow> bytes" where
  "show_via v =
     ''Via: '' @ SIPV2 @ ''/'' @ as_upper_case (v_transport v) @ '' '' @ show_host_port (v_sent_by v) @
     show_opt '''' show_rport (v_rport v) @
     show_opt '';received='' show_ip (v_received v) @
     show_opt '';ttl='' show_word (v_ttl v) @
     show_opt '';maddr='' show_host (v_maddr v) @
     show_opt '';branch='' id (v_branch v) @
     show_params (v_params v) @
     (case v_comment v of Some c \<Rightarrow> '' ('' @ c @ '')'' | None \<Rightarrow> '''')"

definition show_warning :: "warning \<Rightarrow> bytes" where
  "show_warning w = ''Warning: '' @ show_word (w_code w) @ '' '' @ w_host w @ '' '' @ w_text w"

definition show_www_authenticate :: "challenge \<Rightarrow> (error, bytes) res" where
  "show_www_authenticate c = map_ok (\<lambda>t. ''WWW-Authenticate: '' @ t) (show_challenge c)"

definition show_raw_header :: "raw_header \<Rightarrow> bytes" where
  "show_raw_header r = rh_name r @ '': '' @ rh_data r"

section \<open>Headers and start lines\<close>

fun show_header :: "header \<Rightarrow> (error, bytes) res" where
  "show_header (H_Accept x) = Ok (show_accept x)"
| "show_header (H_AcceptEncoding x) = Ok (show_accept_encoding x)"
| "show_header (H_AcceptLanguage x) = Ok (show_accept_language x)"
| "show_header (H_AlertInfo x) = Ok (show_alert_info x)"
| "show_header (H_Allow x) = Ok (show_allow x)"
| "show_header (H_AuthenticationInfo x) = Ok (show_authentication_info x)"
| "show_header (H_Authorization x) = show_authorization x"
| "show_header (H_CallId x) = Ok (show_call_id x)"
| "show_header (H_CallInfo x) = Ok (show_call_info x)"
| "show_header (H_Contact x) = Ok (show_contact x)"
| "show_header (H_ContentDisposition x) = Ok (show_content_disposition x)"
| "show_header (H_ContentEncoding x) = Ok (show_content_encoding x)"
| "show_header (H_ContentLanguage x) = Ok (show_content_language x)"
| "show_header (H_ContentLength x) = Ok (show_content_length x)"
| "show_header (H_ContentType x) = Ok (show_content_type x)"
| "show_header (H_CSeq x) = Ok (show_cseq x)"
| "show_header (H_Date x) = Ok (show_date x)"
| "show_header (H_ErrorInfo x) = Ok (show_error_info x)"
| "show_header (H_Expires x) = Ok (show_expires x)"
| "show_header (H_From x) = Ok (show_from x)"
| "show_header (H_InReplyTo x) = Ok (show_in_reply_to x)"
| "show_header (H_MaxForwards x) = Ok (show_max_forwards x)"
| "show_header (H_MinExpires x) = Ok (show_min_expires x)"
| "show_header (H_MimeVersion x) = Ok (show_mime_version x)"
| "show_header (H_Organization x) = Ok (show_organization x)"
| "show_header (H_Priority x) = Ok (show_priority x)"
| "show_header (H_ProxyAuthenticate x) = show_proxy_authenticate x"
| "show_header (H_ProxyAuthorization x) = show_proxy_authorization x"
| "show_header (H_ProxyRequire x) = Ok (show_proxy_require x)"
| "show_header (H_RetryAfter x) = Ok (show_retry_after x)"
| "show_header (H_Route x) = Ok (show_route x)"
| "show_header (H_RecordRoute x) = Ok (show_record_route x)"
| "show_header (H_ReplyTo x) = Ok (show_reply_to x)"
| "show_header (H_Require x) = Ok (show_require x)"
| "show_header (H_Server x) = Ok (show_server x)"
| "show_header (H_Subject x) = Ok (show_subject x)"
| "show_header (H_Supported x) = Ok (show_supported x)"
| "show_header (H_Timestamp x) = Ok (show_timestamp x)"
| "show_header (H_To x) = Ok (show_to x)"
| "show_header (H_Unsupported x) = Ok (show_unsupported x)"
| "show_header (H_UserAgent x) = Ok (show_user_agent x)"
| "show_header (H_Via x) = Ok (show_via x)"
| "show_header (H_Warning x) = Ok (show_warning x)"
| "show_header (H_WWWAuthenticate x) = show_www_authenticate x"
| "show_header (H_RawHeader x) = Ok (show_raw_header x)"

definition crlf :: bytes where
  "crlf = [CHR 0x0D, CHR 0x0A]"

fun show_headers :: "headers \<Rightarrow> (error, bytes) res" where
  "show_headers [] = Ok []"
| "show_headers (h # hs) =
     bind_res (show_header h) (\<lambda>t.
     bind_res (show_headers hs) (\<lambda>ts. Ok (t @ crlf @ ts)))"

definition show_request_line :: "request_line \<Rightarrow> bytes" where
  "show_request_line l = method_str (rl_method l) @ '' '' @ show_uri (rl_uri l) @ '' SIP/2.0'' @ crlf"

definition show_status_line :: "status_line \<Rightarrow> bytes" where
  "show_status_line l = ''SIP/2.0 '' @ show_word (as_u16 (sl_code l)) @ '' '' @ sl_reason l @ crlf"

lemma show_challenge_panic_iff:
  "show_challenge c = Panic \<longleftrightarrow> (\<exists>s ps. c = OtherChallenge s ps)"
  by (cases c) auto

lemma show_credential_panic_iff:
  "show_credential c = Panic \<longleftrightarrow> (\<exists>s ps. c = OtherCredential s ps)"
  by (cases c) auto

lemma map_ok_Err_iff [simp]: "map_ok f r = Err e \<longleftrightarrow> r = Err e"
  by (cases r) auto

lemma show_auth_neq [simp]:
  "show_challenge c \<noteq> Err e" "show_challenge c \<noteq> OutOfFuel"
  "show_credential d \<noteq> Err e" "show_credential d \<noteq> OutOfFuel"
  by (cases c; simp)+ (cases d; simp)+

lemma show_header_neq [simp]: "show_header h \<noteq> Err e" "show_header h \<noteq> OutOfFuel"
  by (cases h; simp add: show_authorization_def show_proxy_authenticate_def
      show_proxy_authorization_def show_www_authenticate_def)+

end
