(* ===== verification/Rust_Str.thy ===== *)
theory Rust_Str
  imports Rust_Std
begin

text \<open>\<open>str::trim\<close> (Unicode white space, in its UTF-8 form) and how UTF-8 validity behaves when a
  text is cut at an ASCII byte.\<close>

section \<open>Trimming\<close>

text \<open>The UTF-8 forms of the characters with the property \<open>White_Space\<close>.\<close>

definition is_ws_char :: "bytes \<Rightarrow> bool" where
  "is_ws_char bs =
     (case map byte_val bs of
        [a] \<Rightarrow> (9 \<le> a \<and> a \<le> 13) \<or> a = 32
      | [a, b] \<Rightarrow> a = 194 \<and> (b = 133 \<or> b = 160)
      | [a, b, c] \<Rightarrow>
          (a = 225 \<and> b = 154 \<and> c = 128) \<or>
          (a = 226 \<and> b = 128 \<and> ((128 \<le> c \<and> c \<le> 138) \<or> c = 168 \<or> c = 169 \<or> c = 175)) \<or>
          (a = 226 \<and> b = 129 \<and> c = 159) \<or>
          (a = 227 \<and> b = 128 \<and> c = 128)
      | _ \<Rightarrow> False)"

definition ws_len :: "(nat \<Rightarrow> bytes) \<Rightarrow> nat" where
  "ws_len piece =
     (if is_ws_char (piece 1) then 1
      else if is_ws_char (piece 2) then 2
      else if is_ws_char (piece 3) then 3
      else 0)"

lemma is_ws_char_Nil [simp]: "\<not> is_ws_char []"
  by (simp add: is_ws_char_def)

lemma ws_len_eq_0: "(\<And>k. \<not> is_ws_char (piece k)) \<Longrightarrow> ws_len piece = 0"
  by (simp add: ws_len_def)

lemma ws_len_Nil [simp]: "ws_len (\<lambda>k. []) = 0"
  by (simp add: ws_len_def)

function trim_start :: "bytes \<Rightarrow> bytes" where
  "trim_start bs =
     (let n = ws_len (\<lambda>k. take k bs) in if n = 0 then bs else trim_start (drop n bs))"
  by pat_completeness auto
termination
  by (relation "measure length") (auto intro!: diff_less intro: gr0I)

function trim_end :: "bytes \<Rightarrow> bytes" where
  "trim_end bs =
     (let n = ws_len (\<lambda>k. drop (length bs - k) bs)
      in if n = 0 then bs else trim_end (take (length bs - n) bs))"
  by pat_completeness auto
termination
  by (relation "measure length") (auto intro!: diff_less intro: gr0I)

declare trim_start.simps [simp del] trim_end.simps [simp del]

definition trim :: "bytes \<Rightarrow> bytes" where
  "trim bs = trim_end (trim_start bs)"

text \<open>A text that starts and ends with a byte that belongs to no white space is not changed.\<close>

lemma ws_char_first: "is_ws_char (b # bs) \<Longrightarrow> byte_val b \<in> {9..13} \<union> {32, 194, 225, 226, 227}"
  by (auto simp: is_ws_char_def split: list.splits)

lemma ws_char_last:
  "is_ws_char (bs @ [b]) \<Longrightarrow> byte_val b \<in> {9..13} \<union> {32, 159} \<union> {128..138} \<union> {160, 168, 169, 175}"
  by (cases bs; cases "tl bs"; cases "tl (tl bs)") (auto simp: is_ws_char_def split: list.splits)

lemma trim_start_keep: "is_ascii_digit b \<Longrightarrow> trim_start (b # bs) = b # bs"
proof -
  assume b: "is_ascii_digit b"
  have "\<not> is_ws_char (take k (b # bs))" for k
  proof (cases k)
    case (Suc j)
    then show ?thesis using ws_char_first [of b "take j bs"] b by (auto simp: is_ascii_digit_def)
  qed simp
  then show ?thesis by (subst trim_start.simps) (simp add: ws_len_eq_0)
qed

lemma trim_end_keep: "is_ascii_digit b \<Longrightarrow> trim_end (bs @ [b]) = bs @ [b]"
proof -
  assume b: "is_ascii_digit b"
  have "\<not> is_ws_char (drop (length (bs @ [b]) - k) (bs @ [b]))" for k
  proof (cases k)
    case (Suc j)
    have "drop (length (bs @ [b]) - k) (bs @ [b]) = drop (length bs - j) bs @ [b]" using Suc by simp
    then show ?thesis using ws_char_last [of "drop (length bs - j) bs" b] b
      by (auto simp: is_ascii_digit_def)
  qed simp
  then show ?thesis by (subst trim_end.simps) (simp only: ws_len_eq_0 Let_def simp_thms if_True)
qed

lemma trim_blank_number: "trim (CHR '' '' # show_nat n) = show_nat n"
proof -
  have d: "\<forall>b\<in>set (show_nat n). is_ascii_digit b" by (rule show_nat_digits)
  obtain b bs where s: "show_nat n = b # bs" by (cases "show_nat n") auto
  obtain cs c where e: "show_nat n = cs @ [c]" by (metis rev_exhaust show_nat_not_Nil)
  have "ws_len (\<lambda>k. take k (CHR '' '' # show_nat n)) = 1"
    by (simp add: ws_len_def is_ws_char_def byte_val_def)
  then have "trim_start (CHR '' '' # show_nat n) = trim_start (show_nat n)"
    by (subst trim_start.simps) simp
  also have "\<dots> = show_nat n" unfolding s by (rule trim_start_keep) (use d s in simp)
  finally show ?thesis
    unfolding trim_def using trim_end_keep [of c cs] d e by simp
qed

section \<open>Cutting UTF-8 at ASCII bytes\<close>

lemma not_cont_ascii: "is_ascii b \<Longrightarrow> \<not> is_cont b"
  by (simp add: is_ascii_def is_cont_def in_range_def)

lemma not_second_ascii: "is_ascii b \<Longrightarrow> \<not> second_ok3 a b" "is_ascii b \<Longrightarrow> \<not> second_ok4 a b"
  by (simp_all add: is_ascii_def second_ok3_def second_ok4_def in_range_def)

text \<open>Validity without the position bookkeeping of the error value.\<close>

fun utf8_ok :: "bytes \<Rightarrow> bool" where
  "utf8_ok [] = True"
| "utf8_ok (b # bs) =
     (if is_ascii b then utf8_ok bs
      else if in_range 194 223 b then
        (case bs of c # r \<Rightarrow> is_cont c \<and> utf8_ok r | _ \<Rightarrow> False)
      else if in_range 224 239 b then
        (case bs of c # d # r \<Rightarrow> second_ok3 b c \<and> is_cont d \<and> utf8_ok r | _ \<Rightarrow> False)
      else if in_range 240 244 b then
        (case bs of c # d # e # r \<Rightarrow> second_ok4 b c \<and> is_cont d \<and> is_cont e \<and> utf8_ok r | _ \<Rightarrow> False)
      else False)"

lemma utf8_check_ok: "utf8_check p bs = Ok () \<longleftrightarrow> utf8_ok bs"
  by (induction p bs rule: utf8_check.induct) (auto split: list.splits)

lemma utf8_ok_cut: "is_ascii b \<Longrightarrow> utf8_ok (xs @ b # ys) \<longleftrightarrow> utf8_ok xs \<and> utf8_ok ys"
proof (induction "length xs" arbitrary: xs rule: less_induct)
  case less
  note nc = not_cont_ascii [OF less.prems] not_second_ascii [OF less.prems]
  show ?case
  proof (cases xs)
    case (Cons c bs)
    have IH: "length r < length xs \<Longrightarrow> utf8_ok (r @ b # ys) = (utf8_ok r \<and> utf8_ok ys)" for r
      using less by blast
    consider "is_ascii c" | "\<not> is_ascii c" "in_range 194 223 c"
      | "\<not> is_ascii c" "\<not> in_range 194 223 c" "in_range 224 239 c"
      | "\<not> is_ascii c" "\<not> in_range 194 223 c" "\<not> in_range 224 239 c" by blast
    then show ?thesis
    proof cases
      case 1
      then show ?thesis using Cons IH [of bs] by simp
    next
      case 2
      then show ?thesis using Cons IH [of "tl bs"] nc by (cases bs) simp_all
    next
      case 3
      then show ?thesis using Cons IH [of "tl (tl bs)"] nc by (cases bs; cases "tl bs") (simp_all split: list.split)
    next
      case 4
      then show ?thesis
        using Cons IH [of "tl (tl (tl bs))"] nc by (cases bs; cases "tl bs"; cases "tl (tl bs)")
          (simp_all split: list.split)
    qed
  qed (use less.prems in simp)
qed

lemma valid_utf8_cut:
  "is_ascii b \<Longrightarrow> valid_utf8 (xs @ b # ys) \<longleftrightarrow> valid_utf8 xs \<and> valid_utf8 ys"
  by (simp add: valid_utf8_def utf8_check_ok utf8_ok_cut)

end
