(* ===== verification/Framing.thy ===== *)
theory Framing
  imports Header_Display Rust_Str
begin

text \<open>
  Messages on the wire: the encoder (\<open>rssip/src/transport/outgoing.rs\<close>) and the stream decoder
  (\<open>rssip/src/transport/decode.rs\<close>) that cuts a byte stream into messages and keep-alives.
\<close>

section \<open>Encoding\<close>

definition write_body :: "sip_body option \<Rightarrow> bytes" where
  "write_body body =
     (case body of
        Some b \<Rightarrow> ''Content-Length: '' @ show_nat (length b) @ crlf @ crlf @ b
      | None \<Rightarrow> ''Content-Length: 0'' @ crlf @ crlf)"

definition encode_response :: "response \<Rightarrow> (error, bytes) res" where
  "encode_response r =
     bind_res (show_headers (rs_headers r)) (\<lambda>hs.
       Ok (''SIP/2.0 '' @ show_word (as_u16 (sl_code (rs_line r))) @ '' '' @ sl_reason (rs_line r) @ crlf @
           hs @ write_body (rs_body r)))"

definition encode_request :: "request \<Rightarrow> (error, bytes) res" where
  "encode_request r =
     bind_res (show_headers (rq_headers r)) (\<lambda>hs.
       Ok (show_request_line (rq_line r) @ hs @ write_body (rq_body r)))"

section \<open>Decoding\<close>

definition KEEPALIVE_REQUEST :: bytes where
  "KEEPALIVE_REQUEST = [CHR 0x0D, CHR 0x0A, CHR 0x0D, CHR 0x0A]"

definition KEEPALIVE_RESPONSE :: bytes where
  "KEEPALIVE_RESPONSE = [CHR 0x0D, CHR 0x0A]"

definition MSG_HEADERS_END :: bytes where
  "MSG_HEADERS_END = [CHR 0x0D, CHR 0x0A, CHR 0x0D, CHR 0x0A]"

datatype framed_message = Complete bytes | KeepaliveRequest | KeepaliveResponse

datatype decode_error = InvalidData bytes | NotFound bytes

text \<open>\<open>windows(n).position(..)\<close>: the index of the first occurrence of a text.\<close>

fun find_window :: "bytes \<Rightarrow> bytes \<Rightarrow> nat option" where
  "find_window w [] = (if w = [] then Some 0 else None)"
| "find_window w (b # bs) =
     (if starts_with w (b # bs) then Some 0 else map_option Suc (find_window w bs))"

text \<open>The last Content-Length line whose value is a number wins.\<close>

fun content_length_of :: "bytes list \<Rightarrow> nat option \<Rightarrow> (decode_error, nat option) res" where
  "content_length_of [] found = Ok found"
| "content_length_of (line # lines) found =
     (case split_once (CHR '':'') line of (name, value) \<Rightarrow>
        if eq_ignore_ascii_case name ''Content-Length'' \<or> eq_ignore_ascii_case name ''l'' then
          (case value of
             None \<Rightarrow> content_length_of lines found
           | Some v \<Rightarrow>
               (case from_utf8 v of
                  Ok s \<Rightarrow>
                    (case parse_usize (trim s) of
                       Ok n \<Rightarrow> content_length_of lines (Some n)
                     | _ \<Rightarrow> content_length_of lines found)
                | _ \<Rightarrow> Err (InvalidData ''Invalid UTF-8 in Content-Length header'')))
        else content_length_of lines found)"

text \<open>\<open>StreamingDecoder::decode\<close>: the outcome and the bytes left in the buffer. \<open>usize\<close> is 64 bits
  wide; the sum of the header size and the announced length is checked arithmetic.\<close>

definition decode :: "bytes \<Rightarrow> (decode_error, framed_message option) res \<times> bytes" where
  "decode src =
    (if 4 \<le> length src \<and> take 4 src = KEEPALIVE_REQUEST then (Ok (Some KeepaliveRequest), drop 4 src)
     else if 2 \<le> length src \<and> take 2 src = KEEPALIVE_RESPONSE then (Ok (Some KeepaliveResponse), drop 2 src)
     else
       (case find_window MSG_HEADERS_END src of
          None \<Rightarrow> (Ok None, src)
        | Some hdr_end \<Rightarrow>
            let body_start = hdr_end + length MSG_HEADERS_END in
            (case content_length_of (split_at_byte (CHR 0x0A) (take hdr_end src)) None of
               Ok (Some c_len) \<Rightarrow>
                 let expected = body_start + c_len in
                 if 2 ^ 64 \<le> expected then (Panic, src)
                 else if length src < expected then (Ok None, src)
                 else (Ok (Some (Complete (take expected src))), drop expected src)
             | Ok None \<Rightarrow> (Err (NotFound ''Content-Length not found''), src)
             | Err e \<Rightarrow> (Err e, src)
             | Panic \<Rightarrow> (Panic, src)
             | OutOfFuel \<Rightarrow> (OutOfFuel, src))))"

section \<open>Cutting at lines\<close>

text \<open>A line the encoder can write: not empty, UTF-8, and without line breaks.\<close>

definition clean_line :: "bytes \<Rightarrow> bool" where
  "clean_line l \<longleftrightarrow> l \<noteq> [] \<and> CHR 0x0D \<notin> set l \<and> CHR 0x0A \<notin> set l \<and> valid_utf8 l"

lemma MSG_HEADERS_END_crlf: "MSG_HEADERS_END = crlf @ crlf"
  by (simp add: MSG_HEADERS_END_def crlf_def)

lemma starts_with_Cons: "starts_with (a # w) (b # bs) \<longleftrightarrow> a = b \<and> starts_with w bs"
  by (auto simp: starts_with_def)

lemma find_window_skip:
  "CHR 0x0D \<notin> set l \<Longrightarrow>
   find_window MSG_HEADERS_END (l @ xs) = map_option ((+) (length l)) (find_window MSG_HEADERS_END xs)"
proof (induction l)
  case Nil
  then show ?case by (simp add: option.map_ident)
next
  case (Cons b l)
  then show ?case
    by (simp add: MSG_HEADERS_END_def starts_with_Cons option.map_comp comp_def)
qed

lemma find_window_crlf:
  "x \<noteq> CHR 0x0D \<Longrightarrow>
   find_window MSG_HEADERS_END (crlf @ x # xs) = map_option ((+) 2) (find_window MSG_HEADERS_END (x # xs))"
  by (simp add: MSG_HEADERS_END_def crlf_def starts_with_Cons option.map_comp comp_def)

lemma find_window_lines:
  "ls \<noteq> [] \<Longrightarrow> \<forall>l\<in>set ls. clean_line l \<Longrightarrow>
   find_window MSG_HEADERS_END (join crlf ls @ MSG_HEADERS_END @ rest) = Some (length (join crlf ls))"
proof (induction crlf ls rule: join.induct)
  case (2 x)
  then show ?case
    by (simp add: clean_line_def find_window_skip)
       (simp add: MSG_HEADERS_END_def starts_with_Cons, simp add: starts_with_def)
next
  case (3 x y zs)
  obtain c cs where c: "join crlf (y # zs) = c # cs" "c \<noteq> CHR 0x0D"
    using 3 by (cases y; cases zs) (auto simp: clean_line_def)
  have "find_window MSG_HEADERS_END ((c # cs) @ MSG_HEADERS_END @ rest) = Some (length (c # cs))"
    using 3 c by (metis list.distinct(1) list.set_intros(2))
  then have "find_window MSG_HEADERS_END (crlf @ (c # cs) @ MSG_HEADERS_END @ rest) = Some (2 + length (c # cs))"
    using find_window_crlf [OF c(2), of "cs @ MSG_HEADERS_END @ rest"] by simp
  moreover have "find_window MSG_HEADERS_END (join crlf (x # y # zs) @ MSG_HEADERS_END @ rest) =
        map_option ((+) (length x)) (find_window MSG_HEADERS_END (crlf @ (c # cs) @ MSG_HEADERS_END @ rest))"
    using 3 c find_window_skip [of x "crlf @ (c # cs) @ MSG_HEADERS_END @ rest"] by (simp add: clean_line_def)
  ultimately show ?case using c by (simp add: crlf_def)
qed simp

lemma split_at_byte_none: "c \<notin> set xs \<Longrightarrow> split_at_byte c xs = [xs]"
  by (induction xs) auto

lemma split_at_byte_Cons: "c \<notin> set xs \<Longrightarrow> split_at_byte c (xs @ c # ys) = xs # split_at_byte c ys"
  by (induction xs) auto

lemma split_lines:
  "ls \<noteq> [] \<Longrightarrow> \<forall>l\<in>set ls. clean_line l \<Longrightarrow>
   split_at_byte (CHR 0x0A) (join crlf ls) = map (\<lambda>l. l @ [CHR 0x0D]) (butlast ls) @ [last ls]"
proof (induction crlf ls rule: join.induct)
  case (2 x)
  then show ?case by (simp add: split_at_byte_none clean_line_def)
next
  case (3 x y zs)
  have "split_at_byte (CHR 0x0A) ((x @ [CHR 0x0D]) @ CHR 0x0A # join crlf (y # zs)) =
        (x @ [CHR 0x0D]) # split_at_byte (CHR 0x0A) (join crlf (y # zs))"
    using 3 by (intro split_at_byte_Cons) (auto simp: clean_line_def)
  then show ?case using 3 by (simp add: crlf_def)
qed simp

section \<open>The announced length\<close>

lemma split_once_Some: "split_once c line = (name, Some v) \<Longrightarrow> line = name @ c # v"
proof -
  assume s: "split_once c line = (name, Some v)"
  then obtain d where "dropWhile (\<lambda>b. b \<noteq> c) line = d # v"
    by (auto simp: split_once_def split: list.splits)
  moreover from this have "d = c" by (metis (mono_tags) dropWhile_eq_Cons_conv)
  ultimately show ?thesis
    using s takeWhile_dropWhile_id [of "\<lambda>b. b \<noteq> c" line] by (simp add: split_once_def)
qed

text \<open>Lines of valid UTF-8 never stop the search, so the value of a last Content-Length line is
  the one found, whatever earlier lines say.\<close>

lemma content_length_last:
  assumes "n < 2 ^ 64"
  shows "\<forall>l\<in>set lines. valid_utf8 l \<Longrightarrow>
    content_length_of (lines @ [''Content-Length: '' @ show_nat n]) found = Ok (Some n)"
proof (induction lines arbitrary: found)
  case Nil
  have "split_once (CHR '':'') (''Content-Length: '' @ show_nat n) =
        (''Content-Length'', Some (CHR '' '' # show_nat n))"
    by (simp add: split_once_def)
  moreover have "from_utf8 (CHR '' '' # show_nat n) = Ok (CHR '' '' # show_nat n)"
  proof (rule from_utf8_ascii)
    have "is_ascii_digit b \<Longrightarrow> is_ascii b" for b by (simp add: is_ascii_digit_def is_ascii_def)
    then show "\<forall>b\<in>set (CHR '' '' # show_nat n). is_ascii b"
      using show_nat_digits [of n] by (auto simp: is_ascii_def byte_val_def)
  qed
  moreover have "parse_usize (show_nat n) = Ok n"
    using assms by (simp add: parse_usize_def parse_uint_show_nat)
  ultimately show ?case by (simp add: trim_blank_number)
next
  case (Cons l lines)
  obtain name val where s: "split_once (CHR '':'') l = (name, val)" by fastforce
  have rest: "content_length_of (lines @ [''Content-Length: '' @ show_nat n]) f = Ok (Some n)" for f
    using Cons by simp
  have "from_utf8 v = Ok v" if "val = Some v" for v
  proof -
    have "l = name @ CHR '':'' # v" using s that by (simp add: split_once_Some)
    moreover have "is_ascii (CHR '':'')" by (simp add: is_ascii_def byte_val_def)
    ultimately show ?thesis using Cons.prems valid_utf8_cut by (auto simp: from_utf8_Ok_iff)
  qed
  then show ?case
    using s rest by (auto split: option.split res.split)
qed

section \<open>Frames\<close>

text \<open>The shape of an encoded message: header lines, the last of which announces the length of
  the body, the empty line, the body.\<close>

definition frame_of :: "bytes list \<Rightarrow> bytes \<Rightarrow> bytes" where
  "frame_of ls body =
     join crlf (ls @ [''Content-Length: '' @ show_nat (length body)]) @ MSG_HEADERS_END @ body"

definition is_frame :: "bytes \<Rightarrow> bool" where
  "is_frame buf \<longleftrightarrow>
     length buf < 2 ^ 64 \<and>
     (\<exists>ls body. ls \<noteq> [] \<and> (\<forall>l\<in>set ls. clean_line l) \<and> buf = frame_of ls body)"

lemma clean_content_length: "clean_line (''Content-Length: '' @ show_nat n)"
proof -
  have "b \<in> set (show_nat n) \<Longrightarrow> is_ascii b \<and> b \<noteq> CHR 0x0D \<and> b \<noteq> CHR 0x0A" for b
    using show_nat_digits [of n] by (auto simp: is_ascii_digit_def is_ascii_def byte_val_def)
  then have a: "\<forall>b\<in>set (''Content-Length: '' @ show_nat n). is_ascii b \<and> b \<noteq> CHR 0x0D \<and> b \<noteq> CHR 0x0A"
    by (auto simp: is_ascii_def byte_val_def)
  then have "valid_utf8 (''Content-Length: '' @ show_nat n)" by (intro valid_utf8_ascii) blast
  then show ?thesis using a unfolding clean_line_def by blast
qed

lemma join_first: "ls \<noteq> [] \<Longrightarrow> clean_line (hd ls) \<Longrightarrow> \<exists>c cs. join crlf ls = c # cs \<and> c \<noteq> CHR 0x0D"
  by (cases ls; cases "tl ls"; cases "hd ls") (auto simp: clean_line_def)

lemma decode_frame_parts:
  assumes ls: "ls \<noteq> []" "\<forall>l\<in>set ls. clean_line l" and buf: "buf = frame_of ls body"
    and small: "length buf < 2 ^ 64"
  shows "find_window MSG_HEADERS_END (buf @ rest) =
           Some (length (join crlf (ls @ [''Content-Length: '' @ show_nat (length body)])))"
    and "content_length_of (split_at_byte (CHR 0x0A)
           (join crlf (ls @ [''Content-Length: '' @ show_nat (length body)]))) None = Ok (Some (length body))"
    and "\<exists>c cs. buf = c # cs \<and> c \<noteq> CHR 0x0D"
proof -
  let ?cl = "''Content-Length: '' @ show_nat (length body)"
  let ?all = "ls @ [?cl]"
  have all: "?all \<noteq> []" "\<forall>l\<in>set ?all. clean_line l" using ls clean_content_length by auto
  show "find_window MSG_HEADERS_END (buf @ rest) = Some (length (join crlf ?all))"
    using find_window_lines [OF all, of "body @ rest"] buf by (simp add: frame_of_def)
  have "length body < 2 ^ 64" using small buf by (simp add: frame_of_def)
  moreover have "\<forall>l\<in>set (map (\<lambda>l. l @ [CHR 0x0D]) ls). valid_utf8 l"
  proof -
    have "is_ascii (CHR 0x0D)" "valid_utf8 []" by (simp_all add: is_ascii_def byte_val_def valid_utf8_def)
    then show ?thesis using ls valid_utf8_cut [of "CHR 0x0D" _ "[]"] by (auto simp: clean_line_def)
  qed
  ultimately show "content_length_of (split_at_byte (CHR 0x0A) (join crlf ?all)) None = Ok (Some (length body))"
    using split_lines [OF all] content_length_last by simp
  show "\<exists>c cs. buf = c # cs \<and> c \<noteq> CHR 0x0D"
  proof -
    have "clean_line (hd ?all)" using ls by (cases ls) auto
    then show ?thesis using join_first [OF all(1)] buf by (fastforce simp: frame_of_def)
  qed
qed

lemma frame_length:
  "length (frame_of ls body) =
     length (join crlf (ls @ [''Content-Length: '' @ show_nat (length body)])) + 4 + length body"
  by (simp add: frame_of_def MSG_HEADERS_END_def)

lemma decode_frame: "is_frame buf \<Longrightarrow> decode (buf @ rest) = (Ok (Some (Complete buf)), rest)"
proof -
  assume f: "is_frame buf"
  then obtain ls body where ls: "ls \<noteq> []" "\<forall>l\<in>set ls. clean_line l" and buf: "buf = frame_of ls body"
    and small: "length buf < 2 ^ 64"
    by (auto simp: is_frame_def)
  note parts = decode_frame_parts [OF ls buf small]
  let ?h = "join crlf (ls @ [''Content-Length: '' @ show_nat (length body)])"
  obtain c cs where c: "buf = c # cs" "c \<noteq> CHR 0x0D" using parts(3) by blast
  have "take (length ?h) (buf @ rest) = ?h" using buf by (simp add: frame_of_def)
  moreover have "length ?h + length MSG_HEADERS_END + length body = length buf"
    using buf frame_length [of ls body] by (simp add: MSG_HEADERS_END_def)
  moreover have "take 4 (buf @ rest) \<noteq> KEEPALIVE_REQUEST" "take 2 (buf @ rest) \<noteq> KEEPALIVE_RESPONSE"
    using c by (simp_all add: KEEPALIVE_REQUEST_def KEEPALIVE_RESPONSE_def)
  ultimately show ?thesis
    using parts(1) [of rest] parts(2) small by (simp add: decode_def Let_def)
qed

lemma find_window_bound: "find_window w bs = Some h \<Longrightarrow> length w + h \<le> length bs"
proof (induction bs arbitrary: h)
  case (Cons b bs)
  then show ?case by (auto simp: starts_with_def split: if_splits) (metis length_Cons length_take min.bounded_iff order_refl)
qed (auto split: if_splits)

lemma find_window_append: "find_window w p = Some h \<Longrightarrow> find_window w (p @ q) = Some h"
proof (induction p arbitrary: h)
  case (Cons b bs)
  show ?case
  proof (cases "starts_with w (b # bs)")
    case True
    then have "starts_with w ((b # bs) @ q)"
      by (auto simp: starts_with_def) (metis append_Cons append_eq_conv_conj append_take_drop_id append.assoc)
    then show ?thesis using True Cons.prems by simp
  next
    case False
    then obtain h' where h': "find_window w bs = Some h'" "h = Suc h'" using Cons.prems by auto
    then have "length w \<le> length (b # bs)" using find_window_bound by fastforce
    then have "take (length w) ((b # bs) @ q) = take (length w) (b # bs)" by (simp only: take_append) simp
    then have "\<not> starts_with w ((b # bs) @ q)" using False unfolding starts_with_def by metis
    then show ?thesis using h' Cons.IH by simp
  qed
next
  case Nil
  then show ?case by (cases q) (auto simp: starts_with_def split: if_splits)
qed

lemma decode_partial:
  assumes "is_frame (p @ q)" and "q \<noteq> []"
  shows "decode p = (Ok None, p)"
proof -
  obtain ls body where ls: "ls \<noteq> []" "\<forall>l\<in>set ls. clean_line l" and buf: "p @ q = frame_of ls body"
    and small: "length (p @ q) < 2 ^ 64"
    using assms unfolding is_frame_def by blast
  note parts = decode_frame_parts [OF ls buf small]
  let ?h = "join crlf (ls @ [''Content-Length: '' @ show_nat (length body)])"
  obtain c cs where c: "p @ q = c # cs" "c \<noteq> CHR 0x0D" using parts(3) by blast
  have k: "\<not> (4 \<le> length p \<and> take 4 p = KEEPALIVE_REQUEST)" "\<not> (2 \<le> length p \<and> take 2 p = KEEPALIVE_RESPONSE)"
    using c by (cases p; auto simp: KEEPALIVE_REQUEST_def KEEPALIVE_RESPONSE_def)+
  show ?thesis
  proof (cases "find_window MSG_HEADERS_END p")
    case None
    then show ?thesis using k by (auto simp: decode_def)
  next
    case (Some h)
    then have h: "h = length ?h" using find_window_append [OF Some, of q] parts(1) [of "[]"] by simp
    have "length MSG_HEADERS_END + h \<le> length p" using find_window_bound [OF Some] .
    then have "take h p = take h (p @ q)" by simp
    also have "\<dots> = ?h" unfolding buf frame_of_def h by simp
    finally have "take h p = ?h" .
    moreover have "h + length MSG_HEADERS_END + length body = length (p @ q)"
      using buf h frame_length [of ls body] by (simp add: MSG_HEADERS_END_def)
    ultimately show ?thesis
      using Some k parts(2) h small assms(2) by (auto simp: decode_def Let_def)
  qed
qed

section \<open>A stream of frames\<close>

text \<open>
  What a framed reader gets from its decoder: it decodes as long as messages come out and keeps
  the rest for more input. The laws of a decoder for a set of frames, and what they give.
\<close>

fun decode_all :: "(bytes \<Rightarrow> ('e, 'm option) res \<times> bytes) \<Rightarrow> nat \<Rightarrow> bytes \<Rightarrow> 'm list \<times> bytes" where
  "decode_all dec 0 buf = ([], buf)"
| "decode_all dec (Suc n) buf =
     (case dec buf of
        (Ok (Some m), rest) \<Rightarrow> (case decode_all dec n rest of (ms, r) \<Rightarrow> (m # ms, r))
      | (_, rest) \<Rightarrow> ([], rest))"

text \<open>The chunks of a stream as they arrive: each is put behind what the ones before it left over.\<close>

fun feed :: "(bytes \<Rightarrow> ('e, 'm option) res \<times> bytes) \<Rightarrow> bytes \<Rightarrow> bytes list \<Rightarrow> 'm list \<times> bytes" where
  "feed dec buf [] = ([], buf)"
| "feed dec buf (c # cs) =
     (case decode_all dec (Suc (length (buf @ c))) (buf @ c) of
        (ms, rest) \<Rightarrow> (case feed dec rest cs of (ms', r) \<Rightarrow> (ms @ ms', r)))"

locale frame_decoder =
  fixes dec :: "bytes \<Rightarrow> ('e, 'm option) res \<times> bytes"
    and is_frm :: "bytes \<Rightarrow> bool"
    and msg :: "bytes \<Rightarrow> 'm"
  assumes whole: "is_frm f \<Longrightarrow> dec (f @ rest) = (Ok (Some (msg f)), rest)"
    and partial: "is_frm (p @ q) \<Longrightarrow> q \<noteq> [] \<Longrightarrow> dec p = (Ok None, p)"
begin

lemma stream:
  "\<forall>f\<in>set fs. is_frm f \<Longrightarrow> is_frm (p @ q) \<Longrightarrow> q \<noteq> [] \<Longrightarrow> length fs < n \<Longrightarrow>
   decode_all dec n (concat fs @ p) = (map msg fs, p)"
proof (induction fs arbitrary: n)
  case Nil
  then obtain m where "n = Suc m" by (cases n) auto
  then show ?case using partial [OF Nil.prems(2,3)] by simp
next
  case (Cons f fs)
  then obtain m where m: "n = Suc m" "length fs < m" by (cases n) auto
  have "dec (f @ concat fs @ p) = (Ok (Some (msg f)), concat fs @ p)"
    using Cons.prems by (simp add: whole)
  then show ?case using Cons.IH [OF _ Cons.prems(2,3) m(2)] Cons.prems m by simp
qed

text \<open>Wherever a stream is cut, what is before the cut is some of its frames and the beginning of the
  next.\<close>

lemma cut_stream:
  assumes "is_frm (p @ q)" and "q \<noteq> []"
  shows "\<forall>f\<in>set fs. is_frm f \<Longrightarrow> xs @ ys = concat fs @ p \<Longrightarrow>
    \<exists>as bs r s. fs = as @ bs \<and> xs = concat as @ r \<and> r @ ys = concat bs @ p \<and> is_frm (r @ s) \<and> s \<noteq> []"
proof (induction fs arbitrary: xs)
  case Nil
  then show ?case
    using assms by (intro exI [of _ "[]"] exI [of _ xs] exI [of _ "ys @ q"]) (simp flip: append_assoc)
next
  case (Cons f fs)
  show ?case
  proof (cases "length xs < length f")
    case True
    then obtain s where "f = xs @ s" "s \<noteq> []"
      using Cons.prems(2) by (auto simp: append_eq_append_conv2)
    then show ?thesis
      using Cons.prems by (intro exI [of _ "[]"] exI [of _ "f # fs"] exI [of _ xs] exI [of _ s]) simp
  next
    case False
    define xs' where "xs' = drop (length f) xs"
    have "take (length f) (xs @ ys) = f" using Cons.prems(2) by simp
    then have xs: "xs = f @ xs'" using False by (simp add: xs'_def) (metis append_take_drop_id)
    then have "xs' @ ys = concat fs @ p" using Cons.prems(2) by simp
    with Cons.IH [of xs'] Cons.prems(1) obtain as bs r s where
      "fs = as @ bs" "xs' = concat as @ r" "r @ ys = concat bs @ p" "is_frm (r @ s)" "s \<noteq> []" by auto
    then show ?thesis
      using xs by (intro exI [of _ "f # as"] exI [of _ bs] exI [of _ r] exI [of _ s]) simp
  qed
qed

lemma frames_not_empty:
  assumes "is_frm (p @ q)" and "q \<noteq> []" and "\<forall>f\<in>set fs. is_frm f"
  shows "length fs \<le> length (concat fs)"
proof -
  have "f \<noteq> []" if "is_frm f" for f
    using partial [of "[]" "p @ q"] whole [of f "[]"] that assms(1,2) by auto
  with assms(3) show ?thesis by (induction fs) (fastforce simp: neq_Nil_conv)+
qed

text \<open>So the messages are the frames of the whole stream, and where it was cut does not matter.\<close>

lemma chunks:
  assumes "is_frm (p @ q)" and "q \<noteq> []"
  shows "\<forall>f\<in>set fs. is_frm f \<Longrightarrow> is_frm (buf @ s) \<Longrightarrow> s \<noteq> [] \<Longrightarrow> buf @ concat cs = concat fs @ p \<Longrightarrow>
    feed dec buf cs = (map msg fs, p)"
proof (induction cs arbitrary: fs buf s)
  case Nil
  have "fs = []"
  proof (rule ccontr)
    assume "fs \<noteq> []"
    then obtain f gs where "fs = f # gs" by (cases fs) auto
    then show False using whole [of f "concat gs @ p"] partial [OF Nil.prems(2,3)] Nil.prems by simp
  qed
  then show ?case using Nil.prems by simp
next
  case (Cons c cs)
  obtain as bs r s' where cut: "fs = as @ bs" "buf @ c = concat as @ r" "r @ concat cs = concat bs @ p"
    "is_frm (r @ s')" "s' \<noteq> []"
    using cut_stream [OF assms Cons.prems(1), of "buf @ c" "concat cs"] Cons.prems(4) by auto
  have "length as < Suc (length (buf @ c))"
    unfolding cut(2) using frames_not_empty [OF assms, of as] Cons.prems(1) cut(1) by simp
  then have "decode_all dec (Suc (length (buf @ c))) (buf @ c) = (map msg as, r)"
    unfolding cut(2) using Cons.prems(1) cut by (intro stream) auto
  moreover have "feed dec r cs = (map msg bs, p)"
    using Cons.prems(1) cut by (intro Cons.IH) auto
  ultimately show ?case using cut(1) by (simp del: decode_all.simps)
qed

end

interpretation sip_stream: frame_decoder decode is_frame Complete
  by unfold_locales (use decode_frame decode_partial in auto)

section \<open>What the encoder writes is a frame\<close>

lemma show_headers_lines:
  "show_headers hs = Ok ts \<Longrightarrow>
   \<exists>ls. ts = concat (map (\<lambda>l. l @ crlf) ls) \<and> list_all2 (\<lambda>h l. show_header h = Ok l) hs ls"
proof (induction hs arbitrary: ts)
  case (Cons h hs)
  then obtain t us where t: "show_header h = Ok t" "show_headers hs = Ok us" "ts = t @ crlf @ us"
    by (auto simp: bind_res_Ok_iff)
  from Cons.IH [OF t(2)] obtain ls where "us = concat (map (\<lambda>l. l @ crlf) ls)"
    "list_all2 (\<lambda>h l. show_header h = Ok l) hs ls" by blast
  then show ?case using t by (intro exI [of _ "t # ls"]) simp
qed simp

lemma join_snoc: "join crlf (ls @ [x]) = concat (map (\<lambda>l. l @ crlf) ls) @ x"
proof (induction ls)
  case (Cons l ls)
  then show ?case by (cases ls) simp_all
qed simp

lemma write_body_frame:
  "write_body b = ''Content-Length: '' @ show_nat (length (case b of Some x \<Rightarrow> x | None \<Rightarrow> [])) @
     MSG_HEADERS_END @ (case b of Some x \<Rightarrow> x | None \<Rightarrow> [])"
proof -
  have "show_nat 0 = ''0''" by code_simp
  then show ?thesis by (simp add: write_body_def MSG_HEADERS_END_crlf split: option.split)
qed

text \<open>The header lines of a message are clean: a hypothesis on the texts the caller put in.\<close>

definition clean_headers :: "headers \<Rightarrow> bool" where
  "clean_headers hs \<longleftrightarrow> (\<forall>h\<in>set hs. case show_header h of Ok l \<Rightarrow> clean_line l | _ \<Rightarrow> False)"

lemma encoded_is_frame:
  assumes "clean_line start" and "clean_headers hs" and "show_headers hs = Ok ts"
    and "buf = start @ crlf @ ts @ write_body b" and "length buf < 2 ^ 64"
  shows "is_frame buf"
proof -
  obtain ls where ls: "ts = concat (map (\<lambda>l. l @ crlf) ls)"
    and all: "list_all2 (\<lambda>h l. show_header h = Ok l) hs ls"
    using show_headers_lines [OF assms(3)] by blast
  have "\<forall>l\<in>set ls. clean_line l"
    using all assms(2) by (induction rule: list_all2_induct) (auto simp: clean_headers_def)
  moreover have "buf = frame_of (start # ls) (case b of Some x \<Rightarrow> x | None \<Rightarrow> [])"
    using assms(4) ls join_snoc [of "start # ls"] by (simp add: frame_of_def write_body_frame)
  ultimately show ?thesis
    using assms(1,5) unfolding is_frame_def
    by (intro conjI exI [of _ "start # ls"] exI [of _ "case b of Some x \<Rightarrow> x | None \<Rightarrow> []"]) auto
qed

section \<open>Properties\<close>

lemma ascii_text: "\<forall>b\<in>set (show_nat n). is_ascii b \<and> b \<noteq> CHR 0x0D \<and> b \<noteq> CHR 0x0A"
proof -
  have "is_ascii_digit b \<Longrightarrow> is_ascii b \<and> b \<noteq> CHR 0x0D \<and> b \<noteq> CHR 0x0A" for b
    by (auto simp: is_ascii_digit_def is_ascii_def byte_val_def)
  then show ?thesis using show_nat_digits by blast
qed

lemma clean_status_start:
  assumes "CHR 0x0D \<notin> set r" and "CHR 0x0A \<notin> set r" and "valid_utf8 r"
  shows "clean_line (''SIP/2.0 '' @ show_nat n @ '' '' @ r)"
proof -
  have "\<forall>b\<in>set (''SIP/2.0 '' @ show_nat n). is_ascii b \<and> b \<noteq> CHR 0x0D \<and> b \<noteq> CHR 0x0A"
    using ascii_text by (auto simp: is_ascii_def byte_val_def)
  then have "valid_utf8 (''SIP/2.0 '' @ show_nat n)" and
    b: "CHR 0x0D \<notin> set (''SIP/2.0 '' @ show_nat n)" "CHR 0x0A \<notin> set (''SIP/2.0 '' @ show_nat n)"
    by (blast intro: valid_utf8_ascii)+
  moreover have "is_ascii (CHR '' '')" by (simp add: is_ascii_def byte_val_def)
  ultimately have "valid_utf8 ((''SIP/2.0 '' @ show_nat n) @ CHR '' '' # r)"
    using assms(3) by (subst valid_utf8_cut) auto
  then show ?thesis using assms(1,2) b by (simp add: clean_line_def)
qed

text \<open>An encoded response, followed by anything on the stream, is decoded as exactly that
  message and the rest stays in the buffer: the encoder's Content-Length is the one the decoder
  uses, whatever Content-Length headers the message carried before it.\<close>

theorem decode_encoded_response:
  assumes "encode_response r = Ok buf" and "clean_headers (rs_headers r)"
    and "CHR 0x0D \<notin> set (sl_reason (rs_line r))" and "CHR 0x0A \<notin> set (sl_reason (rs_line r))"
    and "valid_utf8 (sl_reason (rs_line r))" and "length buf < 2 ^ 64"
  shows "decode (buf @ rest) = (Ok (Some (Complete buf)), rest)"
proof -
  let ?start = "''SIP/2.0 '' @ show_word (as_u16 (sl_code (rs_line r))) @ '' '' @ sl_reason (rs_line r)"
  obtain ts where ts: "show_headers (rs_headers r) = Ok ts"
    and buf: "buf = ?start @ crlf @ ts @ write_body (rs_body r)"
    using assms(1) by (auto simp: encode_response_def bind_res_Ok_iff)
  have "is_frame buf"
    using encoded_is_frame [OF _ assms(2) ts buf assms(6)] clean_status_start [OF assms(3-5)] by blast
  then show ?thesis by (rule decode_frame)
qed

theorem decode_encoded_response_witness:
  "decode ((''SIP/2.0 180 Ringing'' @ crlf @ ''Call-ID: a'' @ crlf @ ''Content-Length: 2'' @ crlf @ crlf @ ''hi'') @ ''SIP'') =
   (Ok (Some (Complete (''SIP/2.0 180 Ringing'' @ crlf @ ''Call-ID: a'' @ crlf @ ''Content-Length: 2'' @ crlf @ crlf @ ''hi''))), ''SIP'')"
proof -
  let ?r = "\<lparr>rs_line = \<lparr>sl_code = SC_Ringing, sl_reason = ''Ringing''\<rparr>, rs_headers = [H_CallId ''a''], rs_body = Some ''hi''\<rparr>"
  have "show_nat 180 = ''180''" "show_nat (Suc (Suc 0)) = ''2''" by code_simp+
  then have "encode_response ?r = Ok (''SIP/2.0 180 Ringing'' @ crlf @ ''Call-ID: a'' @ crlf @ ''Content-Length: 2'' @ crlf @ crlf @ ''hi'')"
    by (simp add: encode_response_def show_call_id_def write_body_def crlf_def)
  moreover have "valid_utf8 ''Ringing''" "valid_utf8 ''Call-ID: a''" by code_simp+
  ultimately show ?thesis
    using decode_encoded_response [of ?r _ "''SIP''"]
    by (simp add: clean_headers_def clean_line_def show_call_id_def crlf_def)
qed

definition sample_frame :: bytes where
  "sample_frame = ''A'' @ crlf @ ''Content-Length: 0'' @ crlf @ crlf"

lemma sample_is_frame: "is_frame sample_frame"
proof -
  have "show_nat 0 = ''0''" by code_simp
  moreover have "valid_utf8 ''A''" by code_simp
  ultimately show ?thesis
    unfolding is_frame_def
    by (intro conjI exI [of _ "[''A'']"] exI [of _ "[]"])
       (auto simp: sample_frame_def frame_of_def clean_line_def crlf_def MSG_HEADERS_END_def)
qed

text \<open>C9: A stream of messages that arrives in chunks, cut anywhere, is put together into exactly those
  messages, in order, and the beginning of a further message at its end stays in the buffer untouched
  until more bytes arrive.\<close>

theorem stream_reassembly:
  assumes "\<forall>f\<in>set fs. is_frame f" and "is_frame (p @ q)" and "q \<noteq> []"
    and "concat chunks = concat fs @ p"
  shows "feed decode [] chunks = (map Complete fs, p)"
  using assms by (intro sip_stream.chunks [of p q fs "[]" "p @ q"]) auto

theorem stream_reassembly_witness:
  "feed decode [] [''A'' @ crlf @ ''Cont'', ''ent-Length: 0'' @ crlf @ crlf @ ''A''] = ([Complete sample_frame], ''A'')"
  using stream_reassembly [of "[sample_frame]" "''A''" "crlf @ ''Content-Length: 0'' @ crlf @ crlf"
      "[''A'' @ crlf @ ''Cont'', ''ent-Length: 0'' @ crlf @ crlf @ ''A'']"] sample_is_frame
  by (simp add: sample_frame_def del: feed.simps)



end
