(* ===== verification/Transport.thy ===== *)
theory Transport
  imports Framing "HOL-Library.AList"
begin

text \<open>
  The transport layer: incoming messages and their mandatory headers
  (\<open>rssip/src/transport/incoming.rs\<close>), the registry of transports, their selection and the
  processing of packets (\<open>rssip/src/transport/mod.rs\<close>), the read loops of the TCP and UDP
  transports, and name resolution (\<open>rssip/src/core/resolver.rs\<close>).

  What the network does is an input: the outcome of the next sends is a list in the world, and
  connecting and looking up names are functions passed in. The registry is a hash map behind a
  lock; the model is an association list without repeated keys, whose order stands for the
  unspecified iteration order of the hash map.
\<close>

section \<open>Transports\<close>

text \<open>Any implementation of the trait \<open>SipTransport\<close>, by what its methods answer; \<open>tp_id\<close> is the
  identity of the shared instance.\<close>

record transport =
  tp_id :: nat
  tp_protocol :: protocol
  tp_local :: socket_addr
  tp_remote :: "socket_addr option"
  tp_reliable :: bool
  tp_secure :: bool

definition tp_is_unreliable :: "transport \<Rightarrow> bool" where
  "tp_is_unreliable t \<longleftrightarrow> \<not> tp_reliable t"

definition udp_transport :: "nat \<Rightarrow> socket_addr \<Rightarrow> transport" where
  "udp_transport i a =
     \<lparr>tp_id = i, tp_protocol = Udp, tp_local = a, tp_remote = None, tp_reliable = False, tp_secure = False\<rparr>"

definition tcp_transport :: "nat \<Rightarrow> socket_addr \<Rightarrow> socket_addr \<Rightarrow> transport" where
  "tcp_transport i a peer =
     \<lparr>tp_id = i, tp_protocol = Tcp, tp_local = a, tp_remote = Some peer, tp_reliable = True, tp_secure = False\<rparr>"

definition ws_transport :: "nat \<Rightarrow> socket_addr \<Rightarrow> socket_addr \<Rightarrow> transport" where
  "ws_transport i a peer =
     \<lparr>tp_id = i, tp_protocol = Ws, tp_local = a, tp_remote = Some peer, tp_reliable = True, tp_secure = False\<rparr>"

record transport_key =
  tk_addr :: socket_addr
  tk_protocol :: protocol

definition key_of_transport :: "transport \<Rightarrow> transport_key" where
  "key_of_transport t = \<lparr>tk_addr = tp_local t, tk_protocol = tp_protocol t\<rparr>"

section \<open>The world\<close>

text \<open>The clock in milliseconds, the sends made so far with their times, the latest last, and
  whether the next ones will succeed (all do once the list has run out).\<close>

record world =
  w_now :: nat
  w_sent :: "(nat \<times> transport \<times> bytes \<times> socket_addr) list"
  w_outcomes :: "bool list"

definition new_world :: world where
  "new_world = \<lparr>w_now = 0, w_sent = [], w_outcomes = []\<rparr>"

definition send_msg :: "transport \<Rightarrow> bytes \<Rightarrow> socket_addr \<Rightarrow> world \<Rightarrow> bool \<times> world" where
  "send_msg t buf addr w =
     (case w_outcomes w of [] \<Rightarrow> True | b # _ \<Rightarrow> b,
      w\<lparr>w_sent := w_sent w @ [(w_now w, t, buf, addr)], w_outcomes := tl (w_outcomes w)\<rparr>)"

section \<open>Incoming messages\<close>

record mandatory_headers =
  mh_via :: via
  mh_from :: from_header
  mh_to :: to_header
  mh_call_id :: bytes
  mh_cseq :: cseq

record incoming_info =
  ii_mandatory :: mandatory_headers
  ii_transport :: transport
  ii_source :: socket_addr
  ii_data :: bytes

record incoming_request =
  ir_request :: request
  ir_info :: incoming_info

record incoming_response =
  is_response :: response
  is_info :: incoming_info

datatype incoming_message = IncomingRequest incoming_request | IncomingResponse incoming_response

definition into_headers :: "mandatory_headers \<Rightarrow> headers" where
  "into_headers m =
     [H_Via (mh_via m), H_From (mh_from m), H_To (mh_to m), H_CallId (mh_call_id m), H_CSeq (mh_cseq m)]"

definition required :: "'a option \<Rightarrow> bytes \<Rightarrow> (error, 'a) res" where
  "required h name = ok_or h (E_MissingHeader name)"

text \<open>The variables of the loop over the headers.\<close>

record mandatory_acc =
  ma_via :: "via option"
  ma_cseq :: "cseq option"
  ma_from :: "from_header option"
  ma_call_id :: "bytes option"
  ma_to :: "to_header option"

definition empty_acc :: mandatory_acc where
  "empty_acc = \<lparr>ma_via = None, ma_cseq = None, ma_from = None, ma_call_id = None, ma_to = None\<rparr>"

definition collect_mandatory :: "header \<Rightarrow> mandatory_acc \<Rightarrow> mandatory_acc" where
  "collect_mandatory h a =
     (case h of
        H_Via v \<Rightarrow> if ma_via a = None then a\<lparr>ma_via := Some v\<rparr> else a
      | H_From f \<Rightarrow> a\<lparr>ma_from := Some f\<rparr>
      | H_To t \<Rightarrow> a\<lparr>ma_to := Some t\<rparr>
      | H_CallId c \<Rightarrow> a\<lparr>ma_call_id := Some c\<rparr>
      | H_CSeq c \<Rightarrow> a\<lparr>ma_cseq := Some c\<rparr>
      | _ \<Rightarrow> a)"

definition mandatory_of_headers :: "headers \<Rightarrow> (error, mandatory_headers) res" where
  "mandatory_of_headers hs =
     (let a = fold collect_mandatory hs empty_acc in
      bind_res (required (ma_via a) ''Via'') (\<lambda>v.
      bind_res (required (ma_from a) ''From'') (\<lambda>f.
      bind_res (required (ma_to a) ''To'') (\<lambda>t.
      bind_res (required (ma_call_id a) ''Call-ID'') (\<lambda>c.
      bind_res (required (ma_cseq a) ''CSeq'') (\<lambda>s.
        Ok \<lparr>mh_via = v, mh_from = f, mh_to = t, mh_call_id = c, mh_cseq = s\<rparr>))))))"

section \<open>The registry\<close>

type_synonym registry = "(transport_key \<times> transport) list"

definition register_transport :: "transport_key \<Rightarrow> transport \<Rightarrow> registry \<Rightarrow> registry" where
  "register_transport k v m = AList.update k v m"

definition remove_transport :: "transport_key \<Rightarrow> registry \<Rightarrow> registry" where
  "remove_transport k m = AList.delete k m"

definition get_transport :: "registry \<Rightarrow> transport_key \<Rightarrow> transport option" where
  "get_transport m key =
     (case map_of m key of
        Some t \<Rightarrow> Some t
      | None \<Rightarrow>
          if proto_is_unreliable (tk_protocol key) then
            find (\<lambda>t. tp_protocol t = tk_protocol key \<and>
                      is_ipv4 (sa_ip (tp_local t)) = is_ipv4 (sa_ip (tk_addr key))) (map snd m)
          else None)"

definition find_transport_by_protocol :: "registry \<Rightarrow> protocol \<Rightarrow> transport option" where
  "find_transport_by_protocol m p = find (\<lambda>t. tp_protocol t = p) (map snd m)"

definition show_socket_addr :: "socket_addr \<Rightarrow> bytes" where
  "show_socket_addr a =
     (if is_ipv4 (sa_ip a) then show_ip (sa_ip a) else ''['' @ show_ip (sa_ip a) @ '']'') @
     '':'' @ show_word (sa_port a)"

text \<open>The two ways to open a connection, as the network answers them.\<close>

record connector =
  cn_tcp :: "socket_addr \<Rightarrow> (error, transport) res"
  cn_ws :: "bytes \<Rightarrow> (error, transport) res"

text \<open>A TCP connection is registered before it is returned; a WebSocket registers itself when
  the task of \<open>handle_ws_connection\<close> starts.\<close>

definition connect_with :: "(error, transport) res \<Rightarrow> registry \<Rightarrow> (error, transport) res \<times> registry" where
  "connect_with r m =
     (r, case r of Ok t \<Rightarrow> register_transport (key_of_transport t) t m | _ \<Rightarrow> m)"

definition select_transport ::
  "connector \<Rightarrow> registry \<Rightarrow> socket_addr \<Rightarrow> protocol \<Rightarrow> (error, transport) res \<times> registry" where
  "select_transport cn m addr proto =
     (case get_transport m \<lparr>tk_addr = addr, tk_protocol = proto\<rparr> of
        Some t \<Rightarrow> (Ok t, m)
      | None \<Rightarrow>
          if proto = Tcp then connect_with (cn_tcp cn addr) m
          else if proto = Ws then (cn_ws cn (''ws://'' @ show_socket_addr addr), m)
          else if proto = Wss then (cn_ws cn (''wss://'' @ show_socket_addr addr), m)
          else (Err E_UnsupportedTransport, m))"

section \<open>Resolution\<close>

record sip_host =
  sh_host_port :: host_port
  sh_protocol :: "protocol option"

record lookup_address =
  la_addr :: socket_addr
  la_protocol :: protocol

datatype 'a one_or_more = One 'a | More "'a list"

fun oom_list :: "'a one_or_more \<Rightarrow> 'a list" where
  "oom_list (One x) = [x]"
| "oom_list (More xs) = xs"

text \<open>\<open>DefaultResolver::resolve\<close>; \<open>lookup\<close> is the system's name lookup.\<close>

definition resolve ::
  "(bytes \<Rightarrow> (error, socket_addr list) res) \<Rightarrow> sip_host \<Rightarrow> (error, lookup_address one_or_more) res" where
  "resolve lookup target =
     (let proto = (case sh_protocol target of Some p \<Rightarrow> p | None \<Rightarrow> Udp);
          port = (case hp_port (sh_host_port target) of Some p \<Rightarrow> p | None \<Rightarrow> default_port proto) in
      bind_res
        (case hp_host (sh_host_port target) of
           HostName n \<Rightarrow>
             bind_res (lookup (n @ '':'' @ show_word port)) (\<lambda>addrs.
               case addrs of
                 [] \<Rightarrow> Err (E_Io (''No address found for '' @ [CHR 0x27] @ n @ [CHR 0x27]))
               | a # _ \<Rightarrow> Ok a)
         | HostIp ip \<Rightarrow> Ok \<lparr>sa_ip = ip, sa_port = port\<rparr>)
        (\<lambda>a. Ok (One \<lparr>la_addr = a, la_protocol = proto\<rparr>)))"

definition sip_host_of_uri :: "uri \<Rightarrow> sip_host" where
  "sip_host_of_uri u =
     \<lparr>sh_host_port =
        \<lparr>hp_host = (case u_maddr_param u of Some h \<Rightarrow> h | None \<Rightarrow> hp_host (u_host_port u)),
         hp_port = hp_port (u_host_port u)\<rparr>,
      sh_protocol =
        Some (case u_transport_param u of Some t \<Rightarrow> t | None \<Rightarrow> from_scheme (u_scheme u))\<rparr>"

definition resolve_uri ::
  "(bytes \<Rightarrow> (error, socket_addr list) res) \<Rightarrow> uri \<Rightarrow> (error, lookup_address one_or_more) res" where
  "resolve_uri lookup u = resolve lookup (sip_host_of_uri u)"

section \<open>Packets\<close>

text \<open>A packet becomes an incoming message, or it is dropped (\<open>Ok None\<close>) when it does not parse or
  lacks a mandatory header. The source address is recorded in the extracted topmost Via.\<close>

definition stamp_source :: "socket_addr \<Rightarrow> mandatory_headers \<Rightarrow> mandatory_headers" where
  "stamp_source source m = m\<lparr>mh_via := (mh_via m)\<lparr>v_received := Some (sa_ip source)\<rparr>\<rparr>"

definition incoming_of ::
  "transport \<Rightarrow> socket_addr \<Rightarrow> bytes \<Rightarrow> sip_message \<Rightarrow> mandatory_headers \<Rightarrow> incoming_message" where
  "incoming_of t source data msg m =
     (let info = \<lparr>ii_mandatory = stamp_source source m, ii_transport = t, ii_source = source, ii_data = data\<rparr>
      in case msg of
           SipRequest r \<Rightarrow> IncomingRequest \<lparr>ir_request = r, ir_info = info\<rparr>
         | SipResponse r \<Rightarrow> IncomingResponse \<lparr>is_response = r, is_info = info\<rparr>)"

definition process_message ::
  "transport \<Rightarrow> socket_addr \<Rightarrow> bytes \<Rightarrow> (error, incoming_message option) res" where
  "process_message t source data =
     (case sip_parse data of
        Ok msg \<Rightarrow>
          (case mandatory_of_headers (msg_headers msg) of
             Ok m \<Rightarrow> Ok (Some (incoming_of t source data msg m))
           | _ \<Rightarrow> Ok None)
      | Err e \<Rightarrow> Ok None
      | Panic \<Rightarrow> Panic
      | OutOfFuel \<Rightarrow> OutOfFuel)"

datatype datagram_action = Ignore | AnswerKeepalive | Deliver bytes

text \<open>One datagram of at most 4000 bytes, as the UDP receive loop treats it.\<close>

definition receive_datagram :: "bytes \<Rightarrow> datagram_action" where
  "receive_datagram datagram =
     (let d = take 4000 datagram in
      if length d = 0 then Ignore
      else if d = KEEPALIVE_REQUEST then AnswerKeepalive
      else if d = KEEPALIVE_RESPONSE then Ignore
      else Deliver d)"

text \<open>The TCP read loop over what the framed reader yields (a frame or an error; the end of the
  list is the end of the connection): the packets delivered, the outcome, the registry and the
  world.\<close>

fun tcp_read ::
  "transport \<Rightarrow> socket_addr \<Rightarrow> (decode_error + framed_message) list \<Rightarrow> registry \<Rightarrow> world \<Rightarrow>
   bytes list \<times> (error, unit) res \<times> registry \<times> world" where
  "tcp_read t peer [] m w = ([], Ok (), remove_transport (key_of_transport t) m, w)"
| "tcp_read t peer (Inr (Complete data) # items) m w =
     (case tcp_read t peer items m w of (ds, r, m', w') \<Rightarrow> (data # ds, r, m', w'))"
| "tcp_read t peer (Inr KeepaliveRequest # items) m w =
     (case send_msg t KEEPALIVE_RESPONSE peer w of (ok, w') \<Rightarrow>
        if ok then tcp_read t peer items m w'
        else ([], Err (E_Io ''send failed''), m, w'))"
| "tcp_read t peer (Inr KeepaliveResponse # items) m w = tcp_read t peer items m w"
| "tcp_read t peer (Inl e # items) m w =
     ([], Err (E_Io (case e of InvalidData s \<Rightarrow> s | NotFound s \<Rightarrow> s)), m, w)"

section \<open>Laws\<close>

interpretation transports: keyed_table register_transport remove_transport map_of
  by unfold_locales (simp_all add: register_transport_def remove_transport_def update_conv' delete_conv')

lemma get_transport_reliable:
  "\<not> proto_is_unreliable (tk_protocol k) \<Longrightarrow> get_transport m k = map_of m k"
  by (simp add: get_transport_def split: option.split)

text \<open>What each kind of mandatory header contributes, and the extraction in terms of it: the first
  Via counts, and the last of each of the others.\<close>

fun via_of :: "header \<Rightarrow> via option" where
  "via_of (H_Via v) = Some v" | "via_of _ = None"
fun from_of :: "header \<Rightarrow> from_header option" where
  "from_of (H_From v) = Some v" | "from_of _ = None"
fun to_of :: "header \<Rightarrow> to_header option" where
  "to_of (H_To v) = Some v" | "to_of _ = None"
fun call_id_of :: "header \<Rightarrow> bytes option" where
  "call_id_of (H_CallId v) = Some v" | "call_id_of _ = None"
fun cseq_of :: "header \<Rightarrow> cseq option" where
  "cseq_of (H_CSeq v) = Some v" | "cseq_of _ = None"

definition or_later :: "'a option \<Rightarrow> 'a option \<Rightarrow> 'a option" where
  "or_later x y = (case y of None \<Rightarrow> x | Some _ \<Rightarrow> y)"

fun first_opt :: "('h \<Rightarrow> 'a option) \<Rightarrow> 'h list \<Rightarrow> 'a option" where
  "first_opt f [] = None"
| "first_opt f (h # hs) = or_later (first_opt f hs) (f h)"

fun last_opt :: "('h \<Rightarrow> 'a option) \<Rightarrow> 'h list \<Rightarrow> 'a option" where
  "last_opt f [] = None"
| "last_opt f (h # hs) = or_later (f h) (last_opt f hs)"

lemma or_later_simps [simp]:
  "or_later x None = x" "or_later None y = y" "or_later x (Some u) = Some u"
  "or_later (or_later x y) z = or_later x (or_later y z)"
  by (auto simp: or_later_def split: option.split)

lemma collect_mandatory_fields:
  "ma_via (collect_mandatory h a) = or_later (via_of h) (ma_via a)"
  "ma_from (collect_mandatory h a) = or_later (ma_from a) (from_of h)"
  "ma_to (collect_mandatory h a) = or_later (ma_to a) (to_of h)"
  "ma_call_id (collect_mandatory h a) = or_later (ma_call_id a) (call_id_of h)"
  "ma_cseq (collect_mandatory h a) = or_later (ma_cseq a) (cseq_of h)"
  by (cases h; simp add: collect_mandatory_def or_later_def split: option.split)+

lemma fold_collect_mandatory:
  "ma_via (fold collect_mandatory hs a) = or_later (first_opt via_of hs) (ma_via a)"
  "ma_from (fold collect_mandatory hs a) = or_later (ma_from a) (last_opt from_of hs)"
  "ma_to (fold collect_mandatory hs a) = or_later (ma_to a) (last_opt to_of hs)"
  "ma_call_id (fold collect_mandatory hs a) = or_later (ma_call_id a) (last_opt call_id_of hs)"
  "ma_cseq (fold collect_mandatory hs a) = or_later (ma_cseq a) (last_opt cseq_of hs)"
  by (induction hs arbitrary: a) (simp_all add: collect_mandatory_fields)

lemma mandatory_of_headers_iff:
  "mandatory_of_headers hs = Ok m \<longleftrightarrow>
     first_opt via_of hs = Some (mh_via m) \<and> last_opt from_of hs = Some (mh_from m) \<and>
     last_opt to_of hs = Some (mh_to m) \<and> last_opt call_id_of hs = Some (mh_call_id m) \<and>
     last_opt cseq_of hs = Some (mh_cseq m)"
  by (cases m)
    (auto simp: mandatory_of_headers_def fold_collect_mandatory empty_acc_def required_def ok_or_def
      Let_def split: option.splits)

lemma mandatory_of_headers_total:
  "(\<exists>m. mandatory_of_headers hs = Ok m) \<or> (\<exists>name. mandatory_of_headers hs = Err (E_MissingHeader name))"
  by (auto simp: mandatory_of_headers_def required_def ok_or_def Let_def split: option.splits)

lemma into_headers_mandatory: "mandatory_of_headers (into_headers m) = Ok m"
  by (simp add: mandatory_of_headers_iff into_headers_def)

section \<open>The registry's invariant\<close>

text \<open>Every entry is filed under the key of its transport, and no key occurs twice.\<close>

definition registry_ok :: "registry \<Rightarrow> bool" where
  "registry_ok m \<longleftrightarrow> distinct (map fst m) \<and> (\<forall>(k, t) \<in> set m. k = key_of_transport t)"

lemma registry_ok_empty [simp]: "registry_ok []"
  by (simp add: registry_ok_def)

lemma set_update_subset: "set (AList.update k v m) \<subseteq> insert (k, v) (set m)"
  by (induction m) auto

lemma set_delete_subset: "set (AList.delete k m) \<subseteq> set m"
  by (induction m) auto

lemma registry_ok_register: "registry_ok m \<Longrightarrow> registry_ok (register_transport (key_of_transport t) t m)"
  using set_update_subset [of "key_of_transport t" t m]
  by (auto simp: registry_ok_def register_transport_def distinct_update)

lemma registry_ok_remove: "registry_ok m \<Longrightarrow> registry_ok (remove_transport k m)"
  using set_delete_subset [of k m]
  by (auto simp: registry_ok_def remove_transport_def distinct_delete)

lemma registry_ok_connect: "registry_ok m \<Longrightarrow> registry_ok (snd (connect_with r m))"
  by (cases r) (simp_all add: connect_with_def registry_ok_register)

lemma registry_ok_select: "registry_ok m \<Longrightarrow> registry_ok (snd (select_transport cn m a p))"
  by (simp add: select_transport_def registry_ok_connect split: option.split)

lemma registry_ok_tcp_read:
  "registry_ok m \<Longrightarrow> tcp_read t peer items m w = (ds, r, m', w') \<Longrightarrow> registry_ok m'"
  by (induction t peer items m w arbitrary: ds r m' w' rule: tcp_read.induct)
    (auto simp: registry_ok_remove split: prod.splits if_splits)

lemma map_of_registry_ok: "registry_ok m \<Longrightarrow> map_of m k = Some t \<Longrightarrow> key_of_transport t = k"
  by (auto simp: registry_ok_def dest!: map_of_SomeD)

lemma get_transport_protocol:
  assumes "registry_ok m" and "get_transport m k = Some t"
  shows "tp_protocol t = tk_protocol k"
proof (cases "map_of m k")
  case (Some t')
  with assms have "key_of_transport t = k"
    by (simp add: get_transport_def map_of_registry_ok)
  then show ?thesis by (auto simp: key_of_transport_def)
next
  case None
  with assms(2) show ?thesis
    by (auto simp: get_transport_def find_Some_iff split: if_splits)
qed

lemma get_transport_reliable_local:
  assumes "registry_ok m" and "\<not> proto_is_unreliable p"
    and "\<forall>(k, t) \<in> set m. tp_protocol t = p \<longrightarrow> tp_local t \<noteq> a"
  shows "get_transport m \<lparr>tk_addr = a, tk_protocol = p\<rparr> = None"
proof (cases "map_of m \<lparr>tk_addr = a, tk_protocol = p\<rparr>")
  case None
  with assms(2) show ?thesis by (simp add: get_transport_reliable)
next
  case (Some t)
  from map_of_registry_ok [OF assms(1) Some] map_of_SomeD [OF Some] assms(3) show ?thesis
    by (auto simp: key_of_transport_def)
qed

section \<open>Properties\<close>

text \<open>An incoming message is handed on only when it carries the five mandatory headers, and
  then with exactly these: the first Via of the message (the later ones are left to the proxies
  before) and the last From, To, Call-ID and CSeq.\<close>

theorem mandatory_of_headers_spec:
  "(\<exists>m. mandatory_of_headers hs = Ok m \<and>
      first_opt via_of hs = Some (mh_via m) \<and> last_opt from_of hs = Some (mh_from m) \<and>
      last_opt to_of hs = Some (mh_to m) \<and> last_opt call_id_of hs = Some (mh_call_id m) \<and>
      last_opt cseq_of hs = Some (mh_cseq m)) \<or>
   (\<exists>name. mandatory_of_headers hs = Err (E_MissingHeader name) \<and>
      (first_opt via_of hs = None \<or> last_opt from_of hs = None \<or> last_opt to_of hs = None \<or>
       last_opt call_id_of hs = None \<or> last_opt cseq_of hs = None))"
  by (auto simp: mandatory_of_headers_def fold_collect_mandatory empty_acc_def required_def
      ok_or_def Let_def split: option.splits)

text \<open>Registry keys are local addresses. So in any well-formed registry in which no transport
  of a connection-oriented protocol is bound to the very address being called, a request to that
  address never finds an existing connection: it always opens a new one, also when the registry
  already holds a connection whose remote end is that address.\<close>

theorem connections_are_not_reused:
  assumes "registry_ok m" and "\<forall>(k, t) \<in> set m. tp_protocol t = Tcp \<longrightarrow> tp_local t \<noteq> peer"
  shows "select_transport cn m peer Tcp = connect_with (cn_tcp cn peer) m"
  using get_transport_reliable_local [OF assms(1) _ assms(2)]
  by (simp add: select_transport_def proto_is_unreliable_def proto_is_reliable_def)

theorem connections_are_not_reused_witness:
  "let local_a = \<lparr>sa_ip = IpV4 10 0 0 1, sa_port = 40000\<rparr>; peer = \<lparr>sa_ip = IpV4 10 0 0 2, sa_port = 5060\<rparr>;
       open_t = tcp_transport 1 local_a peer; m = register_transport (key_of_transport open_t) open_t [];
       cn = \<lparr>cn_tcp = \<lambda>a. Err (E_Io ''refused''), cn_ws = \<lambda>u. Err E_UnsupportedTransport\<rparr>
   in tp_remote open_t = Some peer \<and> select_transport cn m peer Tcp = (Err (E_Io ''refused''), m)"
proof -
  let ?t = "tcp_transport 1 \<lparr>sa_ip = IpV4 10 0 0 1, sa_port = 40000\<rparr> \<lparr>sa_ip = IpV4 10 0 0 2, sa_port = 5060\<rparr>"
  let ?m = "register_transport (key_of_transport ?t) ?t []"
  have "registry_ok ?m" by (rule registry_ok_register) simp
  moreover have "\<forall>(k, t) \<in> set ?m. tp_protocol t = Tcp \<longrightarrow> tp_local t \<noteq> \<lparr>sa_ip = IpV4 10 0 0 2, sa_port = 5060\<rparr>"
    by (simp add: register_transport_def tcp_transport_def)
  ultimately show ?thesis
    by (simp add: connections_are_not_reused connect_with_def Let_def) (simp add: tcp_transport_def)
qed

end
