(* ===== verification/Fsm.thy ===== *)
theory Fsm
  imports Sip_Error
begin

text \<open>
  The states of a SIP transaction and the machine that holds the current one and tells its
  subscribers of every change (\<open>rssip/src/transaction/fsm.rs\<close>). The broadcast channel is the list
  of the states sent on it; a subscriber is the position from which it reads on.
\<close>

section \<open>States\<close>

datatype tsx_state = Calling | Trying | Proceeding | Completed | Confirmed | Terminated

text \<open>The derived order of the enum: the order of its constructors.\<close>

fun state_rank :: "tsx_state \<Rightarrow> nat" where
  "state_rank Calling = 0"
| "state_rank Trying = 1"
| "state_rank Proceeding = 2"
| "state_rank Completed = 3"
| "state_rank Confirmed = 4"
| "state_rank Terminated = 5"

instantiation tsx_state :: linorder
begin

definition less_eq_tsx_state :: "tsx_state \<Rightarrow> tsx_state \<Rightarrow> bool" where
  "less_eq_tsx_state a b \<longleftrightarrow> state_rank a \<le> state_rank b"

definition less_tsx_state :: "tsx_state \<Rightarrow> tsx_state \<Rightarrow> bool" where
  "less_tsx_state a b \<longleftrightarrow> state_rank a < state_rank b"

instance
proof
  fix a b :: tsx_state
  assume "a \<le> b" "b \<le> a"
  then show "a = b"
    by (cases a; cases b) (simp_all add: less_eq_tsx_state_def)
qed (auto simp: less_eq_tsx_state_def less_tsx_state_def)

end

lemma le_Proceeding_iff: "s \<le> Proceeding \<longleftrightarrow> s = Calling \<or> s = Trying \<or> s = Proceeding"
  by (cases s) (simp_all add: less_eq_tsx_state_def)

definition show_state :: "tsx_state \<Rightarrow> bytes" where
  "show_state s =
     (case s of Calling \<Rightarrow> ''Calling'' | Trying \<Rightarrow> ''Trying'' | Proceeding \<Rightarrow> ''Proceeding''
      | Completed \<Rightarrow> ''Completed'' | Confirmed \<Rightarrow> ''Confirmed'' | Terminated \<Rightarrow> ''Terminated'')"

section \<open>The machine\<close>

record state_machine =
  sm_state :: tsx_state
  sm_notifier :: "tsx_state list option"

definition machine_new :: "tsx_state \<Rightarrow> state_machine" where
  "machine_new s = \<lparr>sm_state = s, sm_notifier = None\<rparr>"

text \<open>The position a new subscriber reads from, and the machine with its channel.\<close>

definition subscribe_state :: "state_machine \<Rightarrow> nat \<times> state_machine" where
  "subscribe_state m =
     (case sm_notifier m of
        Some sent \<Rightarrow> (length sent, m)
      | None \<Rightarrow> (0, m\<lparr>sm_notifier := Some []\<rparr>))"

definition notify_state_change :: "tsx_state \<Rightarrow> state_machine \<Rightarrow> state_machine" where
  "notify_state_change s m = m\<lparr>sm_notifier := map_option (\<lambda>sent. sent @ [s]) (sm_notifier m)\<rparr>"

definition set_state :: "tsx_state \<Rightarrow> state_machine \<Rightarrow> state_machine" where
  "set_state s m = notify_state_change s (m\<lparr>sm_state := s\<rparr>)"

text \<open>What a subscriber at a position still has to read.\<close>

definition pending_states :: "nat \<Rightarrow> state_machine \<Rightarrow> tsx_state list" where
  "pending_states n m = (case sm_notifier m of None \<Rightarrow> [] | Some sent \<Rightarrow> drop n sent)"

section \<open>Laws\<close>

lemma sm_state_new [simp]: "sm_state (machine_new s) = s"
  by (simp add: machine_new_def)

lemma sm_state_set [simp]: "sm_state (set_state s m) = s"
  by (simp add: set_state_def notify_state_change_def)

lemma sm_notifier_set [simp]:
  "sm_notifier (set_state s m) = map_option (\<lambda>sent. sent @ [s]) (sm_notifier m)"
  by (simp add: set_state_def notify_state_change_def)

lemma sm_state_subscribe [simp]: "sm_state (snd (subscribe_state m)) = sm_state m"
  by (simp add: subscribe_state_def split: option.split)

lemma subscribe_state_fresh: "pending_states (fst (subscribe_state m)) (snd (subscribe_state m)) = []"
  by (simp add: subscribe_state_def pending_states_def split: option.split)

text \<open>A subscriber sees every state set after it subscribed, in order, and nothing else.\<close>

lemma subscriber_sees_all:
  "subscribe_state m = (n, m') \<Longrightarrow> pending_states n (fold set_state ss m') = ss"
proof (induction ss rule: rev_induct)
  case Nil
  then show ?case using subscribe_state_fresh [of m] by simp
next
  case (snoc s ss)
  from snoc.prems have sub: "\<exists>sent. sm_notifier m' = Some sent \<and> n \<le> length sent"
    by (auto simp: subscribe_state_def split: option.splits)
  have keep: "\<exists>sent. sm_notifier (fold set_state ts m') = Some sent \<and> n \<le> length sent" for ts
    by (induction ts rule: rev_induct) (use sub in auto)
  from keep [of ss] snoc.IH [OF snoc.prems] show ?case
    by (auto simp: pending_states_def)
qed

end
