(* ===== verification/Transaction.thy ===== *)
theory Transaction
  imports Transport Fsm
begin

text \<open>
  The transaction layer's shared parts: transaction keys and the plugin that routes incoming
  messages to the transactions (\<open>rssip/src/transaction/mod.rs\<close>), the timers
  (\<open>rssip/src/transaction/timers.rs\<close>) and the receiver that can look at the next message without
  taking it (\<open>rssip-utils/src/peekable_receiver.rs\<close>).

  A channel is known by a number; its content is the list of the messages sent on it. A receiver's
  mailbox is a schedule: the messages still to come with their arrival times in milliseconds, in
  this order, and then silence, or the end of the channel.
\<close>

section \<open>Timers\<close>

definition T1 :: nat where "T1 = 500"
definition T2 :: nat where "T2 = 4 * 1000"
definition T4 :: nat where "T4 = 5 * 1000"

section \<open>Keys\<close>

datatype role = Uac | Uas

definition RFC3261_BRANCH_ID :: bytes where "RFC3261_BRANCH_ID = ''z9hG4bK''"

text \<open>The random suffix is an argument.\<close>

definition generate_branch :: "bytes \<Rightarrow> bytes" where
  "generate_branch rnd = RFC3261_BRANCH_ID @ rnd"

record rfc3261_key =
  tk_role :: role
  tk_branch :: bytes
  tk_method :: "sip_method option"

record rfc2543_key =
  ok_cseq :: u32
  ok_from_tag :: "bytes option"
  ok_to_tag :: "bytes option"
  ok_call_id :: bytes
  ok_via_host_port :: host_port
  ok_method :: "sip_method option"

datatype tsx_key = Rfc2543 rfc2543_key | Rfc3261 rfc3261_key

fun key_branch :: "tsx_key \<Rightarrow> bytes option" where
  "key_branch (Rfc2543 k) = None"
| "key_branch (Rfc3261 k) = Some (tk_branch k)"

definition new_key_3261 :: "role \<Rightarrow> sip_method \<Rightarrow> bytes \<Rightarrow> tsx_key" where
  "new_key_3261 r m b =
     Rfc3261 \<lparr>tk_role = r, tk_branch = b,
              tk_method = (if m = Invite \<or> m = Ack then None else Some m)\<rparr>"

definition starts_with :: "bytes \<Rightarrow> bytes \<Rightarrow> bool" where
  "starts_with p s \<longleftrightarrow> take (length p) s = p"

definition from_incoming_info :: "incoming_info \<Rightarrow> role \<Rightarrow> (error, tsx_key) res" where
  "from_incoming_info info r =
     (case v_branch (mh_via (ii_mandatory info)) of
        Some b \<Rightarrow>
          if starts_with RFC3261_BRANCH_ID b
          then Ok (new_key_3261 r (cs_method (mh_cseq (ii_mandatory info))) b)
          else Panic
      | None \<Rightarrow> Panic)"

definition key_from_request :: "incoming_request \<Rightarrow> (error, tsx_key) res" where
  "key_from_request r = from_incoming_info (ir_info r) Uas"

definition key_from_response :: "incoming_response \<Rightarrow> (error, tsx_key) res" where
  "key_from_response r = from_incoming_info (is_info r) Uac"

section \<open>The plugin\<close>

type_synonym tsx_table = "(tsx_key \<times> nat) list"
type_synonym channels = "nat \<Rightarrow> incoming_message list"

definition add_transaction :: "tsx_key \<Rightarrow> nat \<Rightarrow> tsx_table \<Rightarrow> tsx_table" where
  "add_transaction k c t = AList.update k c t"

definition remove_transaction :: "tsx_key \<Rightarrow> tsx_table \<Rightarrow> tsx_table" where
  "remove_transaction k t = AList.delete k t"

definition get_entry :: "tsx_table \<Rightarrow> tsx_key \<Rightarrow> nat option" where
  "get_entry t k = map_of t k"

definition deliver :: "nat \<Rightarrow> incoming_message \<Rightarrow> channels \<Rightarrow> channels" where
  "deliver c m cs = cs(c := cs c @ [m])"

text \<open>The request that is left when the plugin has had its turn (none when it took it), and the
  channels. A message whose channel has no receiver left panics when it is a request and is lost
  when it is a response; \<open>opened\<close> says which channels have one.\<close>

definition tsx_on_request ::
  "(nat \<Rightarrow> bool) \<Rightarrow> tsx_table \<Rightarrow> incoming_request \<Rightarrow> channels \<Rightarrow>
   (error, incoming_request option \<times> channels) res" where
  "tsx_on_request opened t req cs =
     bind_res (key_from_request req) (\<lambda>key.
       case get_entry t key of
         None \<Rightarrow> Ok (Some req, cs)
       | Some c \<Rightarrow> if opened c then Ok (None, deliver c (IncomingRequest req) cs) else Panic)"

definition tsx_on_response ::
  "(nat \<Rightarrow> bool) \<Rightarrow> tsx_table \<Rightarrow> incoming_response \<Rightarrow> channels \<Rightarrow>
   (error, incoming_response option \<times> channels) res" where
  "tsx_on_response opened t rsp cs =
     bind_res (key_from_response rsp) (\<lambda>key.
       case get_entry t key of
         None \<Rightarrow> Ok (Some rsp, cs)
       | Some c \<Rightarrow> Ok (None, if opened c then deliver c (IncomingResponse rsp) cs else cs))"

section \<open>Receivers\<close>

text \<open>\<open>rx_closes\<close> is the time at which the last sender goes away, if it does.\<close>

record 'm receiver =
  rx_peeked :: "'m option"
  rx_schedule :: "(nat \<times> 'm) list"
  rx_closes :: "nat option"

text \<open>The time at which the channel has something to say: a message, or its end.\<close>

definition rx_ready :: "'m receiver \<Rightarrow> nat option" where
  "rx_ready r =
     (case rx_peeked r of
        Some m \<Rightarrow> Some 0
      | None \<Rightarrow> (case rx_schedule r of (t, m) # _ \<Rightarrow> Some t | [] \<Rightarrow> rx_closes r))"

text \<open>\<open>recv\<close>, \<open>peek\<close> and \<open>recv_if\<close> once the channel is ready.\<close>

definition rx_recv :: "'m receiver \<Rightarrow> 'm option \<times> 'm receiver" where
  "rx_recv r =
     (case rx_peeked r of
        Some m \<Rightarrow> (Some m, r\<lparr>rx_peeked := None\<rparr>)
      | None \<Rightarrow> (case rx_schedule r of (t, m) # rest \<Rightarrow> (Some m, r\<lparr>rx_schedule := rest\<rparr>) | [] \<Rightarrow> (None, r)))"

definition rx_peek :: "'m receiver \<Rightarrow> 'm option \<times> 'm receiver" where
  "rx_peek r =
     (case rx_peeked r of
        Some m \<Rightarrow> (Some m, r)
      | None \<Rightarrow> (case rx_schedule r of
                   (t, m) # rest \<Rightarrow> (Some m, r\<lparr>rx_peeked := Some m, rx_schedule := rest\<rparr>)
                 | [] \<Rightarrow> (None, r)))"

definition rx_recv_if :: "('m \<Rightarrow> bool) \<Rightarrow> 'm receiver \<Rightarrow> 'm option \<times> 'm receiver" where
  "rx_recv_if cond r =
     (case rx_peek r of
        (Some m, r') \<Rightarrow> if cond m then (Some m, r'\<lparr>rx_peeked := None\<rparr>) else (None, r')
      | (None, r') \<Rightarrow> (None, r'))"

text \<open>\<open>try_recv\<close> at a given time: nothing when no message has arrived yet.\<close>

definition rx_try_recv :: "nat \<Rightarrow> 'm receiver \<Rightarrow> 'm option \<times> 'm receiver" where
  "rx_try_recv now r =
     (case rx_peeked r of
        Some m \<Rightarrow> (Some m, r\<lparr>rx_peeked := None\<rparr>)
      | None \<Rightarrow> (case rx_schedule r of
                   (t, m) # rest \<Rightarrow> if t \<le> now then (Some m, r\<lparr>rx_schedule := rest\<rparr>) else (None, r)
                 | [] \<Rightarrow> (None, r)))"

definition receiver_new :: "(nat \<times> 'm) list \<Rightarrow> nat option \<Rightarrow> 'm receiver" where
  "receiver_new sched closes = \<lparr>rx_peeked = None, rx_schedule = sched, rx_closes = closes\<rparr>"

text \<open>The messages a receiver will still give, in order.\<close>

definition rx_messages :: "'m receiver \<Rightarrow> 'm list" where
  "rx_messages r = (case rx_peeked r of None \<Rightarrow> [] | Some m \<Rightarrow> [m]) @ map snd (rx_schedule r)"

section \<open>Laws\<close>

interpretation transactions: keyed_table add_transaction remove_transaction get_entry
  by unfold_locales (simp_all add: add_transaction_def remove_transaction_def get_entry_def
      update_conv' delete_conv' fun_eq_iff)

lemma rx_peek_keeps: "rx_peek r = (x, r') \<Longrightarrow> rx_messages r' = rx_messages r"
  by (auto simp: rx_peek_def rx_messages_def split: option.splits list.splits prod.splits)

lemma rx_recv_takes:
  "rx_recv r = (Some m, r') \<Longrightarrow> rx_messages r = m # rx_messages r'"
  by (auto simp: rx_recv_def rx_messages_def split: option.splits list.splits prod.splits)

lemma rx_recv_if_takes:
  "rx_recv_if cond r = (Some m, r') \<Longrightarrow> cond m \<and> rx_messages r = m # rx_messages r'"
  by (auto simp: rx_recv_if_def rx_peek_def rx_messages_def
      split: option.splits list.splits prod.splits if_splits)

lemma rx_recv_if_leaves:
  "rx_recv_if cond r = (None, r') \<Longrightarrow>
     rx_messages r' = rx_messages r \<and> (\<forall>m ms. rx_messages r = m # ms \<longrightarrow> \<not> cond m)"
  by (auto simp: rx_recv_if_def rx_peek_def rx_messages_def
      split: option.splits list.splits prod.splits if_splits)

end
