(* ===== verification/Endpoint.thy ===== *)
theory Endpoint
  imports Transaction
begin

text \<open>
  The endpoint (\<open>rssip/src/core/endpoint/mod.rs\<close>): building a response from a request, the place
  a response goes to, the route set of a request, choosing the transport of a request, and sending
  both. The outgoing messages are those of \<open>rssip/src/transport/outgoing.rs\<close>.

  The endpoint's own plugins leave outgoing messages alone, so the loops that show an outgoing
  message to the plugins are no steps here. Connecting and looking up names are the functions of
  \<open>network\<close>; they answer \<open>Ok\<close> or \<open>Err\<close>.
\<close>

section \<open>Outgoing messages\<close>

record target_info =
  ti_addr :: socket_addr
  ti_transport :: transport

record outgoing_request =
  og_request :: request
  og_target :: target_info
  og_encoded :: bytes

record dest_info =
  di_host_port :: host_port
  di_protocol :: protocol
  di_transport :: "target_info option"

record outgoing_response =
  or_response :: response
  or_dest :: dest_info
  or_encoded :: bytes

section \<open>The endpoint\<close>

record network =
  nw_connect :: connector
  nw_lookup :: "bytes \<Rightarrow> (error, socket_addr list) res"

text \<open>Dialogs are known by the Call-ID and the two tags; the table maps them to their channels.\<close>

record dialog_id =
  dg_call_id :: bytes
  dg_local_tag :: bytes
  dg_remote_tag :: "bytes option"

type_synonym dialog_table = "(dialog_id \<times> nat) list"

text \<open>The capabilities are fixed when the endpoint is built; the registry of transports and the
  tables of transactions and dialogs are shared behind locks.\<close>

record endpoint =
  ep_name :: bytes
  ep_allow :: "sip_method list"
  ep_accept :: accept
  ep_supported :: "bytes list"
  ep_registry :: registry
  ep_transactions :: tsx_table
  ep_dialogs :: dialog_table
  ep_world :: world

definition ep_now :: "endpoint \<Rightarrow> nat" where
  "ep_now e = w_now (ep_world e)"

definition wait_until :: "nat \<Rightarrow> endpoint \<Rightarrow> endpoint" where
  "wait_until t e = e\<lparr>ep_world := (ep_world e)\<lparr>w_now := max (ep_now e) t\<rparr>\<rparr>"

definition ep_send :: "transport \<Rightarrow> bytes \<Rightarrow> socket_addr \<Rightarrow> endpoint \<Rightarrow> bool \<times> endpoint" where
  "ep_send t buf a e = (case send_msg t buf a (ep_world e) of (ok, w) \<Rightarrow> (ok, e\<lparr>ep_world := w\<rparr>))"

definition ep_select ::
  "network \<Rightarrow> socket_addr \<Rightarrow> protocol \<Rightarrow> endpoint \<Rightarrow> (error, transport) res \<times> endpoint" where
  "ep_select nw a p e =
     (case select_transport (nw_connect nw) (ep_registry e) a p of
        (r, m) \<Rightarrow> (r, e\<lparr>ep_registry := m\<rparr>))"

section \<open>Creating a response\<close>

fun is_via :: "header \<Rightarrow> bool" where
  "is_via (H_Via v) = True" | "is_via _ = False"
fun is_record_route :: "header \<Rightarrow> bool" where
  "is_record_route (H_RecordRoute r) = True" | "is_record_route _ = False"
fun is_route :: "header \<Rightarrow> bool" where
  "is_route (H_Route r) = True" | "is_route _ = False"
fun is_contact :: "header \<Rightarrow> bool" where
  "is_contact (H_Contact c) = True" | "is_contact _ = False"
fun is_allow :: "header \<Rightarrow> bool" where
  "is_allow (H_Allow c) = True" | "is_allow _ = False"
fun is_supported :: "header \<Rightarrow> bool" where
  "is_supported (H_Supported c) = True" | "is_supported _ = False"

definition response_to :: "mandatory_headers \<Rightarrow> status_code \<Rightarrow> to_header" where
  "response_to m code =
     (let to = mh_to m in
      if to_tag to = None \<and> 100 < as_u16 code then set_tag (v_branch (mh_via m)) to else to)"

definition create_response :: "incoming_request \<Rightarrow> status_code \<Rightarrow> bytes option \<Rightarrow> response" where
  "create_response req code rsn =
     (let hs = rq_headers (ir_request req); m = ii_mandatory (ir_info req) in
      \<lparr>rs_line = \<lparr>sl_code = code, sl_reason = (case rsn of None \<Rightarrow> reason code | Some r \<Rightarrow> r)\<rparr>,
       rs_headers =
         [H_Via (mh_via m)] @ drop 1 (filter is_via hs) @ filter is_record_route hs @
         [H_CallId (mh_call_id m), H_From (mh_from m), H_To (response_to m code), H_CSeq (mh_cseq m)],
       rs_body = None\<rparr>)"

text \<open>The place of the response: the source of the request on a reliable Via transport, else the
  maddr, else the address the request came from with the port of the Via, else the Via's host.\<close>

definition host_port_of_addr :: "socket_addr \<Rightarrow> host_port" where
  "host_port_of_addr a = \<lparr>hp_host = HostIp (sa_ip a), hp_port = Some (sa_port a)\<rparr>"

definition port_or :: "u16 \<Rightarrow> host_port \<Rightarrow> u16" where
  "port_or d hp = (case hp_port hp of Some p \<Rightarrow> p | None \<Rightarrow> d)"

definition get_response_destination :: "incoming_request \<Rightarrow> dest_info" where
  "get_response_destination req =
     (let info = ir_info req; v = mh_via (ii_mandatory info); tp = ii_transport info in
      if proto_is_reliable (v_transport v) then
        \<lparr>di_host_port =
           (case v_received v of
              Some ip \<Rightarrow> \<lparr>hp_host = HostIp ip,
                          hp_port = Some (port_or (default_port (tp_protocol tp)) (v_sent_by v))\<rparr>
            | None \<Rightarrow> v_sent_by v),
         di_protocol = tp_protocol tp,
         di_transport = Some \<lparr>ti_addr = ii_source info, ti_transport = tp\<rparr>\<rparr>
      else
        case v_maddr v of
          Some maddr \<Rightarrow>
            \<lparr>di_host_port = \<lparr>hp_host = maddr, hp_port = Some (port_or 5060 (v_sent_by v))\<rparr>,
             di_protocol = v_transport v, di_transport = None\<rparr>
        | None \<Rightarrow>
            (case v_received v of
               Some ip \<Rightarrow>
                 let a = \<lparr>sa_ip = ip, sa_port = port_or 5060 (v_sent_by v)\<rparr> in
                 \<lparr>di_host_port = host_port_of_addr a, di_protocol = tp_protocol tp,
                  di_transport = Some \<lparr>ti_addr = a, ti_transport = tp\<rparr>\<rparr>
             | None \<Rightarrow>
                 \<lparr>di_host_port = v_sent_by v, di_protocol = v_transport v, di_transport = None\<rparr>))"

definition create_outgoing_response ::
  "incoming_request \<Rightarrow> status_code \<Rightarrow> bytes option \<Rightarrow> outgoing_response" where
  "create_outgoing_response req code rsn =
     \<lparr>or_response = create_response req code rsn, or_dest = get_response_destination req, or_encoded = []\<rparr>"

section \<open>Sending\<close>

text \<open>A failed send of a request is logged and ignored.\<close>

definition send_outgoing_request ::
  "outgoing_request \<Rightarrow> endpoint \<Rightarrow> (error, unit) res \<times> outgoing_request \<times> endpoint" where
  "send_outgoing_request r e =
     (case (if og_encoded r = [] then encode_request (og_request r) else Ok (og_encoded r)) of
        Ok buf \<Rightarrow>
          let r' = r\<lparr>og_encoded := buf\<rparr> in
          (Ok (), r', snd (ep_send (ti_transport (og_target r)) buf (ti_addr (og_target r)) e))
      | Err err \<Rightarrow> (Err err, r, e)
      | Panic \<Rightarrow> (Panic, r, e)
      | OutOfFuel \<Rightarrow> (OutOfFuel, r, e))"

text \<open>The addresses of a response's host are tried in turn, until one send succeeds.\<close>

fun try_addresses ::
  "network \<Rightarrow> bytes \<Rightarrow> lookup_address list \<Rightarrow> endpoint \<Rightarrow> target_info option \<times> endpoint" where
  "try_addresses nw buf [] e = (None, e)"
| "try_addresses nw buf (a # as) e =
     (case ep_select nw (la_addr a) (la_protocol a) e of
        (Ok t, e1) \<Rightarrow>
          (case ep_send t buf (la_addr a) e1 of
             (ok, e2) \<Rightarrow>
               if ok then (Some \<lparr>ti_addr = la_addr a, ti_transport = t\<rparr>, e2)
               else try_addresses nw buf as e2)
      | (_, e1) \<Rightarrow> try_addresses nw buf as e1)"

definition send_resolved ::
  "network \<Rightarrow> outgoing_response \<Rightarrow> endpoint \<Rightarrow> (error, unit) res \<times> outgoing_response \<times> endpoint" where
  "send_resolved nw r e =
     (case resolve (nw_lookup nw)
             \<lparr>sh_host_port = di_host_port (or_dest r), sh_protocol = Some (di_protocol (or_dest r))\<rparr> of
        Ok addrs \<Rightarrow>
          (case try_addresses nw (or_encoded r) (oom_list addrs) e of
             (Some ti, e') \<Rightarrow> (Ok (), r\<lparr>or_dest := (or_dest r)\<lparr>di_transport := Some ti\<rparr>\<rparr>, e')
           | (None, e') \<Rightarrow> (Err (E_Transport ''Failed to send response!''), r, e'))
      | Err err \<Rightarrow> (Err err, r, e)
      | Panic \<Rightarrow> (Panic, r, e)
      | OutOfFuel \<Rightarrow> (OutOfFuel, r, e))"

definition send_response ::
  "network \<Rightarrow> outgoing_response \<Rightarrow> endpoint \<Rightarrow> (error, unit) res \<times> outgoing_response \<times> endpoint" where
  "send_response nw r e =
     (case di_transport (or_dest r) of
        Some ti \<Rightarrow>
          (case ep_send (ti_transport ti) (or_encoded r) (ti_addr ti) e of
             (ok, e') \<Rightarrow> if ok then (Ok (), r, e') else send_resolved nw r e')
      | None \<Rightarrow> send_resolved nw r e)"

definition send_outgoing_response ::
  "network \<Rightarrow> outgoing_response \<Rightarrow> endpoint \<Rightarrow> (error, unit) res \<times> outgoing_response \<times> endpoint" where
  "send_outgoing_response nw r e =
     (case (if or_encoded r = [] then encode_response (or_response r) else Ok (or_encoded r)) of
        Ok buf \<Rightarrow> send_response nw (r\<lparr>or_encoded := buf\<rparr>) e
      | Err err \<Rightarrow> (Err err, r, e)
      | Panic \<Rightarrow> (Panic, r, e)
      | OutOfFuel \<Rightarrow> (OutOfFuel, r, e))"

section \<open>Requests\<close>

fun index_of :: "('a \<Rightarrow> bool) \<Rightarrow> 'a list \<Rightarrow> nat option" where
  "index_of p [] = None"
| "index_of p (x # xs) = (if p x then Some 0 else map_option Suc (index_of p xs))"

fun last_index_of :: "('a \<Rightarrow> bool) \<Rightarrow> 'a list \<Rightarrow> nat option" where
  "last_index_of p [] = None"
| "last_index_of p (x # xs) =
     (case last_index_of p xs of Some i \<Rightarrow> Some (Suc i) | None \<Rightarrow> if p x then Some 0 else None)"

fun strict_route :: "header \<Rightarrow> route option" where
  "strict_route (H_Route r) = (if u_lr_param (na_uri (rt_name_addr r)) then None else Some r)"
| "strict_route _ = None"

definition insert_at :: "nat \<Rightarrow> 'a \<Rightarrow> 'a list \<Rightarrow> 'a list" where
  "insert_at i x xs = take i xs @ x # drop i xs"

definition remove_at :: "nat \<Rightarrow> 'a list \<Rightarrow> 'a list" where
  "remove_at i xs = take i xs @ drop (Suc i) xs"

text \<open>The URI to resolve, and the request.\<close>

definition process_route_set :: "request \<Rightarrow> uri \<times> request" where
  "process_route_set r =
     (case index_of (\<lambda>h. strict_route h \<noteq> None) (rq_headers r) of
        None \<Rightarrow> (rl_uri (rq_line r), r)
      | Some i \<Rightarrow>
          let hs = remove_at i (rq_headers r);
              own = H_Route \<lparr>rt_name_addr = name_addr_new (rl_uri (rq_line r)), rt_params = []\<rparr>
          in (case strict_route (rq_headers r ! i) of
                Some route \<Rightarrow> na_uri (rt_name_addr route)
              | None \<Rightarrow> rl_uri (rq_line r),
              r\<lparr>rq_headers := (case last_index_of is_route hs of
                                  Some j \<Rightarrow> insert_at j own hs
                                | None \<Rightarrow> hs @ [own])\<rparr>))"

fun first_transport ::
  "network \<Rightarrow> lookup_address list \<Rightarrow> endpoint \<Rightarrow> target_info option \<times> endpoint" where
  "first_transport nw [] e = (None, e)"
| "first_transport nw (a # as) e =
     (case ep_select nw (la_addr a) (la_protocol a) e of
        (Ok t, e1) \<Rightarrow> (Some \<lparr>ti_addr = la_addr a, ti_transport = t\<rparr>, e1)
      | (_, e1) \<Rightarrow> first_transport nw as e1)"

definition create_outgoing_request ::
  "network \<Rightarrow> request \<Rightarrow> (transport \<times> socket_addr) option \<Rightarrow> endpoint \<Rightarrow>
   (error, outgoing_request) res \<times> endpoint" where
  "create_outgoing_request nw r target e =
     (case target of
        Some (t, a) \<Rightarrow>
          (Ok \<lparr>og_request = r, og_target = \<lparr>ti_addr = a, ti_transport = t\<rparr>, og_encoded = []\<rparr>, e)
      | None \<Rightarrow>
          (case process_route_set r of
             (u, r') \<Rightarrow>
               (case resolve_uri (nw_lookup nw) u of
                  Ok addrs \<Rightarrow>
                    (case first_transport nw (oom_list addrs) e of
                       (Some ti, e') \<Rightarrow> (Ok \<lparr>og_request = r', og_target = ti, og_encoded = []\<rparr>, e')
                     | (None, e') \<Rightarrow>
                         (Err (E_Transport (''No transport found for : '' @ show_uri u)), e'))
                | Err err \<Rightarrow> (Err err, e)
                | Panic \<Rightarrow> (Panic, e)
                | OutOfFuel \<Rightarrow> (OutOfFuel, e))))"

section \<open>A concrete call\<close>

text \<open>A request and a response of one call, for the concrete instances of the properties.\<close>

definition sample_addr :: "u8 \<Rightarrow> u16 \<Rightarrow> socket_addr" where
  "sample_addr n p = \<lparr>sa_ip = IpV4 10 0 0 n, sa_port = p\<rparr>"

definition sample_via :: via where
  "sample_via =
     (via_new_udp (host_port_of_addr (sample_addr 1 5060)) (Some ''z9hG4bKabcdefgh'') (Some (Rport None)))
       \<lparr>v_received := Some (IpV4 10 0 0 1)\<rparr>"

definition sample_uri :: uri where
  "sample_uri = default_uri\<lparr>u_host_port := host_port_of_addr (sample_addr 2 5060)\<rparr>"

definition sample_mandatory :: "sip_method \<Rightarrow> mandatory_headers" where
  "sample_mandatory m =
     \<lparr>mh_via = sample_via,
      mh_from = \<lparr>fr_uri = PlainUri default_uri, fr_tag = Some ''a1'', fr_params = []\<rparr>,
      mh_to = \<lparr>to_uri = PlainUri sample_uri, to_tag = None, to_params = []\<rparr>,
      mh_call_id = ''c1@10.0.0.1'', mh_cseq = \<lparr>cs_cseq = 1, cs_method = m\<rparr>\<rparr>"

definition sample_udp :: transport where
  "sample_udp = udp_transport 1 (sample_addr 2 5060)"

definition sample_request :: "sip_method \<Rightarrow> transport \<Rightarrow> incoming_request" where
  "sample_request m t =
     \<lparr>ir_request = request_with_headers m sample_uri (into_headers (sample_mandatory m)),
      ir_info = \<lparr>ii_mandatory = sample_mandatory m, ii_transport = t, ii_source = sample_addr 1 5060,
                 ii_data = []\<rparr>\<rparr>"

definition sample_response :: "sip_method \<Rightarrow> status_code \<Rightarrow> transport \<Rightarrow> incoming_response" where
  "sample_response m code t =
     \<lparr>is_response = create_response (sample_request m t) code None, is_info = ir_info (sample_request m t)\<rparr>"

definition sample_endpoint :: endpoint where
  "sample_endpoint =
     \<lparr>ep_name = ''sample'', ep_allow = [Invite, Ack, Bye], ep_accept = [], ep_supported = [],
      ep_registry = [], ep_transactions = [], ep_dialogs = [], ep_world = new_world\<rparr>"

definition sample_network :: network where
  "sample_network =
     \<lparr>nw_connect = \<lparr>cn_tcp = \<lambda>a. Err (E_Io ''refused''), cn_ws = \<lambda>u. Err (E_Io ''refused'')\<rparr>,
      nw_lookup = \<lambda>h. Ok []\<rparr>"

section \<open>Responses\<close>

lemma first_opt_via_Cons [simp]: "first_opt via_of (H_Via v # hs) = Some v"
  by simp

lemma opt_append:
  "last_opt f (xs @ ys) = or_later (last_opt f xs) (last_opt f ys)"
  by (induction xs) simp_all

lemma last_opt_none: "(\<And>h. h \<in> set hs \<Longrightarrow> f h = None) \<Longrightarrow> last_opt f hs = None"
  by (induction hs) simp_all

lemma drop_filter_via: "h \<in> set (drop n (filter is_via hs)) \<Longrightarrow> \<exists>v. h = H_Via v"
  by (drule in_set_dropD, cases h) auto

lemma filter_record_route: "h \<in> set (filter is_record_route hs) \<Longrightarrow> \<exists>r. h = H_RecordRoute r"
  by (cases h) auto

lemma copied_headers_none:
  assumes "\<And>v. f (H_Via v) = None" and "\<And>r. f (H_RecordRoute r) = None"
  shows "last_opt f (drop n (filter is_via hs)) = None" "last_opt f (filter is_record_route hs) = None"
  using assms by (auto intro!: last_opt_none dest!: drop_filter_via filter_record_route)

lemma mandatory_of_response:
  "mandatory_of_headers (rs_headers (create_response req code rsn)) =
     Ok ((ii_mandatory (ir_info req))\<lparr>mh_to := response_to (ii_mandatory (ir_info req)) code\<rparr>)"
  unfolding mandatory_of_headers_iff create_response_def Let_def
  by (simp add: opt_append copied_headers_none)

text \<open>A response made from a request carries back what the client needs to match it: the
  mandatory headers read from it are those of the request, with the tag the server adds to the To
  header, and so the key under which the client looks up its transaction is the client's key for
  the branch and method of the request.\<close>

theorem response_matches_request:
  fixes req code rsn
  defines "m \<equiv> ii_mandatory (ir_info req)" and "r \<equiv> create_response req code rsn"
  assumes "v_branch (mh_via m) = Some b" and "starts_with RFC3261_BRANCH_ID b"
  shows "mandatory_of_headers (rs_headers r) = Ok (m\<lparr>mh_to := response_to m code\<rparr>) \<and>
    (to_tag (response_to m code) \<noteq> None \<or> as_u16 code = 100) \<and>
    key_from_response \<lparr>is_response = r,
        is_info = \<lparr>ii_mandatory = m\<lparr>mh_to := response_to m code\<rparr>, ii_transport = t, ii_source = a, ii_data = d\<rparr>\<rparr> =
      Ok (new_key_3261 Uac (cs_method (mh_cseq m)) b)"
proof -
  have "mandatory_of_headers (rs_headers r) = Ok (m\<lparr>mh_to := response_to m code\<rparr>)"
    unfolding r_def m_def by (rule mandatory_of_response)
  moreover have "to_tag (response_to m code) \<noteq> None \<or> as_u16 code = 100"
    using assms(3) as_u16_range [of code] by (auto simp: response_to_def Let_def set_tag_def)
  ultimately show ?thesis
    using assms(3,4) by (simp add: key_from_response_def from_incoming_info_def)
qed

theorem response_matches_request_witness:
  "mandatory_of_headers (rs_headers (create_response (sample_request Invite sample_udp) SC_Ringing None)) =
     Ok ((sample_mandatory Invite)\<lparr>mh_to := response_to (sample_mandatory Invite) SC_Ringing\<rparr>)"
  using response_matches_request [of "sample_request Invite sample_udp" "''z9hG4bKabcdefgh''" SC_Ringing None]
  by (simp add: sample_request_def sample_mandatory_def sample_via_def via_new_udp_def
      via_new_with_transport_def starts_with_def RFC3261_BRANCH_ID_def)

text \<open>Where a response goes. The transport layer records the source of a request in its Via,
  so without a maddr parameter the response is always sent on the transport the request came by: to
  the very source of the request when the Via names a reliable transport, else to the source's
  address at the port of the Via (5060 when it has none); neither an rport parameter nor the
  source's port counts.\<close>

theorem response_goes_to_source:
  assumes "incoming_of t source data (SipRequest r) m = IncomingRequest req"
    and "proto_is_reliable (v_transport (mh_via m)) \<or> v_maddr (mh_via m) = None"
  shows "di_transport (get_response_destination req) =
    Some \<lparr>ti_addr = (if proto_is_reliable (v_transport (mh_via m)) then source
                      else \<lparr>sa_ip = sa_ip source, sa_port = port_or 5060 (v_sent_by (mh_via m))\<rparr>),
          ti_transport = t\<rparr>"
  using assms by (auto simp: get_response_destination_def Let_def incoming_of_def stamp_source_def)

theorem response_goes_to_source_witness:
  "di_transport (get_response_destination (sample_request Bye sample_udp)) =
     Some \<lparr>ti_addr = sample_addr 1 5060, ti_transport = sample_udp\<rparr>"
  using response_goes_to_source [of sample_udp "sample_addr 1 5060" "[]" "ir_request (sample_request Bye sample_udp)"
      "sample_mandatory Bye" "sample_request Bye sample_udp"]
  by (simp add: incoming_of_def stamp_source_def sample_request_def sample_mandatory_def sample_via_def
      via_new_udp_def via_new_with_transport_def sample_addr_def host_port_of_addr_def port_or_def
      proto_is_reliable_def)

section \<open>Route sets\<close>

lemma index_of_first: "\<forall>h\<in>set pre. \<not> p h \<Longrightarrow> p x \<Longrightarrow> index_of p (pre @ x # post) = Some (length pre)"
  by (induction pre) simp_all

lemma index_of_none: "\<forall>h\<in>set hs. \<not> p h \<Longrightarrow> index_of p hs = None"
  by (induction hs) simp_all

lemma last_index_of_none: "\<forall>h\<in>set hs. \<not> p h \<Longrightarrow> last_index_of p hs = None"
  by (induction hs) simp_all

lemma last_index_of_last:
  "\<forall>h\<in>set post. \<not> p h \<Longrightarrow> p x \<Longrightarrow> last_index_of p (pre @ x # post) = Some (length pre)"
  by (induction pre) (simp_all add: last_index_of_none)



section \<open>Sending a response\<close>

abbreviation sent :: "endpoint \<Rightarrow> (nat \<times> transport \<times> bytes \<times> socket_addr) list" where
  "sent e \<equiv> w_sent (ep_world e)"

lemma ep_send_sent: "ep_send t buf a e = (ok, e') \<Longrightarrow> sent e' = sent e @ [(ep_now e, t, buf, a)]"
  by (auto simp: ep_send_def send_msg_def ep_now_def)

lemma ep_send_now: "ep_send t buf a e = (ok, e') \<Longrightarrow> ep_now e' = ep_now e"
  by (auto simp: ep_send_def send_msg_def ep_now_def)

lemma ep_select_sent: "ep_select nw a p e = (r, e') \<Longrightarrow> sent e' = sent e \<and> ep_now e' = ep_now e"
  by (auto simp: ep_select_def ep_now_def split: prod.splits)

lemma try_addresses_sent:
  "try_addresses nw buf as e = (Some ti, e') \<Longrightarrow>
     (\<exists>pre. sent e' = sent e @ pre @ [(ep_now e, ti_transport ti, buf, ti_addr ti)]) \<and> ep_now e' = ep_now e"
proof (induction "as" arbitrary: e)
  case (Cons a as)
  obtain r e1 where sel: "ep_select nw (la_addr a) (la_protocol a) e = (r, e1)" by fastforce
  note s1 = ep_select_sent [OF sel]
  consider (tried) t where "r = Ok t" | (skipped) "try_addresses nw buf as e1 = (Some ti, e')"
    using Cons.prems sel by (cases r) auto
  then show ?case
  proof cases
    case tried
    obtain ok e2 where snd: "ep_send t buf (la_addr a) e1 = (ok, e2)" by fastforce
    note s2 = ep_send_sent [OF snd] ep_send_now [OF snd]
    show ?thesis
    proof (cases ok)
      case True
      with Cons.prems sel tried snd s1 s2 show ?thesis by auto
    next
      case False
      then have "try_addresses nw buf as e2 = (Some ti, e')"
        using Cons.prems sel tried snd by simp
      from Cons.IH [OF this] s1 s2 show ?thesis by (metis append.assoc)
    qed
  next
    case skipped
    from Cons.IH [OF this] s1 show ?thesis by simp
  qed
qed simp

definition delivered :: "outgoing_response \<Rightarrow> endpoint \<Rightarrow> endpoint \<Rightarrow> bool" where
  "delivered r e e' \<longleftrightarrow>
     (\<exists>ti pre. di_transport (or_dest r) = Some ti \<and>
        sent e' = sent e @ pre @ [(ep_now e, ti_transport ti, or_encoded r, ti_addr ti)])"

lemma send_resolved_delivers:
  "send_resolved nw r e = (Ok u, r', e') \<Longrightarrow> delivered r' e e' \<and> or_encoded r' = or_encoded r"
  by (auto simp: send_resolved_def delivered_def split: res.splits prod.splits option.splits
      dest!: try_addresses_sent)

lemma send_response_delivers:
  assumes "send_response nw r e = (Ok u, r', e')"
  shows "delivered r' e e' \<and> or_encoded r' = or_encoded r"
proof (cases "di_transport (or_dest r)")
  case None
  with assms show ?thesis by (simp add: send_response_def send_resolved_delivers)
next
  case (Some ti)
  obtain ok e1 where snd: "ep_send (ti_transport ti) (or_encoded r) (ti_addr ti) e = (ok, e1)" by fastforce
  show ?thesis
  proof (cases ok)
    case True
    with assms Some snd ep_send_sent [OF snd] show ?thesis
      by (auto simp: send_response_def delivered_def)
  next
    case False
    with assms Some snd have "send_resolved nw r e1 = (Ok u, r', e')" by (simp add: send_response_def)
    from send_resolved_delivers [OF this] ep_send_sent [OF snd] ep_send_now [OF snd] show ?thesis
      by (metis (no_types, lifting) append.assoc delivered_def)
  qed
qed

lemma encode_response_nonempty: "encode_response r = Ok b \<Longrightarrow> b \<noteq> []"
  by (cases "show_headers (rs_headers r)") (auto simp: encode_response_def)

lemma encode_request_nonempty: "encode_request r = Ok b \<Longrightarrow> b \<noteq> []"
  by (cases "show_headers (rq_headers r)") (auto simp: encode_request_def show_request_line_def)

lemma send_outgoing_delivers:
  assumes "send_outgoing_response nw r e = (Ok u, r', e')"
  shows "delivered r' e e' \<and> or_encoded r' \<noteq> [] \<and>
    (or_encoded r = [] \<longrightarrow> encode_response (or_response r) = Ok (or_encoded r'))"
proof (cases "or_encoded r = []")
  case True
  with assms obtain b where b: "encode_response (or_response r) = Ok b"
    and "send_response nw (r\<lparr>or_encoded := b\<rparr>) e = (Ok u, r', e')"
    by (auto simp: send_outgoing_response_def split: res.splits)
  from send_response_delivers [OF this(2)] b encode_response_nonempty [OF b] show ?thesis by simp
next
  case False
  with assms have "send_response nw r e = (Ok u, r', e')"
    by (simp add: send_outgoing_response_def)
  from send_response_delivers [OF this] False show ?thesis by simp
qed

text \<open>A response counts as sent only when it was: after a successful send the last thing on the
  wire is the encoding of this response, at the address and on the transport the response remembers
  for the sends to come, whichever of the fallbacks led there.\<close>

theorem response_sent_last:
  assumes "send_outgoing_response nw r e = (Ok u, r', e')"
  shows "delivered r' e e' \<and> or_encoded r' \<noteq> [] \<and>
    (or_encoded r = [] \<longrightarrow> encode_response (or_response r) = Ok (or_encoded r'))"
  using assms by (rule send_outgoing_delivers)

theorem response_sent_last_witness:
  "\<exists>r' e'. send_outgoing_response sample_network
       \<lparr>or_response = response_new SC_Ok ''OK'',
        or_dest = get_response_destination (sample_request Bye sample_udp), or_encoded = []\<rparr> sample_endpoint =
     (Ok (), r', e') \<and> delivered r' sample_endpoint e' \<and> or_encoded r' \<noteq> []"
proof -
  let ?r = "\<lparr>or_response = response_new SC_Ok ''OK'',
        or_dest = get_response_destination (sample_request Bye sample_udp), or_encoded = []\<rparr>"
  have "di_transport (or_dest ?r) = Some \<lparr>ti_addr = sample_addr 1 5060, ti_transport = sample_udp\<rparr>"
    by (simp add: get_response_destination_def sample_request_def sample_mandatory_def sample_via_def
        via_new_udp_def via_new_with_transport_def sample_addr_def host_port_of_addr_def port_or_def
        proto_is_reliable_def)
  then obtain r' e' where "send_outgoing_response sample_network ?r sample_endpoint = (Ok (), r', e')"
    by (simp add: send_outgoing_response_def encode_response_def response_new_def send_response_def
        ep_send_def send_msg_def sample_endpoint_def new_world_def)
  from this response_sent_last [OF this] show ?thesis by blast
qed

end
