(* ===== verification/Client_Tsx.thy ===== *)
theory Client_Tsx
  imports Endpoint
begin

text \<open>
  The client transaction (\<open>rssip/src/transaction/client.rs\<close>): creation, provisional and final
  responses, the retransmissions of the request, the ACK of a failed INVITE, and the task that
  absorbs repeated final responses.

  Time is the clock of the endpoint's world, in milliseconds; the messages of the channel are the
  schedule of the transaction's receiver. An await that nothing ever ends is \<open>Blocked\<close>. Where a
  message and a timer fall on the same instant the message wins, and the retransmission timer wins
  over the deadline: the order in which the nested timeouts are polled.
\<close>

section \<open>Outcomes of an await\<close>

datatype 'a run = Returned 'a | Blocked

section \<open>State\<close>

record client_tsx =
  ct_key :: tsx_key
  ct_machine :: state_machine
  ct_request :: outgoing_request
  ct_rx :: "incoming_message receiver"
  ct_timeout :: nat

abbreviation ct_state :: "client_tsx \<Rightarrow> tsx_state" where
  "ct_state c \<equiv> sm_state (ct_machine c)"

definition ct_set_state :: "tsx_state \<Rightarrow> client_tsx \<Rightarrow> client_tsx" where
  "ct_set_state s c = c\<lparr>ct_machine := set_state s (ct_machine c)\<rparr>"

definition ct_method :: "client_tsx \<Rightarrow> sip_method" where
  "ct_method c = rl_method (rq_line (og_request (ct_request c)))"

definition ct_reliable :: "client_tsx \<Rightarrow> bool" where
  "ct_reliable c = tp_reliable (ti_transport (og_target (ct_request c)))"

section \<open>Creation\<close>

text \<open>The first Via of the headers gets a branch if it has none; without a Via one is put first.
  The headers and the branch are returned.\<close>

fun with_branch :: "bytes \<Rightarrow> headers \<Rightarrow> (headers \<times> bytes) option" where
  "with_branch rnd [] = None"
| "with_branch rnd (h # hs) =
     (case h of
        H_Via v \<Rightarrow>
          (case v_branch v of
             Some b \<Rightarrow> Some (H_Via v # hs, b)
           | None \<Rightarrow> let b = generate_branch rnd in Some (H_Via (v\<lparr>v_branch := Some b\<rparr>) # hs, b))
      | _ \<Rightarrow> map_option (\<lambda>(hs', b). (h # hs', b)) (with_branch rnd hs))"

definition ensure_via :: "bytes \<Rightarrow> target_info \<Rightarrow> headers \<Rightarrow> headers \<times> bytes" where
  "ensure_via rnd ti hs =
     (case with_branch rnd hs of
        Some r \<Rightarrow> r
      | None \<Rightarrow>
          let b = generate_branch rnd in
          (H_Via (via_new_with_transport (tp_protocol (ti_transport ti))
                    (host_port_of_addr (tp_local (ti_transport ti))) (Some b) (Some (Rport None))) # hs, b))"

definition client_send ::
  "network \<Rightarrow> request \<Rightarrow> (transport \<times> socket_addr) option \<Rightarrow> bytes \<Rightarrow> nat \<Rightarrow>
   incoming_message receiver \<Rightarrow> endpoint \<Rightarrow> (error, client_tsx) res \<times> endpoint" where
  "client_send nw r target rnd chan rx e =
     (let method = rl_method (rq_line r) in
      if method = Ack then (Panic, e)
      else
        case create_outgoing_request nw r target e of
          (Ok og, e1) \<Rightarrow>
            (case ensure_via rnd (og_target og) (rq_headers (og_request og)) of
               (hs, b) \<Rightarrow>
                 let og1 = og\<lparr>og_request := (og_request og)\<lparr>rq_headers := hs\<rparr>\<rparr>;
                     key = new_key_3261 Uac method b
                 in (case send_outgoing_request og1 e1 of
                       (Ok u, og2, e2) \<Rightarrow>
                         (Ok \<lparr>ct_key = key,
                              ct_machine = machine_new (if method = Invite then Calling else Trying),
                              ct_request = og2, ct_rx = rx, ct_timeout = ep_now e2 + T1 * 64\<rparr>,
                          e2\<lparr>ep_transactions := add_transaction key chan (ep_transactions e2)\<rparr>)
                     | (Err err, og2, e2) \<Rightarrow> (Err err, e2)
                     | (Panic, og2, e2) \<Rightarrow> (Panic, e2)
                     | (OutOfFuel, og2, e2) \<Rightarrow> (OutOfFuel, e2)))
        | (Err err, e1) \<Rightarrow> (Err err, e1)
        | (Panic, e1) \<Rightarrow> (Panic, e1)
        | (OutOfFuel, e1) \<Rightarrow> (OutOfFuel, e1))"

text \<open>Dropping the transaction takes its key out of the table.\<close>

definition client_drop :: "client_tsx \<Rightarrow> endpoint \<Rightarrow> endpoint" where
  "client_drop c e = e\<lparr>ep_transactions := remove_transaction (ct_key c) (ep_transactions e)\<rparr>"

section \<open>Waiting for a response\<close>

fun response_that :: "(incoming_response \<Rightarrow> bool) \<Rightarrow> incoming_message \<Rightarrow> bool" where
  "response_that cond (IncomingResponse r) = cond r"
| "response_that cond (IncomingRequest r) = False"

fun as_response :: "incoming_message option \<Rightarrow> incoming_response option" where
  "as_response (Some (IncomingResponse r)) = Some r"
| "as_response _ = None"

definition ct_recv_if ::
  "(incoming_response \<Rightarrow> bool) \<Rightarrow> client_tsx \<Rightarrow> incoming_response option \<times> client_tsx" where
  "ct_recv_if cond c =
     (case rx_recv_if (response_that cond) (ct_rx c) of (m, rx) \<Rightarrow> (as_response m, c\<lparr>ct_rx := rx\<rparr>))"

text \<open>The time at which the channel answers, if it does so no later than \<open>limit\<close>.\<close>

definition ready_by :: "nat \<Rightarrow> 'm receiver \<Rightarrow> endpoint \<Rightarrow> nat option" where
  "ready_by limit rx e =
     (case rx_ready rx of
        Some t \<Rightarrow> if max (ep_now e) t \<le> limit then Some (max (ep_now e) t) else None
      | None \<Rightarrow> None)"

type_synonym client_result = "(error, incoming_response option) res \<times> client_tsx \<times> endpoint"

definition ct_receive :: "(incoming_response \<Rightarrow> bool) \<Rightarrow> nat \<Rightarrow> client_tsx \<Rightarrow> endpoint \<Rightarrow> client_result" where
  "ct_receive pred t c e = (case ct_recv_if pred c of (x, c') \<Rightarrow> (Ok x, c', wait_until t e))"

definition ct_time_out :: "client_tsx \<Rightarrow> endpoint \<Rightarrow> client_result" where
  "ct_time_out c e =
     (Err (E_Transaction TsxTimeout), ct_set_state Terminated c, wait_until (ct_timeout c) e)"

text \<open>The loop of the unreliable transport; the interval is \<open>T1 * 2 ^ n\<close>, doubled each time.\<close>

lemma ep_now_wait [simp]: "ep_now (wait_until t e) = max (ep_now e) t"
  by (simp add: ep_now_def wait_until_def)

lemma ep_now_send [simp]: "ep_now (snd (ep_send t buf a e)) = ep_now e"
  by (simp add: ep_now_def ep_send_def send_msg_def)

lemma ep_now_send_request [simp]:
  "send_outgoing_request r e = (x, r', e') \<Longrightarrow> ep_now e' = ep_now e"
  by (auto simp: send_outgoing_request_def Let_def split: res.splits if_splits)

lemma T1_pos [simp]: "0 < T1"
  by (simp add: T1_def)

lemma tick_progress:
  fixes now d :: nat
  assumes "now' = max now (now + T1 * 2 ^ n)" and "now + T1 * 2 ^ n \<le> max now d"
  shows "d - now' < d - now"
proof -
  define k where "k = T1 * 2 ^ n"
  have "0 < k" by (simp add: k_def)
  with assms show ?thesis unfolding k_def [symmetric] by linarith
qed

function retransmit_until ::
  "(incoming_response \<Rightarrow> bool) \<Rightarrow> nat \<Rightarrow> client_tsx \<Rightarrow> endpoint \<Rightarrow> client_result" where
  "retransmit_until pred n c e =
     (let tick = ep_now e + T1 * 2 ^ n; limit = max (ep_now e) (ct_timeout c) in
      case ready_by (min tick limit) (ct_rx c) e of
        Some t \<Rightarrow> ct_receive pred t c e
      | None \<Rightarrow>
          if tick \<le> limit then
            (case send_outgoing_request (ct_request c) (wait_until tick e) of
               (Ok u, og, e') \<Rightarrow> retransmit_until pred (Suc n) (c\<lparr>ct_request := og\<rparr>) e'
             | (Err err, og, e') \<Rightarrow> (Err err, c\<lparr>ct_request := og\<rparr>, e')
             | (Panic, og, e') \<Rightarrow> (Panic, c\<lparr>ct_request := og\<rparr>, e')
             | (OutOfFuel, og, e') \<Rightarrow> (OutOfFuel, c\<lparr>ct_request := og\<rparr>, e'))
          else ct_time_out c e)"
  by pat_completeness auto
termination
proof (relation "measure (\<lambda>(pred, n, c, e). ct_timeout c - ep_now e)", goal_cases)
  case 2
  then show ?case
    by (auto dest!: sym [of "(Ok _, _)"] ep_now_send_request intro!: tick_progress)
qed simp

declare retransmit_until.simps [simp del]

definition receive_by_deadline ::
  "(incoming_response \<Rightarrow> bool) \<Rightarrow> client_tsx \<Rightarrow> endpoint \<Rightarrow> client_result" where
  "receive_by_deadline pred c e =
     (case ready_by (max (ep_now e) (ct_timeout c)) (ct_rx c) e of
        Some t \<Rightarrow> ct_receive pred t c e
      | None \<Rightarrow> ct_time_out c e)"

definition receive_response_if ::
  "(incoming_response \<Rightarrow> bool) \<Rightarrow> client_tsx \<Rightarrow> endpoint \<Rightarrow> client_result run" where
  "receive_response_if pred c e =
     (if ct_state c = Calling \<or> ct_state c = Trying then
        if \<not> ct_reliable c then Returned (retransmit_until pred 0 c e)
        else Returned (receive_by_deadline pred c e)
      else if ct_state c = Proceeding then
        if ct_method c = Invite then
          (case rx_ready (ct_rx c) of
             Some t \<Rightarrow> Returned (ct_receive pred (max (ep_now e) t) c e)
           | None \<Rightarrow> Blocked)
        else Returned (receive_by_deadline pred c e)
      else Returned (Panic, c, e))"

definition response_code :: "incoming_response \<Rightarrow> status_code" where
  "response_code r = sl_code (rs_line (is_response r))"

definition receive_provisional_response :: "client_tsx \<Rightarrow> endpoint \<Rightarrow> client_result run" where
  "receive_provisional_response c e =
     (if ct_state c \<le> Proceeding then
        (case receive_response_if (\<lambda>r. is_provisional (response_code r)) c e of
           Returned (Ok x, c', e') \<Rightarrow>
             Returned (Ok x, if ct_state c \<noteq> Proceeding then ct_set_state Proceeding c' else c', e')
         | r \<Rightarrow> r)
      else Returned (Ok None, c, e))"

section \<open>The final response\<close>

definition create_ack_request :: "outgoing_request \<Rightarrow> incoming_response \<Rightarrow> (error, outgoing_request) res" where
  "create_ack_request og r =
     (let code = as_u16 (response_code r); m = ii_mandatory (is_info r) in
      if 300 \<le> code \<and> code < 699 then
        Ok \<lparr>og_request =
              request_with_headers Ack (rl_uri (rq_line (og_request og)))
                (into_headers (m\<lparr>mh_cseq := \<lparr>cs_cseq = cs_cseq (mh_cseq m), cs_method = Ack\<rparr>\<rparr>)),
            og_target = og_target og, og_encoded = []\<rparr>
      else Panic)"

text \<open>The task left behind by a completed transaction: until its timer it answers every response
  with the ACK, if there is one.\<close>

record completed_task =
  cp_timer :: nat
  cp_ack :: "outgoing_request option"
  cp_client :: client_tsx

fun absorb ::
  "nat \<Rightarrow> outgoing_request option \<Rightarrow> (nat \<times> incoming_message) list \<Rightarrow> nat option \<Rightarrow> endpoint \<Rightarrow> endpoint" where
  "absorb timer ack [] closes e =
     (case closes of
        Some t \<Rightarrow> if max (ep_now e) t \<le> max (ep_now e) timer then wait_until t e else wait_until timer e
      | None \<Rightarrow> wait_until timer e)"
| "absorb timer ack ((t, m) # ms) closes e =
     (if max (ep_now e) t \<le> max (ep_now e) timer then
        let e1 = wait_until t e in
        (case m of
           IncomingResponse r \<Rightarrow>
             (case ack of
                None \<Rightarrow> absorb timer ack ms closes e1
              | Some a \<Rightarrow>
                  (case send_outgoing_request a e1 of
                     (r, a', e2) \<Rightarrow> absorb timer (Some a') ms closes e2))
         | IncomingRequest r \<Rightarrow> e1)
      else wait_until timer e)"

definition rx_items :: "'m receiver \<Rightarrow> (nat \<times> 'm) list" where
  "rx_items r = (case rx_peeked r of None \<Rightarrow> [] | Some m \<Rightarrow> [(0, m)]) @ rx_schedule r"

definition run_completed :: "completed_task \<Rightarrow> endpoint \<Rightarrow> endpoint" where
  "run_completed k e =
     client_drop (cp_client k)
       (absorb (cp_timer k) (cp_ack k) (rx_items (ct_rx (cp_client k))) (rx_closes (ct_rx (cp_client k))) e)"

text \<open>\<open>receive_final_response\<close> consumes the transaction: the result is the response, the state the
  transaction is left in, the task spawned for it, and the endpoint. Without a task the transaction
  is dropped at the return.\<close>

definition receive_final ::
  "client_tsx \<Rightarrow> endpoint \<Rightarrow> ((error, incoming_response) res \<times> client_tsx \<times> endpoint) run" where
  "receive_final c e =
     (case receive_response_if (\<lambda>r. is_final (response_code r)) c e of
        Returned (Ok x, c', e') \<Rightarrow> Returned (ok_or x E_ChannelClosed, c', e')
      | Returned (Err err, c', e') \<Rightarrow> Returned (Err err, c', e')
      | Returned (Panic, c', e') \<Rightarrow> Returned (Panic, c', e')
      | Returned (OutOfFuel, c', e') \<Rightarrow> Returned (OutOfFuel, c', e')
      | Blocked \<Rightarrow> Blocked)"

type_synonym final_result =
  "(error, incoming_response) res \<times> tsx_state \<times> completed_task option \<times> endpoint"

definition final_without_task ::
  "(error, incoming_response) res \<Rightarrow> client_tsx \<Rightarrow> endpoint \<Rightarrow> final_result" where
  "final_without_task r c e = (r, ct_state c, None, client_drop c e)"

definition complete_client :: "incoming_response \<Rightarrow> client_tsx \<Rightarrow> endpoint \<Rightarrow> final_result" where
  "complete_client r c e =
     (let c1 = ct_set_state Completed c in
      if ct_method c = Invite then
        (case create_ack_request (ct_request c) r of
           Ok ack \<Rightarrow>
             (case send_outgoing_request ack e of
                (Ok u, ack', e') \<Rightarrow>
                  (Ok r, Completed,
                   Some \<lparr>cp_timer = ep_now e' + 64 * T1, cp_ack = Some ack', cp_client = c1\<rparr>, e')
              | (Err err, ack', e') \<Rightarrow> final_without_task (Err err) c1 e'
              | (Panic, ack', e') \<Rightarrow> final_without_task Panic c1 e'
              | (OutOfFuel, ack', e') \<Rightarrow> final_without_task OutOfFuel c1 e')
         | Err err \<Rightarrow> final_without_task (Err err) c1 e
         | Panic \<Rightarrow> final_without_task Panic c1 e
         | OutOfFuel \<Rightarrow> final_without_task OutOfFuel c1 e)
      else (Ok r, Completed, Some \<lparr>cp_timer = ep_now e + T4, cp_ack = None, cp_client = c1\<rparr>, e))"

definition receive_final_response :: "client_tsx \<Rightarrow> endpoint \<Rightarrow> final_result run" where
  "receive_final_response c e =
     (case receive_final c e of
        Returned (Ok r, c', e') \<Rightarrow>
          let code = as_u16 (response_code r) in
          if ct_reliable c' \<or>
             (ct_method c' = Invite \<and> 200 \<le> code \<and> code < 299 \<and>
              (ct_state c' = Calling \<or> ct_state c' = Proceeding))
          then Returned (final_without_task (Ok r) (ct_set_state Terminated c') e')
          else Returned (complete_client r c' e')
      | Returned (res, c', e') \<Rightarrow> Returned (final_without_task res c' e')
      | Blocked \<Rightarrow> Blocked)"

end
