(* ===== verification/Client_Laws.thy ===== *)
theory Client_Laws
  imports Client_Tsx
begin

text \<open>
  What the client transaction does over time: the retransmission schedule, the timeout, the ACK of
  a failed INVITE, and the life of its entry in the table of transactions.
\<close>

section \<open>Sending\<close>

definition transmit :: "outgoing_request \<Rightarrow> endpoint \<Rightarrow> endpoint" where
  "transmit r e = snd (ep_send (ti_transport (og_target r)) (og_encoded r) (ti_addr (og_target r)) e)"

lemma send_encoded_request:
  "og_encoded r \<noteq> [] \<Longrightarrow> send_outgoing_request r e = (Ok (), r, transmit r e)"
  by (simp add: send_outgoing_request_def transmit_def Let_def)

definition record_of :: "outgoing_request \<Rightarrow> nat \<Rightarrow> nat \<times> transport \<times> bytes \<times> socket_addr" where
  "record_of r t = (t, ti_transport (og_target r), og_encoded r, ti_addr (og_target r))"

lemma sent_transmit [simp]: "sent (transmit r e) = sent e @ [record_of r (ep_now e)]"
  by (simp add: transmit_def ep_send_def send_msg_def record_of_def ep_now_def)

lemma ep_now_transmit [simp]: "ep_now (transmit r e) = ep_now e"
  by (simp add: transmit_def)

lemma ep_transactions_transmit [simp]: "ep_transactions (transmit r e) = ep_transactions e"
  by (simp add: transmit_def ep_send_def send_msg_def)

lemma sent_wait [simp]: "sent (wait_until t e) = sent e"
  by (simp add: wait_until_def)

lemma ep_transactions_wait [simp]: "ep_transactions (wait_until t e) = ep_transactions e"
  by (simp add: wait_until_def)

section \<open>The retransmission schedule\<close>

text \<open>The time of the \<open>k\<close>-th retransmission of a loop that starts at \<open>s\<close>.\<close>

definition tick :: "nat \<Rightarrow> nat \<Rightarrow> nat" where
  "tick s k = s + (2 ^ k - 1) * T1"

lemma tick_0 [simp]: "tick s 0 = s"
  by (simp add: tick_def)

lemma tick_Suc: "tick s (Suc k) = tick s k + T1 * 2 ^ k"
proof -
  obtain m where "(2::nat) ^ k = Suc m" by (cases "(2::nat) ^ k") simp_all
  then show ?thesis
    unfolding tick_def by (simp add: algebra_simps)
qed

lemma tick_less [simp]: "tick s k < tick s (Suc k)"
  by (simp add: tick_Suc T1_def)

lemma tick_mono: "i \<le> j \<Longrightarrow> tick s i \<le> tick s j"
  by (rule lift_Suc_mono_le [where f = "tick s"]) (simp_all add: less_imp_le)

text \<open>The endpoint after the first \<open>k\<close> retransmissions.\<close>

fun retransmitted :: "outgoing_request \<Rightarrow> nat \<Rightarrow> endpoint \<Rightarrow> nat \<Rightarrow> endpoint" where
  "retransmitted r s e 0 = e"
| "retransmitted r s e (Suc k) = transmit r (wait_until (tick s (Suc k)) (retransmitted r s e k))"

lemma ep_now_retransmitted: "ep_now e = s \<Longrightarrow> ep_now (retransmitted r s e k) = tick s k"
  by (induction k) (simp_all add: max_absorb2 less_imp_le)

lemma ep_transactions_retransmitted [simp]:
  "ep_transactions (retransmitted r s e k) = ep_transactions e"
  by (induction k) simp_all

lemma sent_retransmitted:
  "ep_now e = s \<Longrightarrow> sent (retransmitted r s e k) = sent e @ map (record_of r) (map (tick s) [1..<Suc k])"
proof (induction k)
  case (Suc k)
  then show ?case
    by (simp add: ep_now_retransmitted max_absorb2 less_imp_le)
qed simp

section \<open>One turn of the loop\<close>

text \<open>Nothing on the channel up to a time.\<close>

definition silent_until :: "nat \<Rightarrow> 'm receiver \<Rightarrow> bool" where
  "silent_until t rx \<longleftrightarrow> (\<forall>u. rx_ready rx = Some u \<longrightarrow> t < u)"

lemma ready_by_silent:
  assumes "silent_until l rx" and "l' \<le> l"
  shows "ready_by l' rx e = None"
proof (cases "rx_ready rx")
  case (Some u)
  with assms have "l' < u" by (simp add: silent_until_def)
  with Some show ?thesis by (simp add: ready_by_def)
qed (simp add: ready_by_def)

lemma ready_by_ready:
  "rx_ready rx = Some t \<Longrightarrow> max (ep_now e) t \<le> l \<Longrightarrow> ready_by l rx e = Some (max (ep_now e) t)"
  by (simp add: ready_by_def del: max.bounded_iff)

lemma retransmit_turn:
  assumes "og_encoded (ct_request c) \<noteq> []" and "silent_until (ep_now e + T1 * 2 ^ n) (ct_rx c)"
    and "ep_now e + T1 * 2 ^ n \<le> ct_timeout c"
  shows "retransmit_until pred n c e =
    retransmit_until pred (Suc n) c (transmit (ct_request c) (wait_until (ep_now e + T1 * 2 ^ n) e))"
proof -
  have "ready_by (min (ep_now e + T1 * 2 ^ n) (max (ep_now e) (ct_timeout c))) (ct_rx c) e = None"
    by (rule ready_by_silent [OF assms(2)]) simp
  with assms show ?thesis
    by (subst retransmit_until.simps) (simp add: send_encoded_request Let_def)
qed

lemma retransmit_turns:
  assumes "og_encoded (ct_request c) \<noteq> []" and "ep_now e = s"
  shows "silent_until (tick s k) (ct_rx c) \<Longrightarrow> tick s k \<le> ct_timeout c \<Longrightarrow>
    retransmit_until pred 0 c e = retransmit_until pred k c (retransmitted (ct_request c) s e k)"
proof (induction k)
  case (Suc k)
  have le: "tick s k \<le> tick s (Suc k)" by (simp add: less_imp_le)
  have "retransmit_until pred 0 c e = retransmit_until pred k c (retransmitted (ct_request c) s e k)"
    by (rule Suc.IH) (use Suc.prems le in \<open>auto simp: silent_until_def\<close>)
  also have "\<dots> = retransmit_until pred (Suc k) c (retransmitted (ct_request c) s e (Suc k))"
    using retransmit_turn [OF assms(1), of "retransmitted (ct_request c) s e k" k pred] Suc.prems
    by (simp add: ep_now_retransmitted [OF assms(2)] tick_Suc)
  finally show ?case .
qed simp

lemma retransmit_answered:
  assumes "rx_ready (ct_rx c) = Some t" and "ep_now e \<le> t" and "t \<le> ep_now e + T1 * 2 ^ n"
    and "t \<le> ct_timeout c"
  shows "retransmit_until pred n c e = ct_receive pred t c e"
  using assms by (subst retransmit_until.simps) (simp add: ready_by_def max_absorb2)

lemma retransmit_times_out:
  assumes "silent_until (max (ep_now e) (ct_timeout c)) (ct_rx c)"
    and "max (ep_now e) (ct_timeout c) < ep_now e + T1 * 2 ^ n"
  shows "retransmit_until pred n c e = ct_time_out c e"
proof -
  have "ready_by (min (ep_now e + T1 * 2 ^ n) (max (ep_now e) (ct_timeout c))) (ct_rx c) e = None"
    by (rule ready_by_silent [OF assms(1)]) simp
  moreover have "\<not> ep_now e + T1 * 2 ^ n \<le> max (ep_now e) (ct_timeout c)"
    using assms(2) by (simp only: not_le)
  ultimately show ?thesis
    by (subst retransmit_until.simps) (simp only: Let_def option.case if_False)
qed

text \<open>The retransmissions a client makes in its 64 T1: at 0.5, 1.5, 3.5, 7.5, 15.5 and 31.5 seconds.\<close>

definition retransmission_times :: "nat \<Rightarrow> nat list" where
  "retransmission_times s = map (tick s) [1..<7]"

lemma retransmission_times_eq:
  "retransmission_times s = [s + 500, s + 1500, s + 3500, s + 7500, s + 15500, s + 31500]"
  by (simp add: retransmission_times_def tick_def T1_def upt_rec)

text \<open>Which of the first retransmissions have been made before a given time.\<close>

lemma schedule_before:
  fixes f :: "nat \<Rightarrow> nat"
  assumes mono: "\<And>i j. i \<le> j \<Longrightarrow> f i \<le> f j"
  shows "\<exists>k \<le> n. filter (\<lambda>x. x < t) (map f [1..<Suc n]) = map f [1..<Suc k] \<and>
     (k = 0 \<or> f k < t) \<and> (k = n \<or> t \<le> f (Suc k))"
proof (induction n)
  case (Suc n)
  show ?case
  proof (cases "f (Suc n) < t")
    case True
    then have "f i < t" if "i \<le> Suc n" for i
      using mono [OF that] by simp
    then have "filter (\<lambda>x. x < t) (map f [1..<Suc (Suc n)]) = map f [1..<Suc (Suc n)]"
      by (auto simp: filter_id_conv)
    with True show ?thesis by blast
  next
    case False
    then have "filter (\<lambda>x. x < t) (map f [1..<Suc (Suc n)]) = filter (\<lambda>x. x < t) (map f [1..<Suc n])"
      by simp
    with Suc.IH False show ?thesis by (metis le_SucI not_less)
  qed
qed simp

section \<open>Waiting\<close>

definition ct_fresh :: "client_tsx \<Rightarrow> endpoint \<Rightarrow> bool" where
  "ct_fresh c e \<longleftrightarrow>
     (ct_state c = Calling \<or> ct_state c = Trying) \<and> og_encoded (ct_request c) \<noteq> [] \<and>
     ct_timeout c = ep_now e + 64 * T1"

lemma receive_unreliable:
  "ct_fresh c e \<Longrightarrow> \<not> ct_reliable c \<Longrightarrow>
     receive_response_if pred c e = Returned (retransmit_until pred 0 c e)"
  by (auto simp: ct_fresh_def receive_response_if_def)

lemma tick_limits: "tick s 6 \<le> s + 64 * T1" "s + 64 * T1 < tick s 7"
  by (simp_all add: tick_def T1_def)

lemma retransmit_unanswered:
  assumes "ct_fresh c e" and "rx_ready (ct_rx c) = None"
  defines "e6 \<equiv> retransmitted (ct_request c) (ep_now e) e 6"
  shows "retransmit_until pred 0 c e = ct_time_out c e6"
proof -
  have now6: "ep_now e6 = tick (ep_now e) 6"
    unfolding e6_def by (rule ep_now_retransmitted) simp
  have "retransmit_until pred 0 c e = retransmit_until pred 6 c e6"
    unfolding e6_def
    by (rule retransmit_turns)
      (use assms(1,2) tick_limits in \<open>auto simp: ct_fresh_def silent_until_def\<close>)
  also have "\<dots> = ct_time_out c e6"
  proof (rule retransmit_times_out)
    show "silent_until (max (ep_now e6) (ct_timeout c)) (ct_rx c)"
      using assms(2) by (simp add: silent_until_def)
    have "tick (ep_now e) 7 = ep_now e6 + T1 * 2 ^ 6"
      using tick_Suc [of "ep_now e" 6] now6 by simp
    moreover have "tick (ep_now e) 6 < tick (ep_now e) 7"
      using tick_limits [of "ep_now e"] by linarith
    ultimately show "max (ep_now e6) (ct_timeout c) < ep_now e6 + T1 * 2 ^ 6"
      using assms(1) now6 tick_limits(2) [of "ep_now e"] by (simp add: ct_fresh_def)
  qed
  finally show ?thesis .
qed

lemma retransmit_until_answer:
  assumes "ct_fresh c e" and "rx_ready (ct_rx c) = Some t" and "ep_now e \<le> t" and "t \<le> ep_now e + 64 * T1"
  obtains e1 where "retransmit_until pred 0 c e = ct_receive pred t c e1"
    and "sent e1 = sent e @ map (record_of (ct_request c))
           (filter (\<lambda>x. x < t) (retransmission_times (ep_now e)))"
    and "ep_now e1 \<le> t" and "ep_transactions e1 = ep_transactions e"
proof -
  let ?s = "ep_now e"
  obtain k where k: "k \<le> 6" "k = 0 \<or> tick ?s k < t" "k = 6 \<or> t \<le> tick ?s (Suc k)"
    and ticks: "filter (\<lambda>x. x < t) (map (tick ?s) [1..<Suc 6]) = map (tick ?s) [1..<Suc k]"
    using schedule_before [of "tick ?s" 6 t, OF tick_mono] by blast
  define e1 where "e1 = retransmitted (ct_request c) ?s e k"
  have now1: "ep_now e1 = tick ?s k"
    unfolding e1_def by (rule ep_now_retransmitted) simp
  have sent1: "sent e1 = sent e @ map (record_of (ct_request c)) (map (tick ?s) [1..<Suc k])"
    unfolding e1_def by (rule sent_retransmitted) simp
  have before: "tick ?s k \<le> t" using k(2) assms(3) by auto
  have after: "t \<le> tick ?s (Suc k)"
    using k(3) assms(4) tick_limits(2) [of ?s] by (auto simp: eval_nat_numeral)
  have "retransmit_until pred 0 c e = retransmit_until pred k c e1"
  proof (cases "k = 0")
    case False
    with k(2) have "tick ?s k < t" by simp
    then show ?thesis
      unfolding e1_def
      by (intro retransmit_turns)
        (use assms in \<open>auto simp: ct_fresh_def silent_until_def\<close>)
  qed (simp add: e1_def)
  also have "\<dots> = ct_receive pred t c e1"
    by (rule retransmit_answered)
      (use assms before after now1 in \<open>auto simp: ct_fresh_def tick_Suc\<close>)
  finally show ?thesis
    using sent1 ticks before now1
    by (intro that [of e1]) (simp_all add: retransmission_times_def e1_def)
qed

section \<open>Properties\<close>

text \<open>A client for the concrete instances.\<close>

definition sample_client :: "sip_method \<Rightarrow> transport \<Rightarrow> incoming_message receiver \<Rightarrow> client_tsx" where
  "sample_client m tp rx =
     \<lparr>ct_key = new_key_3261 Uac m ''z9hG4bKabcdefgh'',
      ct_machine = machine_new (if m = Invite then Calling else Trying),
      ct_request = \<lparr>og_request = ir_request (sample_request m tp),
                    og_target = \<lparr>ti_addr = sample_addr 2 5060, ti_transport = tp\<rparr>,
                    og_encoded = method_str m\<rparr>,
      ct_rx = rx, ct_timeout = 64 * T1\<rparr>"

lemma sample_client_fresh: "ct_fresh (sample_client Invite tp rx) sample_endpoint"
  by (simp add: ct_fresh_def sample_client_def sample_endpoint_def new_world_def ep_now_def)

lemma sample_client_fields [simp]:
  "ct_reliable (sample_client m tp rx) = tp_reliable tp" "ct_method (sample_client m tp rx) = m"
  "ct_rx (sample_client m tp rx) = rx"
  by (simp_all add: sample_client_def ct_reliable_def ct_method_def sample_request_def request_with_headers_def)

lemma sample_now [simp]: "ep_now sample_endpoint = 0" "sent sample_endpoint = []"
  by (simp_all add: sample_endpoint_def new_world_def ep_now_def)

lemma sample_udp_unreliable [simp]: "tp_reliable sample_udp = False"
  by (simp add: sample_udp_def udp_transport_def)

lemma sample_response_code [simp]: "response_code (sample_response m code t) = code"
  by (simp add: response_code_def sample_response_def create_response_def Let_def)

definition ct_dropped :: "client_tsx \<Rightarrow> endpoint \<Rightarrow> endpoint \<Rightarrow> bool" where
  "ct_dropped c e e' \<longleftrightarrow> ep_transactions e' = remove_transaction (ct_key c) (ep_transactions e)"

lemma ct_set_state_fields [simp]:
  "ct_state (ct_set_state s c) = s" "ct_key (ct_set_state s c) = ct_key c"
  "ct_request (ct_set_state s c) = ct_request c" "ct_rx (ct_set_state s c) = ct_rx c"
  "ct_timeout (ct_set_state s c) = ct_timeout c"
  "ct_reliable (ct_set_state s c) = ct_reliable c" "ct_method (ct_set_state s c) = ct_method c"
  by (simp_all add: ct_set_state_def ct_reliable_def ct_method_def)

lemma client_drop_fields [simp]:
  "ep_now (client_drop c e) = ep_now e" "sent (client_drop c e) = sent e"
  "ep_transactions (client_drop c e) = remove_transaction (ct_key c) (ep_transactions e)"
  by (simp_all add: client_drop_def ep_now_def)

text \<open>C5: A request that nobody answers on an unreliable transport: the client sends it again after
  0.5, 1.5, 3.5, 7.5, 15.5 and 31.5 seconds, the same bytes to the same address each time, gives up
  after 64 T1 with a timeout, and leaves the table of transactions. The interval is never held at
  T2.\<close>

theorem unanswered_request_times_out:
  assumes "ct_fresh c e" and "\<not> ct_reliable c" and "rx_ready (ct_rx c) = None"
  shows "\<exists>e'. receive_final_response c e = Returned (Err (E_Transaction TsxTimeout), Terminated, None, e') \<and>
    ep_now e' = ep_now e + 32000 \<and> ct_dropped c e e' \<and>
    sent e' = sent e @ map (record_of (ct_request c))
      [ep_now e + 500, ep_now e + 1500, ep_now e + 3500, ep_now e + 7500, ep_now e + 15500, ep_now e + 31500]"
proof -
  let ?e6 = "retransmitted (ct_request c) (ep_now e) e 6"
  have "receive_final c e = Returned (Err (E_Transaction TsxTimeout), ct_set_state Terminated c,
      wait_until (ct_timeout c) ?e6)"
    using assms
    by (simp add: receive_final_def receive_unreliable retransmit_unanswered ct_time_out_def)
  then have "receive_final_response c e = Returned (Err (E_Transaction TsxTimeout), Terminated, None,
      client_drop c (wait_until (ct_timeout c) ?e6))"
    by (simp add: receive_final_response_def final_without_task_def client_drop_def)
  moreover have "sent ?e6 = sent e @ map (record_of (ct_request c)) (retransmission_times (ep_now e))"
    by (simp add: sent_retransmitted retransmission_times_def)
  ultimately show ?thesis
    using assms(1) tick_limits(1) [of "ep_now e"]
    by (simp add: ep_now_retransmitted ct_fresh_def T1_def ct_dropped_def retransmission_times_eq)
qed

theorem unanswered_request_times_out_witness:
  "\<exists>e'. receive_final_response (sample_client Invite sample_udp (receiver_new [] None)) sample_endpoint =
     Returned (Err (E_Transaction TsxTimeout), Terminated, None, e') \<and> ep_now e' = 32000 \<and>
     map fst (sent e') = [500, 1500, 3500, 7500, 15500, 31500]"
proof -
  let ?c = "sample_client Invite sample_udp (receiver_new [] None)"
  have "rx_ready (ct_rx ?c) = None" by (simp add: rx_ready_def receiver_new_def)
  from unanswered_request_times_out [OF sample_client_fresh _ this]
  obtain e' where "receive_final_response ?c sample_endpoint =
      Returned (Err (E_Transaction TsxTimeout), Terminated, None, e')" "ep_now e' = 32000"
    "sent e' = map (record_of (ct_request ?c)) [500, 1500, 3500, 7500, 15500, 31500]"
    by auto
  then show ?thesis by (simp add: record_of_def)
qed

text \<open>What the caller gets for the first response that reaches a fresh transaction.\<close>

lemma receive_final_answered:
  assumes "ct_fresh c e" and "\<not> ct_reliable c"
    and rx: "ct_rx c = receiver_new ((t, IncomingResponse r) # later) closes"
    and t: "ep_now e \<le> t" "t \<le> ep_now e + 64 * T1"
    and final: "is_final (response_code r)"
  obtains e1 where
    "receive_final c e = Returned (Ok r, c\<lparr>ct_rx := receiver_new later closes\<rparr>, e1)"
    and "sent e1 = sent e @ map (record_of (ct_request c))
           (filter (\<lambda>x. x < t) (retransmission_times (ep_now e)))"
    and "ep_now e1 = t" and "ep_transactions e1 = ep_transactions e"
proof -
  have ready: "rx_ready (ct_rx c) = Some t" by (simp add: rx rx_ready_def receiver_new_def)
  obtain e0 where e0: "retransmit_until (\<lambda>r. is_final (response_code r)) 0 c e =
      ct_receive (\<lambda>r. is_final (response_code r)) t c e0"
    and "sent e0 = sent e @ map (record_of (ct_request c))
           (filter (\<lambda>x. x < t) (retransmission_times (ep_now e)))"
    and "ep_now e0 \<le> t" and "ep_transactions e0 = ep_transactions e"
    by (rule retransmit_until_answer [OF assms(1) ready t])
  moreover have "ct_receive (\<lambda>r. is_final (response_code r)) t c e0 =
      (Ok (Some r), c\<lparr>ct_rx := receiver_new later closes\<rparr>, wait_until t e0)"
    using final by (simp add: ct_receive_def ct_recv_if_def rx rx_recv_if_def rx_peek_def receiver_new_def)
  ultimately show ?thesis
    using assms(1,2)
    by (intro that [of "wait_until t e0"])
      (simp_all add: receive_final_def receive_unreliable ok_or_def max_absorb2)
qed

lemma into_headers_printed: "\<exists>hs. show_headers (into_headers m) = Ok hs"
  by (simp add: into_headers_def)

definition ack_for :: "outgoing_request \<Rightarrow> incoming_response \<Rightarrow> request" where
  "ack_for og r =
     (let m = ii_mandatory (is_info r) in
      request_with_headers Ack (rl_uri (rq_line (og_request og)))
        (into_headers (m\<lparr>mh_cseq := \<lparr>cs_cseq = cs_cseq (mh_cseq m), cs_method = Ack\<rparr>\<rparr>)))"

lemma no_code_at_range_end: "as_u16 c \<noteq> 299" "as_u16 c \<noteq> 699"
  by (cases c; simp)+

lemma final_code_cases:
  "is_final c \<Longrightarrow> (200 \<le> as_u16 c \<and> as_u16 c < 299) \<or> (300 \<le> as_u16 c \<and> as_u16 c < 699)"
  using as_u16_range [of c] no_code_at_range_end [of c]
  by (auto simp: is_final_def is_provisional_def word_le_nat_alt word_less_nat_alt word_unat_eq_iff)

lemma failure_is_final: "300 \<le> as_u16 c \<Longrightarrow> is_final c \<and> 300 \<le> as_u16 c \<and> as_u16 c < 699 \<and> \<not> as_u16 c < 299"
  using as_u16_range [of c] no_code_at_range_end [of c]
  by (auto simp: is_final_def is_provisional_def word_le_nat_alt word_less_nat_alt word_unat_eq_iff)

lemma complete_failed_invite:
  assumes "ct_method c = Invite" and "300 \<le> as_u16 (response_code r)"
  obtains ack where "og_request ack = ack_for (ct_request c) r" and "og_target ack = og_target (ct_request c)"
    and "encode_request (og_request ack) = Ok (og_encoded ack)"
    and "complete_client r c e = (Ok r, Completed,
          Some \<lparr>cp_timer = ep_now e + 64 * T1, cp_ack = Some ack, cp_client = ct_set_state Completed c\<rparr>,
          transmit ack e)"
proof -
  obtain b where b: "encode_request (ack_for (ct_request c) r) = Ok b"
    using into_headers_printed
      [of "(ii_mandatory (is_info r))\<lparr>mh_cseq :=
            \<lparr>cs_cseq = cs_cseq (mh_cseq (ii_mandatory (is_info r))), cs_method = Ack\<rparr>\<rparr>"]
    by (auto simp: encode_request_def ack_for_def Let_def request_with_headers_def)
  let ?ack = "\<lparr>og_request = ack_for (ct_request c) r, og_target = og_target (ct_request c), og_encoded = b\<rparr>"
  have "create_ack_request (ct_request c) r = Ok (?ack\<lparr>og_encoded := []\<rparr>)"
    using failure_is_final [OF assms(2)]
    by (simp add: create_ack_request_def ack_for_def Let_def)
  moreover have "send_outgoing_request (?ack\<lparr>og_encoded := []\<rparr>) e = (Ok (), ?ack, transmit ?ack e)"
    using b by (simp add: send_outgoing_request_def transmit_def Let_def)
  ultimately show ?thesis
    using assms b
    by (intro that [of ?ack]) (simp_all add: complete_client_def Let_def)
qed

text \<open>C6: An INVITE on an unreliable transport that is refused (300 to 699) at time t: the request
  was repeated at exactly those of its retransmission times that lie before t; then one ACK is
  sent, to the address and over the transport of the INVITE, for the INVITE's URI, with the
  mandatory headers of the response and the sequence number of its CSeq; the caller gets the
  response; and a task stays behind for another 64 T1 that keeps the transaction in the table.\<close>

theorem refused_invite_is_acked:
  assumes "ct_fresh c e" and "\<not> ct_reliable c" and "ct_method c = Invite"
    and "ct_rx c = receiver_new ((t, IncomingResponse r) # later) closes"
    and "ep_now e \<le> t" and "t \<le> ep_now e + 64 * T1"
    and "300 \<le> as_u16 (response_code r)"
  shows "\<exists>ack k e'. receive_final_response c e = Returned (Ok r, Completed, Some k, e') \<and>
    cp_ack k = Some ack \<and> cp_timer k = t + 64 * T1 \<and> ct_rx (cp_client k) = receiver_new later closes \<and>
    og_request ack = ack_for (ct_request c) r \<and> encode_request (og_request ack) = Ok (og_encoded ack) \<and>
    og_target ack = og_target (ct_request c) \<and> ep_now e' = t \<and> ep_transactions e' = ep_transactions e \<and>
    sent e' = sent e @
      map (record_of (ct_request c)) (filter (\<lambda>x. x < t) (retransmission_times (ep_now e))) @
      [record_of ack t]"
proof -
  note code = failure_is_final [OF assms(7)]
  obtain e1 where fin: "receive_final c e = Returned (Ok r, c\<lparr>ct_rx := receiver_new later closes\<rparr>, e1)"
    and e1: "sent e1 = sent e @ map (record_of (ct_request c))
           (filter (\<lambda>x. x < t) (retransmission_times (ep_now e)))"
        "ep_now e1 = t" "ep_transactions e1 = ep_transactions e"
    using receive_final_answered [OF assms(1,2,4,5,6)] code by blast
  let ?c = "c\<lparr>ct_rx := receiver_new later closes\<rparr>"
  have same: "ct_method ?c = Invite" "\<not> ct_reliable ?c" "ct_request ?c = ct_request c"
    using assms(2,3) by (simp_all add: ct_method_def ct_reliable_def)
  obtain ack where "og_request ack = ack_for (ct_request c) r" "og_target ack = og_target (ct_request c)"
    "encode_request (og_request ack) = Ok (og_encoded ack)"
    and "complete_client r ?c e1 = (Ok r, Completed,
          Some \<lparr>cp_timer = ep_now e1 + 64 * T1, cp_ack = Some ack, cp_client = ct_set_state Completed ?c\<rparr>,
          transmit ack e1)"
    using complete_failed_invite [OF same(1) assms(7), of e1] same(3) by metis
  with fin e1 code same show ?thesis
    by (simp add: receive_final_response_def Let_def)
qed

theorem refused_invite_is_acked_witness:
  "\<exists>ack k e'. receive_final_response (sample_client Invite sample_udp
       (receiver_new [(2000, IncomingResponse (sample_response Invite SC_Decline sample_udp))] None)) sample_endpoint =
     Returned (Ok (sample_response Invite SC_Decline sample_udp), Completed, Some k, e') \<and>
     map fst (sent e') = [500, 1500, 2000] \<and> rl_method (rq_line (og_request ack)) = Ack \<and> cp_ack k = Some ack"
proof -
  let ?r = "sample_response Invite SC_Decline sample_udp"
  let ?c = "sample_client Invite sample_udp (receiver_new [(2000, IncomingResponse ?r)] None)"
  obtain ack k e' where "receive_final_response ?c sample_endpoint = Returned (Ok ?r, Completed, Some k, e')"
    "cp_ack k = Some ack" "og_request ack = ack_for (ct_request ?c) ?r"
    "sent e' = map (record_of (ct_request ?c)) (filter (\<lambda>x. x < 2000) (retransmission_times 0)) @ [record_of ack 2000]"
    using refused_invite_is_acked [OF sample_client_fresh [of sample_udp "receiver_new [(2000, IncomingResponse ?r)] None"],
        of 2000 ?r "[]" None] by (auto simp: T1_def)
  then show ?thesis
    by (simp add: record_of_def retransmission_times_eq ack_for_def Let_def request_with_headers_def)
qed

text \<open>The task left behind answers every repetition of the final response that arrives before
  its timer with the same ACK, at the moment it arrives, and then removes the transaction from the
  table; later messages find no transaction.\<close>

theorem repeated_refusals_are_acked:
  assumes "og_encoded ack \<noteq> []" and "sorted (map fst ms)" and "\<forall>x\<in>set ms. ep_now e \<le> fst x"
    and "\<forall>(t, m)\<in>set ms. \<exists>r. m = IncomingResponse r" and "ep_now e \<le> timer"
    and "k = \<lparr>cp_timer = timer, cp_ack = Some ack, cp_client = c\<lparr>ct_rx := receiver_new ms None\<rparr>\<rparr>"
  shows "sent (run_completed k e) = sent e @ map (record_of ack) (filter (\<lambda>t. t \<le> timer) (map fst ms)) \<and>
    ep_now (run_completed k e) = timer \<and> get_entry (ep_transactions (run_completed k e)) (ct_key c) = None"
proof -
  have "sent (absorb timer (Some ack) ms None e) =
      sent e @ map (record_of ack) (filter (\<lambda>t. t \<le> timer) (map fst ms)) \<and>
    ep_now (absorb timer (Some ack) ms None e) = timer"
    using assms(2-5)
  proof (induction ms arbitrary: e)
    case (Cons x ms)
    obtain t r where x: "x = (t, IncomingResponse r)" using Cons.prems(3) by (cases x) auto
    show ?case
    proof (cases "t \<le> timer")
      case True
      let ?e = "transmit ack (wait_until t e)"
      have now: "ep_now ?e = t" using Cons.prems(2) x by (simp add: max_absorb2)
      have "absorb timer (Some ack) (x # ms) None e = absorb timer (Some ack) ms None ?e"
        using True x Cons.prems(2,4) assms(1) by (simp add: send_encoded_request max_absorb2)
      moreover have "\<forall>x\<in>set ms. ep_now ?e \<le> fst x"
        using Cons.prems(1) x now by simp
      ultimately show ?thesis
        using Cons.IH [of ?e] Cons.prems x now True by simp
    next
      case False
      then have "filter (\<lambda>t. t \<le> timer) (map fst (x # ms)) = []"
        using Cons.prems(1) x by (auto simp: filter_empty_conv)
      with False x Cons.prems(2,4) show ?thesis by (simp add: max_absorb2)
    qed
  qed (simp add: max_absorb2)
  with assms(6) show ?thesis
    by (simp add: run_completed_def rx_items_def receiver_new_def transactions.find_after_remove)
qed

theorem repeated_refusals_are_acked_witness:
  "let r = IncomingResponse (sample_response Invite SC_Decline sample_udp);
       ack = \<lparr>og_request = ack_for (ct_request (sample_client Invite sample_udp (receiver_new [] None)))
                (sample_response Invite SC_Decline sample_udp),
              og_target = \<lparr>ti_addr = sample_addr 2 5060, ti_transport = sample_udp\<rparr>, og_encoded = ''ACK''\<rparr>;
       k = \<lparr>cp_timer = 32000, cp_ack = Some ack,
            cp_client = sample_client Invite sample_udp (receiver_new [(500, r), (1500, r), (33000, r)] None)\<rparr>
   in map fst (sent (run_completed k sample_endpoint)) = [500, 1500]"
proof -
  let ?r = "IncomingResponse (sample_response Invite SC_Decline sample_udp)"
  let ?c = "sample_client Invite sample_udp (receiver_new [] None)"
  let ?ms = "[(500, ?r), (1500, ?r), (33000, ?r)]"
  let ?ack = "\<lparr>og_request = ack_for (ct_request ?c) (sample_response Invite SC_Decline sample_udp),
              og_target = \<lparr>ti_addr = sample_addr 2 5060, ti_transport = sample_udp\<rparr>, og_encoded = ''ACK''\<rparr>"
  have "sent (run_completed \<lparr>cp_timer = 32000, cp_ack = Some ?ack,
      cp_client = ?c\<lparr>ct_rx := receiver_new ?ms None\<rparr>\<rparr> sample_endpoint) = map (record_of ?ack) [500, 1500]"
    using repeated_refusals_are_acked [of ?ack ?ms sample_endpoint 32000 _ ?c, OF _ _ _ _ _ refl] by simp
  moreover have "?c\<lparr>ct_rx := receiver_new ?ms None\<rparr> = sample_client Invite sample_udp (receiver_new ?ms None)"
    by (simp add: sample_client_def)
  ultimately show ?thesis by (simp add: Let_def record_of_def)
qed

text \<open>On a reliable transport a refused INVITE ends with the response: the transaction is
  Terminated and out of the table, no ACK is ever sent for the refusal and nobody is left to answer
  its repetitions.\<close>

theorem reliable_refusal_is_not_acked:
  assumes "ct_state c = Calling" and "ct_reliable c"
    and "ct_rx c = receiver_new ((t, IncomingResponse r) # later) closes"
    and "t \<le> ct_timeout c" and "300 \<le> as_u16 (response_code r)"
  shows "\<exists>e'. receive_final_response c e = Returned (Ok r, Terminated, None, e') \<and>
    sent e' = sent e \<and> ct_dropped c e e'"
proof -
  let ?c = "c\<lparr>ct_rx := receiver_new later closes\<rparr>"
  have "rx_ready (ct_rx c) = Some t" by (simp add: assms(3) rx_ready_def receiver_new_def)
  then have ready: "ready_by (max (ep_now e) (ct_timeout c)) (ct_rx c) e = Some (max (ep_now e) t)"
    by (rule ready_by_ready) (use assms(4) in \<open>rule max.mono [OF order_refl]\<close>)
  have "receive_final c e = Returned (Ok r, ?c, wait_until (max (ep_now e) t) e)"
    using assms(1-3) failure_is_final [OF assms(5)] ready
    by (simp add: receive_final_def receive_response_if_def receive_by_deadline_def
        receiver_new_def ct_receive_def ct_recv_if_def rx_recv_if_def rx_peek_def ok_or_def)
  moreover have "ct_reliable ?c" using assms(2) by (simp add: ct_reliable_def)
  ultimately show ?thesis
    by (simp add: receive_final_response_def Let_def final_without_task_def ct_dropped_def)
qed

theorem reliable_refusal_is_not_acked_witness:
  "\<exists>e'. receive_final_response
      (sample_client Invite (tcp_transport 1 (sample_addr 1 40000) (sample_addr 2 5060))
         (receiver_new [(2000, IncomingResponse (sample_response Invite SC_Decline sample_udp))] None)) sample_endpoint =
     Returned (Ok (sample_response Invite SC_Decline sample_udp), Terminated, None, e') \<and> sent e' = []"
proof -
  let ?r = "sample_response Invite SC_Decline sample_udp"
  let ?c = "sample_client Invite (tcp_transport 1 (sample_addr 1 40000) (sample_addr 2 5060))
         (receiver_new [(2000, IncomingResponse ?r)] None)"
  have "ct_state ?c = Calling" "2000 \<le> ct_timeout ?c" by (simp_all add: sample_client_def T1_def)
  moreover have "ct_reliable ?c" by (simp add: tcp_transport_def)
  moreover have "300 \<le> as_u16 (response_code ?r)" by simp
  ultimately show ?thesis
    using reliable_refusal_is_not_acked [of ?c 2000 ?r "[]" None sample_endpoint] by auto
qed

text \<open>A provisional response that is next in line when the caller asks for the final one ends
  the wait: the call fails with ChannelClosed, although the channel is open, and the transaction is
  gone, so the final response that follows finds nobody.\<close>

theorem provisional_ends_final_wait:
  assumes "ct_state c = Proceeding" and "ct_method c = Invite"
    and "ct_rx c = receiver_new ((t, IncomingResponse r) # later) closes"
    and "is_provisional (response_code r)"
  shows "\<exists>e'. receive_final_response c e = Returned (Err E_ChannelClosed, Proceeding, None, e') \<and>
    sent e' = sent e \<and> get_entry (ep_transactions e') (ct_key c) = None"
proof -
  let ?c = "c\<lparr>ct_rx := (receiver_new later closes)\<lparr>rx_peeked := Some (IncomingResponse r)\<rparr>\<rparr>"
  have "receive_final c e = Returned (Err E_ChannelClosed, ?c, wait_until (max (ep_now e) t) e)"
    using assms
    by (simp add: receive_final_def receive_response_if_def rx_ready_def receiver_new_def ct_receive_def
        ct_recv_if_def rx_recv_if_def rx_peek_def is_final_def ok_or_def)
  then show ?thesis
    using assms(1)
    by (simp add: receive_final_response_def final_without_task_def transactions.find_after_remove)
qed

theorem provisional_ends_final_wait_witness:
  "\<exists>e'. receive_final_response (ct_set_state Proceeding (sample_client Invite sample_udp
       (receiver_new [(1000, IncomingResponse (sample_response Invite SC_Ringing sample_udp)),
                      (3000, IncomingResponse (sample_response Invite SC_Ok sample_udp))] None))) sample_endpoint =
     Returned (Err E_ChannelClosed, Proceeding, None, e')"
proof -
  have "is_provisional SC_Ringing" by (simp add: is_provisional_def)
  then show ?thesis
    using provisional_ends_final_wait [of "ct_set_state Proceeding (sample_client Invite sample_udp
       (receiver_new [(1000, IncomingResponse (sample_response Invite SC_Ringing sample_udp)),
                      (3000, IncomingResponse (sample_response Invite SC_Ok sample_udp))] None))"]
    by fastforce
qed

section \<open>Creation\<close>

lemma with_branch_via:
  "with_branch rnd hs = Some (hs', b) \<Longrightarrow> \<exists>v. first_opt via_of hs' = Some v \<and> v_branch v = Some b"
proof (induction hs arbitrary: hs')
  case (Cons h hs)
  show ?case
  proof (cases "via_of h")
    case (Some v)
    then have "h = H_Via v" by (cases h) simp_all
    with Cons.prems show ?thesis by (auto simp: Let_def split: option.splits)
  next
    case None
    then have "with_branch rnd (h # hs) = map_option (\<lambda>(hs', b). (h # hs', b)) (with_branch rnd hs)"
      by (cases h) simp_all
    from trans [OF this [symmetric] Cons.prems] obtain hs1
      where "with_branch rnd hs = Some (hs1, b)" "hs' = h # hs1"
      by (auto simp: map_option_eq_Some)
    with Cons.IH [of hs1] None show ?thesis by simp
  qed
qed simp

lemma ensure_via_branch:
  "ensure_via rnd ti hs = (hs', b) \<Longrightarrow> \<exists>v. first_opt via_of hs' = Some v \<and> v_branch v = Some b"
  by (auto simp: ensure_via_def Let_def via_new_with_transport_def split: option.splits dest: with_branch_via)

lemma send_request_ok:
  "send_outgoing_request r e = (Ok u, r', e') \<Longrightarrow> og_encoded r = [] \<Longrightarrow>
     og_request r' = og_request r \<and> og_target r' = og_target r \<and>
     encode_request (og_request r') = Ok (og_encoded r') \<and> e' = transmit r' e"
  by (auto simp: send_outgoing_request_def transmit_def Let_def split: res.splits)

lemma create_outgoing_request_not_encoded:
  "create_outgoing_request nw r target e = (Ok og, e') \<Longrightarrow>
     og_encoded og = [] \<and> rl_method (rq_line (og_request og)) = rl_method (rq_line r)"
  by (auto simp: create_outgoing_request_def process_route_set_def Let_def
      split: option.splits prod.splits res.splits)

lemma client_send_facts:
  assumes "client_send nw r target rnd chan rx e = (Ok c, e')"
  shows "ct_fresh c e' \<and> ct_method c = rl_method (rq_line r) \<and> ct_method c \<noteq> Ack \<and>
    get_entry (ep_transactions e') (ct_key c) = Some chan \<and>
    encode_request (og_request (ct_request c)) = Ok (og_encoded (ct_request c)) \<and>
    (\<exists>pre. sent e' = pre @ [record_of (ct_request c) (ep_now e')]) \<and>
    (\<exists>v b. first_opt via_of (rq_headers (og_request (ct_request c))) = Some v \<and> v_branch v = Some b \<and>
       ct_key c = new_key_3261 Uac (ct_method c) b)"
proof -
  let ?m = "rl_method (rq_line r)"
  have m: "?m \<noteq> Ack" using assms by (auto simp: client_send_def Let_def split: if_splits)
  obtain og e1 where og: "create_outgoing_request nw r target e = (Ok og, e1)"
    using assms m by (auto simp: client_send_def Let_def split: prod.splits res.splits)
  obtain hs b where via: "ensure_via rnd (og_target og) (rq_headers (og_request og)) = (hs, b)"
    by fastforce
  let ?og = "og\<lparr>og_request := (og_request og)\<lparr>rq_headers := hs\<rparr>\<rparr>"
  obtain og2 e2 where snd: "send_outgoing_request ?og e1 = (Ok (), og2, e2)"
    and c: "c = \<lparr>ct_key = new_key_3261 Uac ?m b, ct_machine = machine_new (if ?m = Invite then Calling else Trying),
          ct_request = og2, ct_rx = rx, ct_timeout = ep_now e2 + T1 * 64\<rparr>"
    and e': "e' = e2\<lparr>ep_transactions := add_transaction (new_key_3261 Uac ?m b) chan (ep_transactions e2)\<rparr>"
    using assms m og via
    by (cases "send_outgoing_request ?og e1") (auto simp: client_send_def Let_def split: res.splits)
  note made = create_outgoing_request_not_encoded [OF og]
  have ok: "og_request og2 = og_request ?og" "encode_request (og_request og2) = Ok (og_encoded og2)"
      "e2 = transmit og2 e1"
    using send_request_ok [OF snd] made by auto
  moreover have "ep_now e' = ep_now e2" "sent e' = sent e2" by (simp_all add: e' ep_now_def)
  ultimately show ?thesis
    using m made ensure_via_branch [OF via] encode_request_nonempty [OF ok(2)]
    by (auto simp: c e' ct_fresh_def ct_method_def transactions.find_after_insert)
qed

lemma sample_bye_sent:
  "\<exists>c e'. client_send sample_network (ir_request (sample_request Bye sample_udp))
      (Some (sample_udp, sample_addr 2 5060)) ''abcdefgh'' 7 (receiver_new [] None) sample_endpoint = (Ok c, e') \<and>
    og_request (ct_request c) = ir_request (sample_request Bye sample_udp) \<and> ct_method c = Bye \<and>
    ct_key c = new_key_3261 Uac Bye ''z9hG4bKabcdefgh''"
proof -
  let ?r = "ir_request (sample_request Bye sample_udp)"
  have via: "ensure_via ''abcdefgh'' \<lparr>ti_addr = sample_addr 2 5060, ti_transport = sample_udp\<rparr> (rq_headers ?r) =
      (rq_headers ?r, ''z9hG4bKabcdefgh'')"
    by (simp add: ensure_via_def sample_request_def request_with_headers_def into_headers_def sample_mandatory_def
        sample_via_def via_new_udp_def via_new_with_transport_def)
  obtain b where b: "encode_request ?r = Ok b"
    by (simp add: encode_request_def sample_request_def request_with_headers_def into_headers_def)
  have "rl_method (rq_line ?r) = Bye" by (simp add: sample_request_def request_with_headers_def)
  then show ?thesis
    using via b
    by (simp add: client_send_def create_outgoing_request_def send_outgoing_request_def Let_def ct_method_def)
qed

text \<open>C15: What the creation of a client transaction establishes: the request it sent carries a Via
  with a branch; the transaction stands in the table under the key of this branch and of its method,
  which is the key that every response with this branch and method is looked up by; the encoded
  request has just been sent and is kept for the retransmissions; the deadline is 64 T1 away.\<close>

theorem client_send_establishes:
  assumes "client_send nw r target rnd chan rx e = (Ok c, e')"
  shows "ct_fresh c e' \<and> ct_method c = rl_method (rq_line r) \<and> ct_method c \<noteq> Ack \<and>
    get_entry (ep_transactions e') (ct_key c) = Some chan \<and>
    encode_request (og_request (ct_request c)) = Ok (og_encoded (ct_request c)) \<and>
    (\<exists>pre. sent e' = pre @ [record_of (ct_request c) (ep_now e')]) \<and>
    (\<exists>v b. first_opt via_of (rq_headers (og_request (ct_request c))) = Some v \<and> v_branch v = Some b \<and>
       ct_key c = new_key_3261 Uac (ct_method c) b)"
  by (rule client_send_facts [OF assms])

theorem client_send_establishes_witness:
  "\<exists>c e'. client_send sample_network (ir_request (sample_request Bye sample_udp))
      (Some (sample_udp, sample_addr 2 5060)) ''abcdefgh'' 7 (receiver_new [] None) sample_endpoint = (Ok c, e') \<and>
    ct_key c = new_key_3261 Uac Bye ''z9hG4bKabcdefgh'' \<and> get_entry (ep_transactions e') (ct_key c) = Some 7"
  using sample_bye_sent client_send_establishes by blast

end
