(* ===== verification/Server_Tsx.thy ===== *)
theory Server_Tsx
  imports Client_Laws
begin

text \<open>
  The server transaction (\<open>rssip/src/transaction/server.rs\<close>): creation from a request, provisional
  and final responses, the task that repeats the last provisional response, and the tasks that
  repeat the final one.

  The transaction user acts at instants; between two of its actions time passes in
  \<open>server_wait\<close>, in which the task of the provisional response, if there is one, answers what
  arrives. The tasks spawned by the final response run to their end in \<open>run_final\<close>. Ties between
  a message and a timer are resolved as in the client transaction.
\<close>

section \<open>State\<close>

text \<open>The name of a status code, as the derived debug form prints it.\<close>

primrec debug_code :: "status_code \<Rightarrow> bytes" where
  "debug_code SC_Trying = ''Trying''"
| "debug_code SC_Ringing = ''Ringing''"
| "debug_code SC_CallIsBeingForwarded = ''CallIsBeingForwarded''"
| "debug_code SC_Queued = ''Queued''"
| "debug_code SC_SessionProgress = ''SessionProgress''"
| "debug_code SC_EarlyDialogTerminated = ''EarlyDialogTerminated''"
| "debug_code SC_Ok = ''Ok''"
| "debug_code SC_Accepted = ''Accepted''"
| "debug_code SC_NoNotification = ''NoNotification''"
| "debug_code SC_MultipleChoices = ''MultipleChoices''"
| "debug_code SC_MovedPermanently = ''MovedPermanently''"
| "debug_code SC_MovedTemporarily = ''MovedTemporarily''"
| "debug_code SC_UseProxy = ''UseProxy''"
| "debug_code SC_AlternativeService = ''AlternativeService''"
| "debug_code SC_BadRequest = ''BadRequest''"
| "debug_code SC_Unauthorized = ''Unauthorized''"
| "debug_code SC_PaymentRequired = ''PaymentRequired''"
| "debug_code SC_Forbidden = ''Forbidden''"
| "debug_code SC_NotFound = ''NotFound''"
| "debug_code SC_MethodNotAllowed = ''MethodNotAllowed''"
| "debug_code SC_NotAcceptable = ''NotAcceptable''"
| "debug_code SC_ProxyAuthenticationRequired = ''ProxyAuthenticationRequired''"
| "debug_code SC_RequestTimeout = ''RequestTimeout''"
| "debug_code SC_Conflict = ''Conflict''"
| "debug_code SC_Gone = ''Gone''"
| "debug_code SC_LengthRequired = ''LengthRequired''"
| "debug_code SC_ConditionalRequestFailed = ''ConditionalRequestFailed''"
| "debug_code SC_RequestEntityTooLarge = ''RequestEntityTooLarge''"
| "debug_code SC_RequestUriTooLong = ''RequestUriTooLong''"
| "debug_code SC_UnsupportedMediaType = ''UnsupportedMediaType''"
| "debug_code SC_UnsupportedUriScheme = ''UnsupportedUriScheme''"
| "debug_code SC_UnknownResourcePriority = ''UnknownResourcePriority''"
| "debug_code SC_BadExtension = ''BadExtension''"
| "debug_code SC_ExtensionRequired = ''ExtensionRequired''"
| "debug_code SC_SessionIntervalTooSmall = ''SessionIntervalTooSmall''"
| "debug_code SC_IntervalTooBrief = ''IntervalTooBrief''"
| "debug_code SC_BadLocationInformation = ''BadLocationInformation''"
| "debug_code SC_UseIdentityHeader = ''UseIdentityHeader''"
| "debug_code SC_ProvideReferrerIdentity = ''ProvideReferrerIdentity''"
| "debug_code SC_FlowFailed = ''FlowFailed''"
| "debug_code SC_AnonymityDisallowed = ''AnonymityDisallowed''"
| "debug_code SC_BadIdentityInfo = ''BadIdentityInfo''"
| "debug_code SC_UnsupportedCertificate = ''UnsupportedCertificate''"
| "debug_code SC_InvalidIdentityHeader = ''InvalidIdentityHeader''"
| "debug_code SC_FirstHopLacksOutboundSupport = ''FirstHopLacksOutboundSupport''"
| "debug_code SC_MaxBreadthExceeded = ''MaxBreadthExceeded''"
| "debug_code SC_BadInfoPackage = ''BadInfoPackage''"
| "debug_code SC_ConsentNeeded = ''ConsentNeeded''"
| "debug_code SC_TemporarilyUnavailable = ''TemporarilyUnavailable''"
| "debug_code SC_CallOrTransactionDoesNotExist = ''CallOrTransactionDoesNotExist''"
| "debug_code SC_LoopDetected = ''LoopDetected''"
| "debug_code SC_TooManyHops = ''TooManyHops''"
| "debug_code SC_AddressIncomplete = ''AddressIncomplete''"
| "debug_code SC_Ambiguous = ''Ambiguous''"
| "debug_code SC_BusyHere = ''BusyHere''"
| "debug_code SC_RequestTerminated = ''RequestTerminated''"
| "debug_code SC_NotAcceptableHere = ''NotAcceptableHere''"
| "debug_code SC_BadEvent = ''BadEvent''"
| "debug_code SC_RequestUpdated = ''RequestUpdated''"
| "debug_code SC_RequestPending = ''RequestPending''"
| "debug_code SC_Undecipherable = ''Undecipherable''"
| "debug_code SC_SecurityAgreementRequired = ''SecurityAgreementRequired''"
| "debug_code SC_ServerInternalError = ''ServerInternalError''"
| "debug_code SC_NotImplemented = ''NotImplemented''"
| "debug_code SC_BadGateway = ''BadGateway''"
| "debug_code SC_ServiceUnavailable = ''ServiceUnavailable''"
| "debug_code SC_ServerTimeout = ''ServerTimeout''"
| "debug_code SC_VersionNotSupported = ''VersionNotSupported''"
| "debug_code SC_MessageTooLarge = ''MessageTooLarge''"
| "debug_code SC_PushNotificationServiceNotSupported = ''PushNotificationServiceNotSupported''"
| "debug_code SC_PreconditionFailure = ''PreconditionFailure''"
| "debug_code SC_BusyEverywhere = ''BusyEverywhere''"
| "debug_code SC_Decline = ''Decline''"
| "debug_code SC_DoesNotExistAnywhere = ''DoesNotExistAnywhere''"
| "debug_code SC_NotAcceptableAnywhere = ''NotAcceptableAnywhere''"
| "debug_code SC_Unwanted = ''Unwanted''"
| "debug_code SC_Rejected = ''Rejected''"

record provisional_task =
  pv_response :: outgoing_response
  pv_rx :: "incoming_message receiver"

record server_tsx =
  st_key :: tsx_key
  st_machine :: state_machine
  st_request :: incoming_request
  st_target :: "target_info option"
  st_rx :: "incoming_message receiver option"
  st_task :: "provisional_task option"

abbreviation st_state :: "server_tsx \<Rightarrow> tsx_state" where
  "st_state s \<equiv> sm_state (st_machine s)"

definition st_set_state :: "tsx_state \<Rightarrow> server_tsx \<Rightarrow> server_tsx" where
  "st_set_state x s = s\<lparr>st_machine := set_state x (st_machine s)\<rparr>"

definition is_invite_tsx :: "server_tsx \<Rightarrow> bool" where
  "is_invite_tsx s \<longleftrightarrow> rl_method (rq_line (ir_request (st_request s))) = Invite"

definition st_reliable :: "server_tsx \<Rightarrow> bool" where
  "st_reliable s = tp_reliable (ii_transport (ir_info (st_request s)))"

definition server_from_request ::
  "incoming_request \<Rightarrow> nat \<Rightarrow> incoming_message receiver \<Rightarrow> endpoint \<Rightarrow>
   (error, server_tsx) res \<times> endpoint" where
  "server_from_request req chan rx e =
     (let method = rl_method (rq_line (ir_request req)) in
      if method = Ack then (Panic, e)
      else
        case key_from_request req of
          Ok key \<Rightarrow>
            (Ok \<lparr>st_key = key, st_machine = machine_new (if method = Invite then Proceeding else Trying),
                 st_request = req, st_target = None, st_rx = Some rx, st_task = None\<rparr>,
             e\<lparr>ep_transactions := add_transaction key chan (ep_transactions e)\<rparr>)
        | Err err \<Rightarrow> (Err err, e)
        | Panic \<Rightarrow> (Panic, e)
        | OutOfFuel \<Rightarrow> (OutOfFuel, e))"

definition server_drop :: "server_tsx \<Rightarrow> endpoint \<Rightarrow> endpoint" where
  "server_drop s e = e\<lparr>ep_transactions := remove_transaction (st_key s) (ep_transactions e)\<rparr>"

section \<open>Responses\<close>

definition server_create_response ::
  "server_tsx \<Rightarrow> status_code \<Rightarrow> bytes option \<Rightarrow> outgoing_response" where
  "server_create_response s code rsn =
     (case st_target s of
        Some ti \<Rightarrow>
          \<lparr>or_response = create_response (st_request s) code rsn,
           or_dest = \<lparr>di_host_port = host_port_of_addr (tp_local (ti_transport ti)),
                      di_protocol = tp_protocol (ti_transport ti), di_transport = Some ti\<rparr>,
           or_encoded = []\<rparr>
      | None \<Rightarrow> create_outgoing_response (st_request s) code rsn)"

definition server_send ::
  "network \<Rightarrow> outgoing_response \<Rightarrow> server_tsx \<Rightarrow> endpoint \<Rightarrow>
   (error, unit) res \<times> outgoing_response \<times> server_tsx \<times> endpoint" where
  "server_send nw r s e =
     (case send_outgoing_response nw r e of
        (Ok u, r', e') \<Rightarrow>
          (Ok (), r', if st_target s = None then s\<lparr>st_target := di_transport (or_dest r')\<rparr> else s, e')
      | (x, r', e') \<Rightarrow> (x, r', s, e'))"

section \<open>Provisional responses\<close>

text \<open>The first provisional response starts the task, which takes the receiver, subscribes to the
  state and keeps the response; a later one replaces the response it keeps.\<close>

definition spawn_provisional :: "outgoing_response \<Rightarrow> server_tsx \<Rightarrow> (error, server_tsx) res" where
  "spawn_provisional r s =
     (case st_rx s of
        None \<Rightarrow> Panic
      | Some rx \<Rightarrow>
          let s1 = st_set_state Proceeding (s\<lparr>st_rx := None\<rparr>) in
          Ok (s1\<lparr>st_machine := snd (subscribe_state (st_machine s1)),
                 st_task := Some \<lparr>pv_response = r, pv_rx = rx\<rparr>\<rparr>))"

definition send_provisional_response ::
  "network \<Rightarrow> outgoing_response \<Rightarrow> server_tsx \<Rightarrow> endpoint \<Rightarrow> (error, unit) res \<times> server_tsx \<times> endpoint" where
  "send_provisional_response nw r s e =
     (let code = sl_code (rs_line (or_response r)) in
      if \<not> is_provisional code then
        (Err (E_Custom (''Invalid provisional response (expected 1xx) got '' @ debug_code code)), s, e)
      else
        case server_send nw r s e of
          (Ok u, r', s', e') \<Rightarrow>
            (case st_task s' of
               Some k \<Rightarrow> (Ok (), s'\<lparr>st_task := Some (k\<lparr>pv_response := r'\<rparr>)\<rparr>, e')
             | None \<Rightarrow>
                 (case spawn_provisional r' s' of
                    Ok s'' \<Rightarrow> (Ok (), s'', e')
                  | Err err \<Rightarrow> (Err err, s', e')
                  | Panic \<Rightarrow> (Panic, s', e')
                  | OutOfFuel \<Rightarrow> (OutOfFuel, s', e')))
        | (x, r', s', e') \<Rightarrow> (x, s', e'))"

definition send_provisional_status ::
  "network \<Rightarrow> status_code \<Rightarrow> server_tsx \<Rightarrow> endpoint \<Rightarrow> (error, unit) res \<times> server_tsx \<times> endpoint" where
  "send_provisional_status nw code s e =
     send_provisional_response nw (server_create_response s code None) s e"

text \<open>The task up to a given time: every message makes it send its response again.\<close>

fun repeat_provisional ::
  "network \<Rightarrow> nat \<Rightarrow> outgoing_response \<Rightarrow> (nat \<times> incoming_message) list \<Rightarrow> endpoint \<Rightarrow>
   outgoing_response \<times> (nat \<times> incoming_message) list \<times> endpoint" where
  "repeat_provisional nw limit r [] e = (r, [], e)"
| "repeat_provisional nw limit r ((t, m) # ms) e =
     (if max (ep_now e) t \<le> limit then
        (case send_outgoing_response nw r (wait_until t e) of
           (x, r', e') \<Rightarrow> repeat_provisional nw limit r' ms e')
      else (r, (t, m) # ms, e))"

definition server_wait :: "network \<Rightarrow> nat \<Rightarrow> server_tsx \<Rightarrow> endpoint \<Rightarrow> server_tsx \<times> endpoint" where
  "server_wait nw t s e =
     (case st_task s of
        None \<Rightarrow> (s, wait_until t e)
      | Some k \<Rightarrow>
          (case repeat_provisional nw t (pv_response k) (rx_items (pv_rx k)) e of
             (r, ms, e') \<Rightarrow>
               (s\<lparr>st_task := Some \<lparr>pv_response = r, pv_rx = receiver_new ms (rx_closes (pv_rx k))\<rparr>\<rparr>,
                wait_until t e')))"

section \<open>Final responses\<close>

text \<open>What is spawned for a final response on an unreliable transport.\<close>

record final_task =
  fn_server :: server_tsx
  fn_response :: outgoing_response
  fn_items :: "(nat \<times> incoming_message) list"
  fn_closes :: "nat option"
  fn_deadline :: nat

text \<open>The receiver, handed back by the task of the provisional response or never taken.\<close>

definition final_receiver :: "server_tsx \<Rightarrow> incoming_message receiver option" where
  "final_receiver s = (case st_task s of Some k \<Rightarrow> Some (pv_rx k) | None \<Rightarrow> st_rx s)"

definition send_final_response ::
  "network \<Rightarrow> outgoing_response \<Rightarrow> server_tsx \<Rightarrow> endpoint \<Rightarrow>
   (error, unit) res \<times> server_tsx \<times> final_task option \<times> endpoint" where
  "send_final_response nw r s e =
     (let code = sl_code (rs_line (or_response r)) in
      if \<not> is_final code then
        (Err (E_Custom (''Invalid final response (expected 2xx-6xx) got '' @ debug_code code)),
         s, None, server_drop s e)
      else
        case server_send nw r s e of
          (Ok u, r', s1, e') \<Rightarrow>
            if is_invite_tsx s1 \<and> 200 \<le> as_u16 code \<and> as_u16 code < 299 then
              (Ok (), st_set_state Terminated s1, None, server_drop s1 e')
            else
              let s2 = st_set_state Completed s1 in
              if st_reliable s2 then (Ok (), st_set_state Terminated s2, None, server_drop s2 e')
              else
                (case final_receiver s2 of
                   None \<Rightarrow> (Panic, s2, None, server_drop s2 e')
                 | Some rx \<Rightarrow>
                     (Ok (), s2,
                      Some \<lparr>fn_server = s2\<lparr>st_task := None, st_rx := None\<rparr>, fn_response = r',
                            fn_items = rx_items rx, fn_closes = rx_closes rx,
                            fn_deadline = ep_now e' + (if is_invite_tsx s2 then T4 else T1 * 64)\<rparr>,
                      e'))
        | (x, r', s1, e') \<Rightarrow> (x, s1, None, server_drop s1 e'))"

definition send_final_status ::
  "network \<Rightarrow> status_code \<Rightarrow> server_tsx \<Rightarrow> endpoint \<Rightarrow>
   (error, unit) res \<times> server_tsx \<times> final_task option \<times> endpoint" where
  "send_final_status nw code s e = send_final_response nw (server_create_response s code None) s e"

text \<open>A send whose failure is ignored.\<close>

definition server_resend ::
  "network \<Rightarrow> final_task \<Rightarrow> endpoint \<Rightarrow> final_task \<times> endpoint" where
  "server_resend nw k e =
     (case server_send nw (fn_response k) (fn_server k) e of
        (x, r', s', e') \<Rightarrow> (k\<lparr>fn_server := s', fn_response := r'\<rparr>, e'))"

definition fn_set_state :: "tsx_state \<Rightarrow> final_task \<Rightarrow> final_task" where
  "fn_set_state x k = k\<lparr>fn_server := st_set_state x (fn_server k)\<rparr>"

definition is_ack :: "incoming_message \<Rightarrow> bool" where
  "is_ack m = (case m of IncomingRequest r \<Rightarrow> rl_method (rq_line (ir_request r)) = Ack | _ \<Rightarrow> False)"

text \<open>The next thing the channel says: a message, its end, or nothing.\<close>

datatype next_event = NextMessage nat incoming_message | NextEnd nat | NextNothing

definition next_item :: "final_task \<Rightarrow> next_event" where
  "next_item k =
     (case fn_items k of
        (t, m) # ms \<Rightarrow> NextMessage t m
      | [] \<Rightarrow> (case fn_closes k of Some t \<Rightarrow> NextEnd t | None \<Rightarrow> NextNothing))"

definition drop_item :: "final_task \<Rightarrow> final_task" where
  "drop_item k = k\<lparr>fn_items := tl (fn_items k)\<rparr>"

text \<open>The interval of the retransmissions: \<open>T1\<close>, doubled each time and held at \<open>T2\<close>.\<close>

definition next_interval :: "nat \<Rightarrow> nat" where
  "next_interval i = min (i * 2) T2"

fun retrans_interval :: "nat \<Rightarrow> nat" where
  "retrans_interval 0 = T1"
| "retrans_interval (Suc n) = next_interval (retrans_interval n)"

lemma ep_now_try_addresses: "try_addresses nw buf as e = (x, e') \<Longrightarrow> ep_now e' = ep_now e"
proof (induction "as" arbitrary: e)
  case (Cons a as)
  obtain r e1 where sel: "ep_select nw (la_addr a) (la_protocol a) e = (r, e1)" by fastforce
  have step: "ep_now e' = ep_now e1" if "r = Ok t" for t
    using Cons.prems sel that Cons.IH
    by (cases "ep_send t buf (la_addr a) e1") (auto dest: ep_send_now split: if_splits)
  show ?case
    using Cons.prems sel ep_select_sent [OF sel] Cons.IH [of e1] step by (cases r) auto
qed simp

lemma ep_now_send_resolved: "send_resolved nw r e = (x, r', e') \<Longrightarrow> ep_now e' = ep_now e"
  by (auto simp: send_resolved_def split: res.splits prod.splits option.splits dest: ep_now_try_addresses)

lemma ep_now_send_response:
  assumes "send_outgoing_response nw r e = (x, r', e')"
  shows "ep_now e' = ep_now e"
proof -
  have "ep_now e' = ep_now e" if "send_response nw r e = (x, r', e')" for r
    using that ep_now_send_resolved
    by (auto simp: send_response_def split: option.splits prod.splits if_splits dest!: ep_send_now)
  with assms show ?thesis
    by (auto simp: send_outgoing_response_def split: res.splits if_splits)
qed

lemma server_resend_keeps:
  assumes "server_resend nw k e = (k', e')"
  shows "ep_now e' = ep_now e" "fn_items k' = fn_items k" "fn_closes k' = fn_closes k"
    "fn_deadline k' = fn_deadline k"
  using assms
  by (auto simp: server_resend_def server_send_def split: prod.splits res.splits dest: ep_now_send_response)

text \<open>The task of a final response to an INVITE: it repeats the response on its timer and for every
  message, until the ACK or the deadline comes or the channel ends.\<close>

lemma retrans_interval_pos [simp]: "0 < retrans_interval n"
  by (induction n) (simp_all add: T1_def T2_def next_interval_def)

lemma wake_progress:
  fixes now d :: nat
  assumes "now' = max now (now + retrans_interval n)" and "now + retrans_interval n \<le> max now d"
  shows "d - now' < d - now"
proof -
  define k where "k = retrans_interval n"
  have "0 < k" by (simp add: k_def)
  with assms show ?thesis unfolding k_def [symmetric] by linarith
qed

text \<open>What the channel says by a given time.\<close>

definition heard_by :: "nat \<Rightarrow> final_task \<Rightarrow> endpoint \<Rightarrow> next_event" where
  "heard_by limit k e =
     (case next_item k of
        NextMessage t m \<Rightarrow> if max (ep_now e) t \<le> limit then NextMessage (max (ep_now e) t) m else NextNothing
      | NextEnd t \<Rightarrow> if max (ep_now e) t \<le> limit then NextEnd (max (ep_now e) t) else NextNothing
      | NextNothing \<Rightarrow> NextNothing)"

lemma heard_message:
  "heard_by limit k e = NextMessage t m \<Longrightarrow>
     ep_now e \<le> t \<and> t \<le> limit \<and> (\<exists>u ms. fn_items k = (u, m) # ms \<and> t = max (ep_now e) u)"
  by (auto simp: heard_by_def next_item_def split: list.splits option.splits next_event.splits if_splits)

lemma repeat_final_heard:
  assumes "heard_by limit k e = NextMessage t m"
    and "server_resend nw (drop_item k) (wait_until t e) = (k', e')"
  shows "fn_deadline k' - ep_now e' + length (fn_items k') < fn_deadline k - ep_now e + length (fn_items k)"
proof -
  obtain u ms where "ep_now e \<le> t" "fn_items k = (u, m) # ms"
    using heard_message [OF assms(1)] by blast
  with server_resend_keeps [OF assms(2)] show ?thesis by (simp add: drop_item_def max_absorb2)
qed

lemma repeat_final_woken:
  assumes "server_resend nw k (wait_until (ep_now e + retrans_interval n) e) = (k', e')"
    and "ep_now e + retrans_interval n \<le> max (ep_now e) (fn_deadline k)"
  shows "fn_deadline k' - ep_now e' + length (fn_items k') < fn_deadline k - ep_now e + length (fn_items k)"
  using wake_progress [OF _ assms(2)] server_resend_keeps [OF assms(1)] by simp

function repeat_final ::
  "network \<Rightarrow> nat \<Rightarrow> final_task \<Rightarrow> endpoint \<Rightarrow> final_task \<times> endpoint" where
  "repeat_final nw n k e =
     (let wake = ep_now e + retrans_interval n; limit = max (ep_now e) (fn_deadline k) in
      case heard_by (min wake limit) k e of
        NextMessage t m \<Rightarrow>
          if is_ack m then
            (fn_set_state Terminated (fn_set_state Confirmed (drop_item k)), wait_until (t + T4) e)
          else
            (case server_resend nw (drop_item k) (wait_until t e) of (k', e') \<Rightarrow> repeat_final nw n k' e')
      | NextEnd t \<Rightarrow> (k, wait_until t e)
      | NextNothing \<Rightarrow>
          if wake \<le> limit then
            (case server_resend nw k (wait_until wake e) of (k', e') \<Rightarrow> repeat_final nw (Suc n) k' e')
          else (fn_set_state Terminated k, wait_until limit e))"
  by pat_completeness auto

termination
proof (relation "measure (\<lambda>(nw, n, k, e). (fn_deadline k - ep_now e) + length (fn_items k))", goal_cases)
  case 2
  then show ?case by (auto dest!: sym [of "(_, _)"] intro!: repeat_final_heard)
next
  case 3
  then show ?case by (auto dest!: sym [of "(_, _)"] intro!: repeat_final_woken)
qed simp

declare repeat_final.simps [simp del]

text \<open>The task of a final response to another request: every message gets the response again.\<close>

fun answer_repeats ::
  "network \<Rightarrow> final_task \<Rightarrow> (nat \<times> incoming_message) list \<Rightarrow> endpoint \<Rightarrow> final_task \<times> endpoint" where
  "answer_repeats nw k [] e =
     (fn_set_state Terminated k,
      (case fn_closes k of
         Some t \<Rightarrow> wait_until (min t (fn_deadline k)) e
       | None \<Rightarrow> wait_until (fn_deadline k) e))"
| "answer_repeats nw k ((t, m) # ms) e =
     (if max (ep_now e) t \<le> max (ep_now e) (fn_deadline k) then
        (case server_resend nw k (wait_until t e) of (k', e') \<Rightarrow> answer_repeats nw k' ms e')
      else (fn_set_state Terminated k, wait_until (fn_deadline k) e))"

text \<open>The spawned task to its end, at which the transaction is dropped.\<close>

definition run_final :: "network \<Rightarrow> final_task \<Rightarrow> endpoint \<Rightarrow> final_task \<times> endpoint" where
  "run_final nw k e =
     (case (if is_invite_tsx (fn_server k) then repeat_final nw 0 k e
            else answer_repeats nw k (fn_items k) e) of
        (k', e') \<Rightarrow> (k', server_drop (fn_server k') e'))"

end
