(* ===== verification/Server_Laws.thy ===== *)
theory Server_Laws
  imports Server_Tsx
begin

text \<open>
  What the server transaction does over time: the repetitions of its provisional and final
  responses, its end with and without an ACK, and the order of its states.
\<close>

section \<open>Sending\<close>

text \<open>A response that is encoded and has its transport, in a world where sends succeed.\<close>

definition sendable :: "outgoing_response \<Rightarrow> endpoint \<Rightarrow> bool" where
  "sendable r e \<longleftrightarrow>
     or_encoded r \<noteq> [] \<and> di_transport (or_dest r) \<noteq> None \<and> w_outcomes (ep_world e) = []"

definition response_record :: "outgoing_response \<Rightarrow> nat \<Rightarrow> nat \<times> transport \<times> bytes \<times> socket_addr" where
  "response_record r t =
     (let ti = the (di_transport (or_dest r)) in (t, ti_transport ti, or_encoded r, ti_addr ti))"

definition respond :: "outgoing_response \<Rightarrow> endpoint \<Rightarrow> endpoint" where
  "respond r e =
     (let ti = the (di_transport (or_dest r)) in snd (ep_send (ti_transport ti) (or_encoded r) (ti_addr ti) e))"

lemma respond_fields [simp]:
  "sent (respond r e) = sent e @ [response_record r (ep_now e)]"
  "ep_now (respond r e) = ep_now e" "ep_transactions (respond r e) = ep_transactions e"
  "sendable q (respond r e) \<longleftrightarrow> sendable q e \<or>
     or_encoded q \<noteq> [] \<and> di_transport (or_dest q) \<noteq> None \<and> tl (w_outcomes (ep_world e)) = []"
  by (auto simp: respond_def response_record_def ep_send_def send_msg_def ep_now_def Let_def sendable_def)

lemma sendable_wait [simp]: "sendable r (wait_until t e) = sendable r e"
  by (simp add: sendable_def wait_until_def)

lemma send_sendable: "sendable r e \<Longrightarrow> send_outgoing_response nw r e = (Ok (), r, respond r e)"
  by (auto simp: sendable_def send_outgoing_response_def send_response_def respond_def ep_send_def send_msg_def)

lemma respond_sendable [intro]: "sendable q e \<Longrightarrow> sendable q (respond r e)"
  by simp

section \<open>The repeated final response\<close>

definition task_ready :: "final_task \<Rightarrow> endpoint \<Rightarrow> bool" where
  "task_ready k e \<longleftrightarrow> sendable (fn_response k) e \<and> st_target (fn_server k) \<noteq> None"

lemma server_resend_ready:
  "task_ready k e \<Longrightarrow> server_resend nw k e = (k, respond (fn_response k) e)"
  by (auto simp: task_ready_def server_resend_def server_send_def send_sendable)

lemma task_ready_keeps [simp]:
  "task_ready k (wait_until t e) = task_ready k e" "task_ready (drop_item k) e = task_ready k e"
  "task_ready k e \<Longrightarrow> task_ready k (respond r e)"
  by (auto simp: task_ready_def drop_item_def)

text \<open>The time of the \<open>j\<close>-th repetition of a task that starts at \<open>s\<close>, and the endpoint after it.\<close>

fun wake_time :: "nat \<Rightarrow> nat \<Rightarrow> nat" where
  "wake_time s 0 = s"
| "wake_time s (Suc j) = wake_time s j + retrans_interval j"

lemma wake_time_mono: "i \<le> j \<Longrightarrow> wake_time s i \<le> wake_time s j"
  by (rule lift_Suc_mono_le [where f = "wake_time s"]) simp_all

lemma wake_times: "map (wake_time s) [1..<Suc 3] = [s + 500, s + 1500, s + 3500]"
proof -
  have "[1..<Suc 3] = [Suc 0, Suc (Suc 0), Suc (Suc (Suc 0))]"
    by (simp add: upt_rec)
  then show ?thesis
    by (simp add: next_interval_def T1_def T2_def)
qed

lemma wake_values:
  "wake_time s 3 = s + 3500" "wake_time s (Suc 3) = s + 7500" "retrans_interval 3 = 4000"
  by (simp_all add: numeral_3_eq_3 next_interval_def T1_def T2_def)

fun repeated :: "outgoing_response \<Rightarrow> nat \<Rightarrow> endpoint \<Rightarrow> nat \<Rightarrow> endpoint" where
  "repeated r s e 0 = e"
| "repeated r s e (Suc j) = respond r (wait_until (wake_time s (Suc j)) (repeated r s e j))"

lemma ep_now_repeated: "ep_now e = s \<Longrightarrow> ep_now (repeated r s e j) = wake_time s j"
  by (induction j) (simp_all add: max_absorb2)

lemma sent_repeated:
  "ep_now e = s \<Longrightarrow> sent (repeated r s e j) = sent e @ map (response_record r) (map (wake_time s) [1..<Suc j])"
  by (induction j) (simp_all add: ep_now_repeated max_absorb2)

lemma repeated_keeps [simp]:
  "ep_transactions (repeated r s e j) = ep_transactions e"
  "task_ready k e \<Longrightarrow> task_ready k (repeated r s e j)"
  by (induction j) simp_all

definition quiet_until :: "nat \<Rightarrow> final_task \<Rightarrow> bool" where
  "quiet_until t k \<longleftrightarrow> fn_closes k = None \<and> (\<forall>u m ms. fn_items k = (u, m) # ms \<longrightarrow> t < u)"

lemma heard_by_quiet: "quiet_until t k \<Longrightarrow> l \<le> t \<Longrightarrow> heard_by l k e = NextNothing"
  by (fastforce simp: heard_by_def next_item_def quiet_until_def split: list.split)

lemma repeat_final_wakes:
  assumes "task_ready k e" and "quiet_until (ep_now e + retrans_interval n) k"
    and "ep_now e + retrans_interval n \<le> fn_deadline k"
  shows "repeat_final nw n k e =
    repeat_final nw (Suc n) k (respond (fn_response k) (wait_until (ep_now e + retrans_interval n) e))"
proof -
  have "heard_by (min (ep_now e + retrans_interval n) (max (ep_now e) (fn_deadline k))) k e = NextNothing"
    by (rule heard_by_quiet [OF assms(2)]) simp
  with assms show ?thesis
    by (subst repeat_final.simps) (simp add: server_resend_ready Let_def)
qed

lemma repeat_final_turns:
  assumes "task_ready k e" and "ep_now e = s"
  shows "quiet_until (wake_time s j) k \<Longrightarrow> wake_time s j \<le> fn_deadline k \<Longrightarrow>
    repeat_final nw 0 k e = repeat_final nw j k (repeated (fn_response k) s e j)"
proof (induction j)
  case (Suc j)
  have "repeat_final nw 0 k e = repeat_final nw j k (repeated (fn_response k) s e j)"
    by (rule Suc.IH) (use Suc.prems in \<open>auto simp: quiet_until_def\<close>)
  also have "\<dots> = repeat_final nw (Suc j) k (repeated (fn_response k) s e (Suc j))"
    using repeat_final_wakes [of k "repeated (fn_response k) s e j" j nw] Suc.prems assms
    by (simp add: ep_now_repeated)
  finally show ?case .
qed simp

lemma repeat_final_acked:
  assumes "fn_items k = (t, m) # ms" and "is_ack m" and "ep_now e \<le> t"
    and "t \<le> ep_now e + retrans_interval n" and "t \<le> fn_deadline k"
  shows "repeat_final nw n k e =
    (fn_set_state Terminated (fn_set_state Confirmed (drop_item k)), wait_until (t + T4) e)"
proof -
  have "max (ep_now e) t \<le> min (ep_now e + retrans_interval n) (max (ep_now e) (fn_deadline k))"
    using assms(3-5) by simp
  then have "heard_by (min (ep_now e + retrans_interval n) (max (ep_now e) (fn_deadline k))) k e =
      NextMessage (max (ep_now e) t) m"
    using assms(1) by (simp only: heard_by_def next_item_def list.case prod.case next_event.case if_True)
  with assms(2,3) show ?thesis
    by (subst repeat_final.simps) (simp add: Let_def max_absorb2)
qed

lemma repeat_final_expires:
  assumes "quiet_until (max (ep_now e) (fn_deadline k)) k"
    and "max (ep_now e) (fn_deadline k) < ep_now e + retrans_interval n"
  shows "repeat_final nw n k e = (fn_set_state Terminated k, wait_until (max (ep_now e) (fn_deadline k)) e)"
proof -
  have "heard_by (min (ep_now e + retrans_interval n) (max (ep_now e) (fn_deadline k))) k e = NextNothing"
    by (rule heard_by_quiet [OF assms(1)]) simp
  moreover have "\<not> ep_now e + retrans_interval n \<le> max (ep_now e) (fn_deadline k)"
    using assms(2) by (simp only: not_le)
  ultimately show ?thesis
    by (subst repeat_final.simps) (simp only: Let_def next_event.case if_False)
qed

lemma repeat_final_unacked:
  assumes "task_ready k e" and "fn_items k = []" and "fn_closes k = None" and "fn_deadline k = ep_now e + T4"
  shows "repeat_final nw 0 k e =
    (fn_set_state Terminated k, wait_until (ep_now e + T4) (repeated (fn_response k) (ep_now e) e 3))"
proof -
  let ?e3 = "repeated (fn_response k) (ep_now e) e 3"
  have quiet: "quiet_until t k" for t using assms(2,3) by (simp add: quiet_until_def)
  note w3 = wake_values(1) [of "ep_now e"]
  have now3: "ep_now ?e3 = ep_now e + 3500" using ep_now_repeated [of e "ep_now e"] w3 by simp
  have "repeat_final nw 0 k e = repeat_final nw 3 k ?e3"
    by (rule repeat_final_turns) (use assms quiet w3 in \<open>auto simp: T4_def\<close>)
  also have "\<dots> = (fn_set_state Terminated k, wait_until (max (ep_now ?e3) (fn_deadline k)) ?e3)"
    by (rule repeat_final_expires [OF quiet]) (simp add: now3 wake_values(3) assms(4) T4_def)
  finally show ?thesis by (simp add: now3 assms(4) T4_def)
qed

lemma repeat_final_ack:
  assumes "task_ready k e" and "fn_items k = (t, m) # ms" and "fn_closes k = None" and "is_ack m"
    and "ep_now e \<le> t" and "t \<le> ep_now e + T4" and "fn_deadline k = ep_now e + T4"
  obtains e1 where "repeat_final nw 0 k e =
      (fn_set_state Terminated (fn_set_state Confirmed (drop_item k)), wait_until (t + T4) e1)"
    and "sent e1 = sent e @ map (response_record (fn_response k))
           (filter (\<lambda>x. x < t) [ep_now e + 500, ep_now e + 1500, ep_now e + 3500])"
    and "ep_now e1 \<le> t" and "ep_transactions e1 = ep_transactions e"
proof -
  let ?s = "ep_now e"
  obtain j where j: "j \<le> 3" "j = 0 \<or> wake_time ?s j < t" "j = 3 \<or> t \<le> wake_time ?s (Suc j)"
    and ticks: "filter (\<lambda>x. x < t) (map (wake_time ?s) [1..<Suc 3]) = map (wake_time ?s) [1..<Suc j]"
    using schedule_before [of "wake_time ?s" 3 t, OF wake_time_mono] by blast
  define e1 where "e1 = repeated (fn_response k) ?s e j"
  have now1: "ep_now e1 = wake_time ?s j" unfolding e1_def by (rule ep_now_repeated) simp
  have w4: "?s + T4 \<le> wake_time ?s 3 + retrans_interval 3"
    unfolding wake_values by (simp add: T4_def)
  have before: "wake_time ?s j \<le> t" using j(2) assms(5) by auto
  have after: "t \<le> wake_time ?s j + retrans_interval j" using j(3) assms(6) w4 by auto
  have "repeat_final nw 0 k e = repeat_final nw j k e1"
  proof (cases "j = 0")
    case False
    with j(2) have "wake_time ?s j < t" by simp
    then show ?thesis
      unfolding e1_def
      by (intro repeat_final_turns) (use assms in \<open>auto simp: quiet_until_def\<close>)
  qed (simp add: e1_def)
  also have "\<dots> = (fn_set_state Terminated (fn_set_state Confirmed (drop_item k)), wait_until (t + T4) e1)"
    by (rule repeat_final_acked [OF assms(2,4)]) (use before after now1 assms in auto)
  finally show ?thesis
    using before now1 ticks
    by (intro that [of e1]) (simp_all add: e1_def sent_repeated flip: wake_times)
qed

section \<open>A server for the concrete instances\<close>

definition sample_server :: "sip_method \<Rightarrow> incoming_message receiver \<Rightarrow> server_tsx" where
  "sample_server m rx =
     \<lparr>st_key = new_key_3261 Uas m ''z9hG4bKabcdefgh'',
      st_machine = machine_new (if m = Invite then Proceeding else Trying),
      st_request = sample_request m sample_udp, st_target = None, st_rx = Some rx, st_task = None\<rparr>"

lemma sample_server_created:
  "m \<noteq> Ack \<Longrightarrow> \<exists>e. server_from_request (sample_request m sample_udp) chan rx sample_endpoint = (Ok (sample_server m rx), e)"
  by (simp add: server_from_request_def sample_server_def sample_request_def request_with_headers_def
      key_from_request_def from_incoming_info_def sample_mandatory_def sample_via_def via_new_udp_def
      via_new_with_transport_def starts_with_def RFC3261_BRANCH_ID_def)

lemma sample_server_fields [simp]:
  "is_invite_tsx (sample_server m rx) = (m = Invite)" "final_receiver (sample_server m rx) = Some rx"
  "st_reliable (sample_server m rx) = False" "st_key (sample_server m rx) = new_key_3261 Uas m ''z9hG4bKabcdefgh''"
  by (simp_all add: sample_server_def is_invite_tsx_def final_receiver_def st_reliable_def sample_request_def
      request_with_headers_def sample_udp_def udp_transport_def)

lemma sample_response_encodes:
  "\<exists>b. encode_response (create_response (sample_request m sample_udp) code None) = Ok b \<and> b \<noteq> []"
proof -
  have "\<exists>b. encode_response (create_response (sample_request m sample_udp) code None) = Ok b"
    by (simp add: encode_response_def create_response_def Let_def sample_request_def request_with_headers_def
        into_headers_def)
  with encode_response_nonempty show ?thesis by blast
qed

lemma sample_server_sends:
  "\<exists>r' e'. server_send sample_network (server_create_response (sample_server m rx) code None)
      (sample_server m rx) sample_endpoint =
    (Ok (), r', (sample_server m rx)\<lparr>st_target := di_transport (or_dest r')\<rparr>, e') \<and>
    ep_now e' = 0 \<and> w_outcomes (ep_world e') = [] \<and>
    or_response r' = create_response (sample_request m sample_udp) code None"
proof -
  obtain b where b: "encode_response (create_response (sample_request m sample_udp) code None) = Ok b" "b \<noteq> []"
    using sample_response_encodes by blast
  have dest: "di_transport (get_response_destination (sample_request m sample_udp)) =
      Some \<lparr>ti_addr = sample_addr 1 5060, ti_transport = sample_udp\<rparr>"
    by (simp add: get_response_destination_def sample_request_def sample_mandatory_def sample_via_def
        via_new_udp_def via_new_with_transport_def sample_addr_def host_port_of_addr_def port_or_def
        proto_is_reliable_def)
  show ?thesis
    using b dest
    by (simp add: server_send_def server_create_response_def sample_server_def create_outgoing_response_def
        send_outgoing_response_def send_response_def ep_send_def send_msg_def sample_endpoint_def new_world_def
        ep_now_def)
qed

lemma sample_server_refuses:
  assumes "300 \<le> as_u16 code"
  shows "\<exists>s' k e'. send_final_response sample_network (server_create_response (sample_server m rx) code None)
      (sample_server m rx) sample_endpoint = (Ok (), s', Some k, e') \<and> w_outcomes (ep_world e') = []"
proof -
  obtain r' e' where snd: "server_send sample_network (server_create_response (sample_server m rx) code None)
      (sample_server m rx) sample_endpoint =
      (Ok (), r', (sample_server m rx)\<lparr>st_target := di_transport (or_dest r')\<rparr>, e')"
    and ok: "w_outcomes (ep_world e') = []"
    using sample_server_sends by blast
  have "sl_code (rs_line (or_response (server_create_response (sample_server m rx) code None))) = code"
    by (simp add: server_create_response_def sample_server_def create_outgoing_response_def create_response_def Let_def)
  moreover have "st_reliable ((sample_server m rx)\<lparr>st_target := di_transport (or_dest r')\<rparr>) = False"
    "final_receiver (st_set_state Completed ((sample_server m rx)\<lparr>st_target := di_transport (or_dest r')\<rparr>)) = Some rx"
    by (simp_all add: sample_server_def st_reliable_def final_receiver_def sample_request_def sample_udp_def
        udp_transport_def st_set_state_def)
  ultimately show ?thesis
    using snd ok failure_is_final [OF assms]
    by (simp add: send_final_response_def Let_def st_set_state_def st_reliable_def)
qed

section \<open>From the final response on\<close>

lemma st_set_state_fields [simp]:
  "st_state (st_set_state x s) = x" "st_key (st_set_state x s) = st_key s"
  "st_request (st_set_state x s) = st_request s" "st_target (st_set_state x s) = st_target s"
  "st_rx (st_set_state x s) = st_rx s" "st_task (st_set_state x s) = st_task s"
  "is_invite_tsx (st_set_state x s) = is_invite_tsx s" "st_reliable (st_set_state x s) = st_reliable s"
  "final_receiver (st_set_state x s) = final_receiver s"
  by (simp_all add: st_set_state_def is_invite_tsx_def st_reliable_def final_receiver_def split: option.split)

lemma fn_set_state_fields [simp]:
  "fn_server (fn_set_state x k) = st_set_state x (fn_server k)" "fn_response (fn_set_state x k) = fn_response k"
  by (simp_all add: fn_set_state_def)

lemma drop_item_fields [simp]:
  "fn_server (drop_item k) = fn_server k" "fn_response (drop_item k) = fn_response k"
  by (simp_all add: drop_item_def)

lemma server_drop_fields [simp]:
  "ep_now (server_drop s e) = ep_now e" "sent (server_drop s e) = sent e"
  "ep_transactions (server_drop s e) = remove_transaction (st_key s) (ep_transactions e)"
  by (simp_all add: server_drop_def ep_now_def)

lemma server_send_ok:
  assumes "server_send nw r s e = (Ok u, r', s', e')"
  shows "delivered r' e e' \<and> or_encoded r' \<noteq> [] \<and> st_target s' \<noteq> None \<and>
    s' = s\<lparr>st_target := st_target s'\<rparr> \<and> ep_now e' = ep_now e"
proof -
  obtain v where snd: "send_outgoing_response nw r e = (Ok v, r', e')"
    and s': "s' = (if st_target s = None then s\<lparr>st_target := di_transport (or_dest r')\<rparr> else s)"
    using assms by (auto simp: server_send_def split: prod.splits res.splits)
  from send_outgoing_delivers [OF snd] ep_now_send_response [OF snd] s' show ?thesis
    by (auto simp: delivered_def)
qed

lemma send_final_spawns:
  assumes "send_final_response nw r s e = (Ok u, s', Some k, e')"
  shows "fn_server k = s'\<lparr>st_task := None, st_rx := None\<rparr> \<and> st_state s' = Completed \<and> st_key s' = st_key s \<and>
    is_invite_tsx s' = is_invite_tsx s \<and> \<not> st_reliable s \<and> st_target s' \<noteq> None \<and>
    delivered (fn_response k) e e' \<and> or_encoded (fn_response k) \<noteq> [] \<and> ep_now e' = ep_now e \<and>
    (\<exists>rx. final_receiver s = Some rx \<and> fn_items k = rx_items rx \<and> fn_closes k = rx_closes rx) \<and>
    fn_deadline k = ep_now e' + (if is_invite_tsx s then T4 else T1 * 64)"
proof -
  obtain r' s1 where snd: "server_send nw r s e = (Ok (), r', s1, e')"
    and s': "s' = st_set_state Completed s1" and rel: "\<not> st_reliable s1"
    and k: "\<exists>rx. final_receiver s1 = Some rx \<and> k = \<lparr>fn_server = s'\<lparr>st_task := None, st_rx := None\<rparr>, fn_response = r',
       fn_items = rx_items rx, fn_closes = rx_closes rx,
       fn_deadline = ep_now e' + (if is_invite_tsx s1 then T4 else T1 * 64)\<rparr>"
    using assms by (auto simp: send_final_response_def Let_def split: if_splits prod.splits res.splits option.splits)
  obtain ti where s1: "s1 = s\<lparr>st_target := ti\<rparr>" and "ti \<noteq> None"
    using server_send_ok [OF snd] by (metis server_tsx.select_convs(4) server_tsx.update_convs(4) server_tsx.surjective)
  have same: "is_invite_tsx s1 = is_invite_tsx s" "final_receiver s1 = final_receiver s"
    "st_reliable s1 = st_reliable s" "st_key s1 = st_key s" "st_target s1 = ti"
    unfolding s1 by (simp_all add: is_invite_tsx_def final_receiver_def st_reliable_def split: option.split)
  from server_send_ok [OF snd] k rel same \<open>ti \<noteq> None\<close> show ?thesis
    by (auto simp: s')
qed

lemma delivered_transport: "delivered r e e' \<Longrightarrow> di_transport (or_dest r) \<noteq> None"
  by (auto simp: delivered_def)

lemma spawned_ready:
  assumes "send_final_response nw r s e = (Ok u, s', Some k, e')" and "w_outcomes (ep_world e') = []"
  shows "task_ready k e'"
  using send_final_spawns [OF assms(1)] assms(2) delivered_transport
  by (auto simp: task_ready_def sendable_def)



text \<open>C8: The ACK of the refusal, at time t: the response was repeated at exactly those of its times
  that lie before t; the transaction is Confirmed, absorbs what else comes for T4, and ends
  Terminated and out of the table.\<close>

theorem refusal_with_ack:
  assumes "send_final_response nw r s e = (Ok u, s', Some k, e1)" and "w_outcomes (ep_world e1) = []"
    and "is_invite_tsx s" and "final_receiver s = Some (receiver_new ((t, m) # ms) None)"
    and "is_ack m" and "ep_now e \<le> t" and "t \<le> ep_now e + T4"
  shows "\<exists>k' e2. run_final nw k e1 = (k', e2) \<and>
    st_machine (fn_server k') = set_state Terminated (set_state Confirmed (st_machine s')) \<and>
    ep_now e2 = t + T4 \<and> get_entry (ep_transactions e2) (st_key s) = None \<and>
    sent e2 = sent e1 @ map (response_record (fn_response k))
      (filter (\<lambda>x. x < t) [ep_now e + 500, ep_now e + 1500, ep_now e + 3500])"
proof -
  note spawned = send_final_spawns [OF assms(1)]
  have items: "fn_items k = (t, m) # ms" "fn_closes k = None" "fn_deadline k = ep_now e1 + T4"
    using spawned assms(3,4) by (auto simp: rx_items_def receiver_new_def)
  have invite: "is_invite_tsx (fn_server k)" and key: "st_key (fn_server k) = st_key s"
    and machine: "st_machine (fn_server k) = st_machine s'"
    using spawned assms(3) by (simp_all add: is_invite_tsx_def)
  have t: "ep_now e1 \<le> t" "t \<le> ep_now e1 + T4" using assms(6,7) spawned by simp_all
  obtain e0 where "repeat_final nw 0 k e1 =
      (fn_set_state Terminated (fn_set_state Confirmed (drop_item k)), wait_until (t + T4) e0)"
    and "sent e0 = sent e1 @ map (response_record (fn_response k))
           (filter (\<lambda>x. x < t) [ep_now e1 + 500, ep_now e1 + 1500, ep_now e1 + 3500])"
    and "ep_now e0 \<le> t" and "ep_transactions e0 = ep_transactions e1"
    by (rule repeat_final_ack [OF spawned_ready [OF assms(1,2)] items(1,2) assms(5) t items(3)])
  then show ?thesis
    using invite key machine spawned
    by (simp add: run_final_def transactions.find_after_remove st_set_state_def del: filter.simps)
qed

theorem refusal_with_ack_witness:
  "\<exists>s' k e1 k' e2. send_final_status sample_network SC_Decline
      (sample_server Invite (receiver_new [(1800, IncomingRequest (sample_request Ack sample_udp))] None)) sample_endpoint =
      (Ok (), s', Some k, e1) \<and>
    run_final sample_network k e1 = (k', e2) \<and> ep_now e2 = 6800 \<and>
    map fst (drop (length (sent e1)) (sent e2)) = [500, 1500]"
proof -
  let ?ack = "IncomingRequest (sample_request Ack sample_udp)"
  let ?s = "sample_server Invite (receiver_new [(1800, ?ack)] None)"
  have "300 \<le> as_u16 SC_Decline" by simp
  from sample_server_refuses [OF this, of Invite "receiver_new [(1800, ?ack)] None"] obtain s' k e1
    where fin: "send_final_response sample_network (server_create_response ?s SC_Decline None) ?s sample_endpoint =
      (Ok (), s', Some k, e1)" and ok: "w_outcomes (ep_world e1) = []" by blast
  have "is_ack ?ack" by (simp add: is_ack_def sample_request_def request_with_headers_def)
  from refusal_with_ack [OF fin ok _ _ this, of 1800 "[]"] fin show ?thesis
    by (auto simp: send_final_status_def T4_def response_record_def Let_def)
qed

section \<open>Repeated requests\<close>

lemma answer_repeats_all:
  assumes "task_ready k e" and "sorted (map fst ms)" and "\<forall>x\<in>set ms. ep_now e \<le> fst x"
    and "fn_closes k = None" and "ep_now e \<le> fn_deadline k"
  shows "\<exists>e'. answer_repeats nw k ms e = (fn_set_state Terminated k, e') \<and> ep_now e' = fn_deadline k \<and>
    ep_transactions e' = ep_transactions e \<and>
    sent e' = sent e @ map (response_record (fn_response k)) (filter (\<lambda>t. t \<le> fn_deadline k) (map fst ms))"
  using assms(1-3,5)
proof (induction ms arbitrary: e)
  case Nil
  with assms(4) show ?case by (simp add: max_absorb2)
next
  case (Cons x ms)
  obtain t m where x: "x = (t, m)" by fastforce
  show ?case
  proof (cases "t \<le> fn_deadline k")
    case True
    let ?e = "respond (fn_response k) (wait_until t e)"
    have now: "ep_now ?e = t" using Cons.prems(3) x by (simp add: max_absorb2)
    have "answer_repeats nw k (x # ms) e = answer_repeats nw k ms ?e"
      using True x Cons.prems by (simp add: server_resend_ready max_absorb2)
    moreover have "\<forall>y\<in>set ms. ep_now ?e \<le> fst y" using Cons.prems(2) x now by simp
    ultimately show ?thesis
      using Cons.IH [of ?e] Cons.prems x now True by simp
  next
    case False
    then have "filter (\<lambda>t. t \<le> fn_deadline k) (map fst (x # ms)) = []"
      using Cons.prems(2) x by (auto simp: filter_empty_conv)
    with False x Cons.prems(3,4) show ?thesis by (simp add: max_absorb2)
  qed
qed

text \<open>C17: A final response to another request on an unreliable transport: every repetition of the
  request that arrives within 64 T1 is answered with the same response, once and at once; then the
  transaction is Terminated and out of the table.\<close>

theorem repeated_requests_are_answered:
  assumes "send_final_response nw r s e = (Ok u, s', Some k, e1)" and "w_outcomes (ep_world e1) = []"
    and "\<not> is_invite_tsx s" and "final_receiver s = Some (receiver_new ms None)"
    and "sorted (map fst ms)" and "\<forall>x\<in>set ms. ep_now e \<le> fst x"
  shows "\<exists>k' e2. run_final nw k e1 = (k', e2) \<and> st_state (fn_server k') = Terminated \<and>
    ep_now e2 = ep_now e + 32000 \<and> get_entry (ep_transactions e2) (st_key s) = None \<and>
    sent e2 = sent e1 @ map (response_record (fn_response k)) (filter (\<lambda>t. t \<le> ep_now e + 32000) (map fst ms))"
proof -
  note spawned = send_final_spawns [OF assms(1)]
  have items: "fn_items k = ms" "fn_closes k = None" "fn_deadline k = ep_now e + 32000"
    using spawned assms(3,4) by (auto simp: rx_items_def receiver_new_def T1_def)
  have other: "\<not> is_invite_tsx (fn_server k)" and key: "st_key (fn_server k) = st_key s"
    using spawned assms(3) by (simp_all add: is_invite_tsx_def)
  have "\<forall>x\<in>set ms. ep_now e1 \<le> fst x" "ep_now e1 \<le> fn_deadline k"
    using assms(6) items(3) spawned by simp_all
  from answer_repeats_all [OF spawned_ready [OF assms(1,2)] assms(5) this(1) items(2) this(2), of nw]
  show ?thesis
    using other key items by (auto simp: run_final_def transactions.find_after_remove)
qed

theorem repeated_requests_are_answered_witness:
  "let q = IncomingRequest (sample_request Bye sample_udp) in
   \<exists>s' k e1 k' e2. send_final_status sample_network SC_DoesNotExistAnywhere
      (sample_server Bye (receiver_new [(500, q), (1500, q)] None)) sample_endpoint = (Ok (), s', Some k, e1) \<and>
    run_final sample_network k e1 = (k', e2) \<and> ep_now e2 = 32000 \<and>
    map fst (drop (length (sent e1)) (sent e2)) = [500, 1500]"
proof -
  let ?q = "IncomingRequest (sample_request Bye sample_udp)"
  let ?s = "sample_server Bye (receiver_new [(500, ?q), (1500, ?q)] None)"
  have "300 \<le> as_u16 SC_DoesNotExistAnywhere" by simp
  from sample_server_refuses [OF this, of Bye "receiver_new [(500, ?q), (1500, ?q)] None"] obtain s' k e1
    where fin: "send_final_response sample_network (server_create_response ?s SC_DoesNotExistAnywhere None) ?s
      sample_endpoint = (Ok (), s', Some k, e1)" and ok: "w_outcomes (ep_world e1) = []" by blast
  from repeated_requests_are_answered [OF fin ok, of "[(500, ?q), (1500, ?q)]"] fin show ?thesis
    by (auto simp: send_final_status_def response_record_def Let_def)
qed

section \<open>The provisional response\<close>

lemma repeat_provisional_all:
  assumes "sendable r e" and "sorted (map fst ms)" and "\<forall>x\<in>set ms. ep_now e \<le> fst x"
  shows "\<exists>e'. repeat_provisional nw limit r ms e = (r, filter (\<lambda>x. limit < fst x) ms, e') \<and>
    ep_now e' \<le> max (ep_now e) limit \<and>
    sent e' = sent e @ map (response_record r) (filter (\<lambda>t. t \<le> limit) (map fst ms))"
  using assms
proof (induction ms arbitrary: e)
  case (Cons x ms)
  obtain t m where x: "x = (t, m)" by fastforce
  show ?case
  proof (cases "t \<le> limit")
    case True
    let ?e = "respond r (wait_until t e)"
    have now: "ep_now ?e = t" using Cons.prems(3) x by (simp add: max_absorb2)
    have "repeat_provisional nw limit r (x # ms) e = repeat_provisional nw limit r ms ?e"
      using True x Cons.prems by (simp add: send_sendable max_absorb2)
    moreover have "\<forall>y\<in>set ms. ep_now ?e \<le> fst y" using Cons.prems(2) x now by simp
    ultimately show ?thesis
      using Cons.IH [of ?e] Cons.prems x now True by simp
  next
    case False
    then have "filter (\<lambda>t. t \<le> limit) (map fst (x # ms)) = []" "filter (\<lambda>x. limit < fst x) (x # ms) = x # ms"
      using Cons.prems(2) x by (auto simp: filter_empty_conv filter_id_conv)
    with False x Cons.prems(3) show ?thesis by (simp add: max_absorb2)
  qed
qed simp

text \<open>C16: While the transaction user works on its answer: once a provisional response has been sent,
  every repetition of the request that arrives up to time t is answered, once and at once, with the
  provisional response sent last; the repetitions after t stay for what comes next.\<close>

theorem repetitions_get_last_provisional:
  assumes "send_provisional_response nw r s e = (Ok u, s1, e1)" and "w_outcomes (ep_world e1) = []"
    and "final_receiver s = Some (receiver_new ms None)"
    and "sorted (map fst ms)" and "\<forall>x\<in>set ms. ep_now e1 \<le> fst x" and "ep_now e1 \<le> t"
  shows "\<exists>q s2 e2. delivered q e e1 \<and> (or_encoded r = [] \<longrightarrow> encode_response (or_response r) = Ok (or_encoded q)) \<and>
    server_wait nw t s1 e1 = (s2, e2) \<and> ep_now e2 = t \<and>
    final_receiver s2 = Some (receiver_new (filter (\<lambda>x. t < fst x) ms) None) \<and>
    sent e2 = sent e1 @ map (response_record q) (filter (\<lambda>u. u \<le> t) (map fst ms))"
proof -
  obtain q s0 where snd: "server_send nw r s e = (Ok (), q, s0, e1)"
    using assms(1)
    by (auto simp: send_provisional_response_def Let_def split: if_splits prod.splits res.splits option.splits)
  have task0: "st_task s0 = st_task s" "st_rx s0 = st_rx s"
    using server_send_ok [OF snd]
    by (metis server_tsx.select_convs server_tsx.update_convs(4) server_tsx.surjective)+
  obtain rx where s1: "st_task s1 = Some \<lparr>pv_response = q, pv_rx = rx\<rparr>" and rx: "rx = receiver_new ms None"
    using assms(1,3) snd task0
    by (cases "st_task s") (auto simp: send_provisional_response_def spawn_provisional_def final_receiver_def
        Let_def st_set_state_def split: if_splits option.splits res.splits)
  have "sendable q e1"
    using server_send_ok [OF snd] assms(2) delivered_transport by (auto simp: sendable_def)
  from repeat_provisional_all [OF this assms(4,5), of nw t] obtain e'
    where "repeat_provisional nw t q ms e1 = (q, filter (\<lambda>x. t < fst x) ms, e')" "ep_now e' \<le> t"
      "sent e' = sent e1 @ map (response_record q) (filter (\<lambda>u. u \<le> t) (map fst ms))"
    using assms(6) by auto
  moreover have "or_encoded r = [] \<longrightarrow> encode_response (or_response r) = Ok (or_encoded q)"
    using snd by (auto simp: server_send_def split: prod.splits res.splits dest: send_outgoing_delivers)
  ultimately show ?thesis
    using server_send_ok [OF snd] s1 rx
    by (intro exI [of _ q]) (simp add: server_wait_def rx_items_def receiver_new_def final_receiver_def max_absorb2)
qed

theorem repetitions_get_last_provisional_witness:
  "let q = IncomingRequest (sample_request Invite sample_udp) in
   \<exists>s1 e1 s2 e2. send_provisional_status sample_network SC_Ringing
      (sample_server Invite (receiver_new [(500, q), (1500, q), (3500, q)] None)) sample_endpoint = (Ok (), s1, e1) \<and>
    server_wait sample_network 2000 s1 e1 = (s2, e2) \<and> map fst (drop (length (sent e1)) (sent e2)) = [500, 1500] \<and>
    final_receiver s2 = Some (receiver_new [(3500, q)] None)"
proof -
  let ?q = "IncomingRequest (sample_request Invite sample_udp)"
  let ?rx = "receiver_new [(500, ?q), (1500, ?q), (3500, ?q)] None"
  let ?s = "sample_server Invite ?rx"
  obtain r' e1 where snd: "server_send sample_network (server_create_response ?s SC_Ringing None) ?s sample_endpoint =
      (Ok (), r', ?s\<lparr>st_target := di_transport (or_dest r')\<rparr>, e1)"
    and e1: "ep_now e1 = 0" "w_outcomes (ep_world e1) = []"
    using sample_server_sends by blast
  have "sl_code (rs_line (or_response (server_create_response ?s SC_Ringing None))) = SC_Ringing"
    by (simp add: server_create_response_def sample_server_def create_outgoing_response_def create_response_def Let_def)
  moreover have "is_provisional SC_Ringing" by (simp add: is_provisional_def)
  ultimately obtain s1
    where prov: "send_provisional_response sample_network (server_create_response ?s SC_Ringing None) ?s sample_endpoint =
      (Ok (), s1, e1)"
    using snd by (simp add: send_provisional_response_def spawn_provisional_def sample_server_def Let_def)
  from repetitions_get_last_provisional [OF prov e1(2), of "[(500, ?q), (1500, ?q), (3500, ?q)]" 2000] e1(1) prov
  show ?thesis by (auto simp: send_provisional_status_def response_record_def Let_def)
qed

section \<open>The life of a server transaction\<close>

text \<open>Every way a server transaction is used: by its user while it is live, by its own task once the
  final response has been sent.\<close>

datatype server_phase = Live server_tsx endpoint | Spawned final_task endpoint | Gone state_machine

inductive server_reach :: "network \<Rightarrow> server_phase \<Rightarrow> bool" for nw :: network where
  created: "server_from_request req chan rx e = (Ok s, e') \<Longrightarrow> server_reach nw (Live s e')"
| subscribed: "server_reach nw (Live s e) \<Longrightarrow>
    server_reach nw (Live (s\<lparr>st_machine := snd (subscribe_state (st_machine s))\<rparr>) e)"
| waited: "server_reach nw (Live s e) \<Longrightarrow> server_wait nw t s e = (s', e') \<Longrightarrow> server_reach nw (Live s' e')"
| provisional: "server_reach nw (Live s e) \<Longrightarrow> send_provisional_response nw r s e = (x, s', e') \<Longrightarrow>
    server_reach nw (Live s' e')"
| answered: "server_reach nw (Live s e) \<Longrightarrow> send_final_response nw r s e = (x, s', Some k, e') \<Longrightarrow>
    server_reach nw (Spawned k e')"
| ended: "server_reach nw (Live s e) \<Longrightarrow> send_final_response nw r s e = (x, s', None, e') \<Longrightarrow>
    server_reach nw (Gone (st_machine s'))"
| expired: "server_reach nw (Spawned k e) \<Longrightarrow> run_final nw k e = (k', e') \<Longrightarrow>
    server_reach nw (Gone (st_machine (fn_server k')))"

text \<open>A machine whose subscribers have seen the states in ascending order, none above the current.\<close>

definition orderly :: "state_machine \<Rightarrow> bool" where
  "orderly m \<longleftrightarrow> (case sm_notifier m of None \<Rightarrow> True | Some ss \<Rightarrow> sorted ss \<and> (\<forall>x\<in>set ss. x \<le> sm_state m))"

lemma orderly_new [simp]: "orderly (machine_new s)"
  by (simp add: orderly_def machine_new_def)

lemma orderly_subscribe [simp]: "orderly m \<Longrightarrow> orderly (snd (subscribe_state m))"
  by (auto simp: orderly_def subscribe_state_def split: option.split)

lemma orderly_set: "orderly m \<Longrightarrow> sm_state m \<le> s \<Longrightarrow> orderly (set_state s m)"
  by (auto simp: orderly_def sorted_append split: option.splits)

lemma state_order [simp]:
  "Proceeding \<le> Completed" "Completed \<le> Confirmed" "Completed \<le> Terminated" "Confirmed \<le> Terminated"
  "Trying \<le> Proceeding" "Proceeding \<le> Proceeding" "x \<le> Terminated" "Trying \<le> Completed" "Proceeding \<le> Terminated"
  by (simp_all add: less_eq_tsx_state_def) (cases x; simp)

definition phase_ok :: "server_phase \<Rightarrow> bool" where
  "phase_ok p =
     (case p of
        Live s e \<Rightarrow> orderly (st_machine s) \<and> (st_state s = Trying \<or> st_state s = Proceeding) \<and>
          (st_rx s = None \<longleftrightarrow> st_task s \<noteq> None)
      | Spawned k e \<Rightarrow> orderly (st_machine (fn_server k)) \<and> st_state (fn_server k) = Completed
      | Gone m \<Rightarrow> orderly m)"

lemma server_send_keeps:
  "server_send nw r s e = (x, r', s', e') \<Longrightarrow>
     st_machine s' = st_machine s \<and> st_rx s' = st_rx s \<and> st_task s' = st_task s"
  by (auto simp: server_send_def split: prod.splits res.splits if_splits)

lemma server_resend_machine:
  "server_resend nw k e = (k', e') \<Longrightarrow> st_machine (fn_server k') = st_machine (fn_server k)"
  by (auto simp: server_resend_def split: prod.splits dest: server_send_keeps)

definition ends_orderly :: "state_machine \<Rightarrow> state_machine \<Rightarrow> bool" where
  "ends_orderly m m' \<longleftrightarrow>
     m' = m \<or> m' = set_state Terminated m \<or> m' = set_state Terminated (set_state Confirmed m)"

lemma ends_orderly: "ends_orderly m m' \<Longrightarrow> orderly m \<Longrightarrow> sm_state m = Completed \<Longrightarrow> orderly m'"
  by (auto simp: ends_orderly_def intro!: orderly_set)

lemma fn_set_state_machine [simp]:
  "st_machine (st_set_state x s) = set_state x (st_machine s)"
  by (simp add: st_set_state_def)

lemma repeat_final_machine:
  "repeat_final nw n k e = (k', e') \<Longrightarrow> ends_orderly (st_machine (fn_server k)) (st_machine (fn_server k'))"
proof (induction nw n k e rule: repeat_final.induct)
  case (1 nw n k e)
  let ?wake = "ep_now e + retrans_interval n"
  let ?limit = "max (ep_now e) (fn_deadline k)"
  show ?case
  proof (cases "heard_by (min ?wake ?limit) k e")
    case (NextMessage t m)
    show ?thesis
    proof (cases "is_ack m")
      case True
      with NextMessage 1(3) show ?thesis
        by (subst (asm) repeat_final.simps) (auto simp: Let_def ends_orderly_def)
    next
      case False
      obtain k1 e1 where again: "server_resend nw (drop_item k) (wait_until t e) = (k1, e1)" by fastforce
      have "repeat_final nw n k1 e1 = (k', e')"
        using 1(3) NextMessage False again by (subst (asm) repeat_final.simps) (simp add: Let_def)
      from 1(1) [OF refl refl NextMessage False again [symmetric] this] server_resend_machine [OF again]
      show ?thesis by simp
    qed
  next
    case (NextEnd t)
    with 1(3) show ?thesis
      by (subst (asm) repeat_final.simps) (auto simp: Let_def ends_orderly_def)
  next
    case NextNothing
    obtain k1 e1 where again: "server_resend nw k (wait_until ?wake e) = (k1, e1)" by fastforce
    show ?thesis
    proof (cases "?wake \<le> ?limit")
      case True
      have "repeat_final nw (Suc n) k1 e1 = (k', e')"
        using 1(3) NextNothing True again by (subst (asm) repeat_final.simps) (simp only: Let_def next_event.case if_True prod.case)
      from 1(2) [OF refl refl NextNothing True again [symmetric] this] server_resend_machine [OF again]
      show ?thesis by simp
    next
      case False
      then have "(k', e') = (fn_set_state Terminated k, wait_until ?limit e)"
        using 1(3) NextNothing by (subst (asm) repeat_final.simps) (simp only: Let_def next_event.case if_False)
      then show ?thesis by (simp add: ends_orderly_def)
    qed
  qed
qed

lemma answer_repeats_machine:
  "answer_repeats nw k ms e = (k', e') \<Longrightarrow> ends_orderly (st_machine (fn_server k)) (st_machine (fn_server k'))"
proof (induction ms arbitrary: k e)
  case (Cons x ms)
  obtain t m where x: "x = (t, m)" by fastforce
  obtain k1 e1 where again: "server_resend nw k (wait_until t e) = (k1, e1)" by fastforce
  show ?case
  proof (cases "max (ep_now e) t \<le> max (ep_now e) (fn_deadline k)")
    case True
    with Cons.prems x again have "answer_repeats nw k1 ms e1 = (k', e')"
      by (simp only: answer_repeats.simps if_True prod.case)
    from Cons.IH [OF this] server_resend_machine [OF again] show ?thesis by simp
  next
    case False
    with Cons.prems x have "k' = fn_set_state Terminated k"
      by (simp only: answer_repeats.simps if_False prod.inject)
    then show ?thesis by (simp add: ends_orderly_def)
  qed
qed (auto simp: ends_orderly_def)

lemma run_final_machine:
  "run_final nw k e = (k', e') \<Longrightarrow> ends_orderly (st_machine (fn_server k)) (st_machine (fn_server k'))"
  by (auto simp: run_final_def split: prod.splits if_splits dest: repeat_final_machine answer_repeats_machine)

lemma provisional_phase:
  assumes "send_provisional_response nw r s e = (x, s', e')" and "phase_ok (Live s e)"
  shows "phase_ok (Live s' e')"
proof -
  obtain y q s1 e1 where snd: "server_send nw r s e = (y, q, s1, e1)" by (metis prod_cases4)
  note keep = server_send_keeps [OF snd]
  from assms snd keep show ?thesis
    by (cases y; cases "st_task s"; cases "st_rx s")
      (auto simp: send_provisional_response_def spawn_provisional_def phase_ok_def Let_def
        intro!: orderly_set orderly_subscribe split: if_splits)
qed

lemma final_phase:
  assumes "send_final_response nw r s e = (x, s', k, e')" and "phase_ok (Live s e)"
  shows "(case k of Some t \<Rightarrow> phase_ok (Spawned t e') | None \<Rightarrow> orderly (st_machine s'))"
proof -
  obtain y q s1 e1 where snd: "server_send nw r s e = (y, q, s1, e1)" by (metis prod_cases4)
  have m: "st_machine s1 = st_machine s" using server_send_keeps [OF snd] by simp
  have "orderly (set_state Completed (st_machine s))" "orderly (set_state Terminated (st_machine s))"
    using assms(2) by (auto simp: phase_ok_def intro!: orderly_set)
  then show ?thesis
    using assms snd m
    by (cases y) (auto simp: send_final_response_def phase_ok_def Let_def intro!: orderly_set split: if_splits option.splits)
qed

text \<open>C4: However a server transaction is used: its subscribers see its states in ascending order
  (Trying, Proceeding, Completed, Confirmed, Terminated) and never one above the current state; it
  stays Trying or Proceeding until its final response is sent; and the receiver of its channel is
  always in exactly one place, with the transaction or with the task of its provisional response,
  so the \<open>expect\<close> on it never panics.\<close>

theorem server_states_ordered:
  assumes "server_reach nw p"
  shows "phase_ok p"
  using assms
proof induction
  case (created req chan rx e s e')
  then show ?case
    by (auto simp: phase_ok_def server_from_request_def Let_def split: if_splits res.splits)
next
  case (subscribed s e)
  then show ?case by (simp add: phase_ok_def)
next
  case (waited s e t s' e')
  then show ?case by (auto simp: phase_ok_def server_wait_def split: option.splits prod.splits)
next
  case (provisional s e r x s' e')
  then show ?case by (blast dest: provisional_phase)
next
  case (answered s e r x s' k e')
  then show ?case by (auto dest: final_phase)
next
  case (ended s e r x s' e')
  then have "orderly (st_machine s')" by (auto dest: final_phase)
  then show ?case by (simp add: phase_ok_def)
next
  case (expired k e k' e')
  then show ?case by (auto simp: phase_ok_def dest!: run_final_machine intro: ends_orderly)
qed

theorem server_states_ordered_witness:
  "\<exists>e. server_reach sample_network (Live (sample_server Invite (receiver_new [] None)) e) \<and>
     phase_ok (Live (sample_server Invite (receiver_new [] None)) e)"
proof -
  have "Invite \<noteq> Ack" by simp
  then obtain e where "server_from_request (sample_request Invite sample_udp) 3 (receiver_new [] None) sample_endpoint =
      (Ok (sample_server Invite (receiver_new [] None)), e)"
    using sample_server_created by blast
  then have "server_reach sample_network (Live (sample_server Invite (receiver_new [] None)) e)"
    by (rule created)
  from this server_states_ordered [OF this] show ?thesis by blast
qed

end
