(* ===== verification/Dialog.thy ===== *)
theory Dialog
  imports Server_Laws
begin

text \<open>
  Dialogs (\<open>rssip/src/ua/dialog.rs\<close>): their identifiers and the plugin that routes requests to
  them, their creation on both sides, the requests and responses made inside a dialog, the
  processing of what arrives in it, and the wait for the ACK. Random tags, Call-IDs and sequence
  numbers are arguments.
\<close>

section \<open>Dialogs\<close>

datatype dialog_state = DialogInit | DialogEarly | DialogConfirmed | DialogTerminated

record route_set_entry =
  re_uri :: uri
  re_params :: params

record dialog =
  dl_id :: dialog_id
  dl_state :: dialog_state
  dl_remote_cseq :: "u32 option"
  dl_local_cseq :: "u32 option"
  dl_from :: from_header
  dl_to :: to_header
  dl_contact :: contact
  dl_secure :: bool
  dl_route_set :: "route_set_entry list"
  dl_role :: role
  dl_rx :: "incoming_message receiver"

section \<open>The table\<close>

definition register_dialog :: "dialog_id \<Rightarrow> nat \<Rightarrow> dialog_table \<Rightarrow> dialog_table" where
  "register_dialog i c t = AList.update i c t"

definition remove_dialog :: "dialog_id \<Rightarrow> dialog_table \<Rightarrow> dialog_table" where
  "remove_dialog i t = AList.delete i t"

definition get_dialog :: "dialog_table \<Rightarrow> dialog_id \<Rightarrow> nat option" where
  "get_dialog t i = map_of t i"

definition dialog_id_of_request :: "incoming_request \<Rightarrow> dialog_id option" where
  "dialog_id_of_request r =
     (let m = ii_mandatory (ir_info r) in
      case to_tag (mh_to m) of
        None \<Rightarrow> None
      | Some tag \<Rightarrow>
          Some \<lparr>dg_call_id = mh_call_id m, dg_local_tag = tag, dg_remote_tag = fr_tag (mh_from m)\<rparr>)"

text \<open>The plugin takes every request with a To tag. One that belongs to no dialog is answered with
  481, unless it is an ACK; a failure to send the answer is logged.\<close>

definition dialog_on_request ::
  "network \<Rightarrow> (nat \<Rightarrow> bool) \<Rightarrow> incoming_request \<Rightarrow> channels \<Rightarrow> endpoint \<Rightarrow>
   (error, incoming_request option \<times> channels) res \<times> endpoint" where
  "dialog_on_request nw opened req cs e =
     (case dialog_id_of_request req of
        None \<Rightarrow> (Ok (Some req, cs), e)
      | Some i \<Rightarrow>
          (case get_dialog (ep_dialogs e) i of
             Some c \<Rightarrow> (Ok (None, if opened c then deliver c (IncomingRequest req) cs else cs), e)
           | None \<Rightarrow>
               if rl_method (rq_line (ir_request req)) \<noteq> Ack then
                 (case send_outgoing_response nw
                         (create_outgoing_response req SC_CallOrTransactionDoesNotExist None) e of
                    (Panic, r, e') \<Rightarrow> (Panic, e')
                  | (OutOfFuel, r, e') \<Rightarrow> (OutOfFuel, e')
                  | (x, r, e') \<Rightarrow> (Ok (None, cs), e'))
               else (Ok (None, cs), e)))"

section \<open>Creation\<close>

fun route_set_of :: "headers \<Rightarrow> route_set_entry list" where
  "route_set_of [] = []"
| "route_set_of (h # hs) =
     (case h of
        H_RecordRoute r \<Rightarrow> \<lparr>re_uri = na_uri (rr_addr r), re_params = rr_params r\<rparr> # route_set_of hs
      | _ \<Rightarrow> route_set_of hs)"

definition create_uas ::
  "incoming_request \<Rightarrow> contact \<Rightarrow> bytes \<Rightarrow> nat \<Rightarrow> incoming_message receiver \<Rightarrow> endpoint \<Rightarrow>
   (error, dialog) res \<times> endpoint" where
  "create_uas req contact tag chan rx e =
     (let line = rq_line (ir_request req); m = ii_mandatory (ir_info req) in
      if \<not> can_establish_dialog (rl_method line) then
        (Err (E_Dialog (''The sip method '' @ [CHR 0x27] @ method_str (rl_method line) @ [CHR 0x27] @
           '' cannot establish a dialog'')), e)
      else if to_tag (mh_to m) \<noteq> None then
        (Err (E_Dialog ''The To header tag is added only by the server (UAS) in the response.''), e)
      else
        let i = \<lparr>dg_call_id = mh_call_id m, dg_local_tag = tag, dg_remote_tag = fr_tag (mh_from m)\<rparr> in
        (Ok \<lparr>dl_id = i, dl_state = DialogInit, dl_remote_cseq = Some (cs_cseq (mh_cseq m)),
             dl_local_cseq = None, dl_from = mh_from m, dl_to = mh_to m, dl_contact = contact,
             dl_secure = (tp_secure (ii_transport (ir_info req)) \<and> u_scheme (rl_uri line) = Sips),
             dl_route_set = route_set_of (rq_headers (ir_request req)), dl_role = Uas, dl_rx = rx\<rparr>,
         e\<lparr>ep_dialogs := register_dialog i chan (ep_dialogs e)\<rparr>))"

definition create_uac ::
  "sip_uri \<Rightarrow> sip_uri \<Rightarrow> sip_uri option \<Rightarrow> bytes \<Rightarrow> u32 \<Rightarrow> bytes \<Rightarrow> nat \<Rightarrow>
   incoming_message receiver \<Rightarrow> endpoint \<Rightarrow> dialog \<times> endpoint" where
  "create_uac caller callee contact_uri tag cseq call_id chan rx e =
     (let i = \<lparr>dg_call_id = call_id, dg_local_tag = tag, dg_remote_tag = None\<rparr> in
      (\<lparr>dl_id = i, dl_state = DialogInit, dl_remote_cseq = None, dl_local_cseq = Some cseq,
        dl_from = \<lparr>fr_uri = caller, fr_tag = Some tag, fr_params = []\<rparr>,
        dl_to = \<lparr>to_uri = callee, to_tag = None, to_params = []\<rparr>,
        dl_contact = \<lparr>ct_uri = (case contact_uri of Some u \<Rightarrow> u | None \<Rightarrow> caller),
                      ct_q = None, ct_expires = None, ct_param = []\<rparr>,
        dl_secure = (su_scheme callee = Sips), dl_route_set = [], dl_role = Uac, dl_rx = rx\<rparr>,
       e\<lparr>ep_dialogs := register_dialog i chan (ep_dialogs e)\<rparr>))"

definition dialog_drop :: "dialog \<Rightarrow> endpoint \<Rightarrow> endpoint" where
  "dialog_drop d e = e\<lparr>ep_dialogs := remove_dialog (dl_id d) (ep_dialogs e)\<rparr>"

section \<open>Requests and responses inside a dialog\<close>

definition dialog_create_request :: "u32 \<Rightarrow> sip_method \<Rightarrow> dialog \<Rightarrow> request \<times> dialog" where
  "dialog_create_request rnd m d =
     (let n = (case dl_local_cseq d of Some n \<Rightarrow> n | None \<Rightarrow> rnd) in
      (\<lparr>rq_line = \<lparr>rl_method = m, rl_uri = su_uri (ct_uri (dl_contact d))\<rparr>,
        rq_headers = [H_From (dl_from d), H_To (dl_to d), H_CallId (dg_call_id (dl_id d)),
                      H_CSeq \<lparr>cs_cseq = n, cs_method = m\<rparr>, H_MaxForwards 70],
        rq_body = None\<rparr>,
       d\<lparr>dl_local_cseq := Some n\<rparr>))"

fun tag_first_to :: "bytes \<Rightarrow> headers \<Rightarrow> headers option" where
  "tag_first_to tag [] = None"
| "tag_first_to tag (h # hs) =
     (case h of
        H_To t \<Rightarrow> Some (H_To (t\<lparr>to_tag := Some tag\<rparr>) # hs)
      | _ \<Rightarrow> map_option (\<lambda>hs'. h # hs') (tag_first_to tag hs))"

definition push_unless :: "bool \<Rightarrow> (header \<Rightarrow> bool) \<Rightarrow> header \<Rightarrow> headers \<Rightarrow> headers" where
  "push_unless wanted p h hs = (if wanted \<and> \<not> (\<exists>x\<in>set hs. p x) then hs @ [h] else hs)"

definition dialog_headers :: "dialog \<Rightarrow> endpoint \<Rightarrow> u16 \<Rightarrow> headers \<Rightarrow> (error, headers) res" where
  "dialog_headers d e code hs =
     (let hs1 = push_unless ((101 \<le> code \<and> code \<le> 399) \<or> code = 485) is_contact (H_Contact (dl_contact d)) hs;
          hs2 = push_unless (((180 \<le> code \<and> code \<le> 189) \<or> (200 \<le> code \<and> code \<le> 299) \<or> code = 405) \<and>
                             ep_allow e \<noteq> []) is_allow (H_Allow (ep_allow e)) hs1;
          hs3 = push_unless ((200 \<le> code \<and> code \<le> 299) \<and> ep_supported e \<noteq> [])
                             is_supported (H_Supported (ep_supported e)) hs2
      in if code \<noteq> 100 then
           (case tag_first_to (dg_local_tag (dl_id d)) hs3 of Some hs4 \<Rightarrow> Ok hs4 | None \<Rightarrow> Panic)
         else Ok hs3)"

definition dialog_create_response ::
  "dialog \<Rightarrow> endpoint \<Rightarrow> server_tsx \<Rightarrow> status_code \<Rightarrow> bytes option \<Rightarrow> (error, outgoing_response) res" where
  "dialog_create_response d e s code rsn =
     (let r = server_create_response s code rsn in
      map_ok (\<lambda>hs. r\<lparr>or_response := (or_response r)\<lparr>rs_headers := hs\<rparr>\<rparr>)
        (dialog_headers d e (as_u16 code) (rs_headers (or_response r))))"

definition dialog_provisional ::
  "network \<Rightarrow> status_code \<Rightarrow> bytes option \<Rightarrow> dialog \<Rightarrow> server_tsx \<Rightarrow> endpoint \<Rightarrow>
   (error, unit) res \<times> dialog \<times> server_tsx \<times> endpoint" where
  "dialog_provisional nw code rsn d s e =
     (case dialog_create_response d e s code rsn of
        Ok r \<Rightarrow>
          (case send_provisional_response nw r s e of
             (Ok u, s', e') \<Rightarrow>
               (Ok (), if as_u16 code \<noteq> 100 then d\<lparr>dl_state := DialogEarly\<rparr> else d, s', e')
           | (x, s', e') \<Rightarrow> (x, d, s', e'))
      | Err err \<Rightarrow> (Err err, d, s, e)
      | Panic \<Rightarrow> (Panic, d, s, e)
      | OutOfFuel \<Rightarrow> (OutOfFuel, d, s, e))"

definition dialog_final ::
  "network \<Rightarrow> status_code \<Rightarrow> dialog \<Rightarrow> server_tsx \<Rightarrow> endpoint \<Rightarrow>
   (error, unit) res \<times> final_task option \<times> endpoint" where
  "dialog_final nw code d s e =
     (case dialog_create_response d e s code None of
        Ok r \<Rightarrow> (case send_final_response nw r s e of (x, s', k, e') \<Rightarrow> (x, k, e'))
      | Err err \<Rightarrow> (Err err, None, server_drop s e)
      | Panic \<Rightarrow> (Panic, None, server_drop s e)
      | OutOfFuel \<Rightarrow> (OutOfFuel, None, server_drop s e))"

section \<open>What arrives\<close>

fun contact_of :: "header \<Rightarrow> contact option" where
  "contact_of (H_Contact c) = Some c" | "contact_of _ = None"

definition process_incoming_request ::
  "network \<Rightarrow> incoming_request \<Rightarrow> dialog \<Rightarrow> endpoint \<Rightarrow> (error, unit) res \<times> dialog \<times> endpoint" where
  "process_incoming_request nw req d e =
     (let n = cs_cseq (mh_cseq (ii_mandatory (ir_info req))); m = rl_method (rq_line (ir_request req)) in
      if m \<noteq> Cancel \<and> m \<noteq> Ack \<and> n \<le> (case dl_remote_cseq d of Some r \<Rightarrow> r | None \<Rightarrow> 0) then
        (case send_outgoing_response nw
                (create_outgoing_response req SC_ServerInternalError (Some ''Invalid Cseq'')) e of
           (x, r, e') \<Rightarrow> (x, d, e'))
      else
        let d1 = d\<lparr>dl_remote_cseq := Some n\<rparr> in
        (Ok (),
         (if m = Invite then
            (case first_opt contact_of (rq_headers (ir_request req)) of
               Some c \<Rightarrow> d1\<lparr>dl_contact := c\<rparr>
             | None \<Rightarrow> d1)
          else d1),
         e))"

text \<open>The next message of the dialog, if it comes no later than the limit (no limit is \<open>None\<close>):
  the outcome is \<open>Returned None\<close> when the time runs out, and \<open>Blocked\<close> when nothing ever comes.\<close>

definition dialog_receive ::
  "network \<Rightarrow> nat option \<Rightarrow> dialog \<Rightarrow> endpoint \<Rightarrow>
   ((error, incoming_message) res option \<times> dialog \<times> endpoint) run" where
  "dialog_receive nw limit d e =
     (let too_late = (\<lambda>t. case limit of Some l \<Rightarrow> l < max (ep_now e) t | None \<Rightarrow> False);
          out_of_time = (case limit of Some l \<Rightarrow> Returned (None, d, wait_until l e) | None \<Rightarrow> Blocked)
      in case rx_ready (dl_rx d) of
           None \<Rightarrow> out_of_time
         | Some t \<Rightarrow>
             if too_late t then out_of_time
             else
               (case rx_recv (dl_rx d) of
                  (None, rx) \<Rightarrow> Returned (Some (Err E_ChannelClosed), d, wait_until t e)
                | (Some msg, rx) \<Rightarrow>
                    let d1 = d\<lparr>dl_rx := rx\<rparr>; e1 = wait_until t e in
                    (case msg of
                       IncomingResponse r \<Rightarrow> Returned (Some (Ok msg), d1, e1)
                     | IncomingRequest req \<Rightarrow>
                         (case process_incoming_request nw req d1 e1 of
                            (x, d2, e2) \<Rightarrow> Returned (Some (bind_res x (\<lambda>u. Ok msg)), d2, e2)))))"

lemma process_keeps_rx: "process_incoming_request nw req d e = (x, d', e') \<Longrightarrow> dl_rx d' = dl_rx d"
  by (auto simp: process_incoming_request_def Let_def split: if_splits prod.splits option.splits)

lemma dialog_receive_takes:
  assumes "dialog_receive nw limit d e = Returned (Some (Ok msg), d', e')"
  shows "rx_messages (dl_rx d) = msg # rx_messages (dl_rx d')"
  using assms
  by (auto simp: dialog_receive_def Let_def bind_res_Ok_iff
      split: option.splits if_splits prod.splits incoming_message.splits
      dest!: rx_recv_takes process_keeps_rx)

text \<open>\<open>receive_request\<close> passes over responses.\<close>

function receive_request ::
  "network \<Rightarrow> nat option \<Rightarrow> dialog \<Rightarrow> endpoint \<Rightarrow>
   ((error, incoming_request) res option \<times> dialog \<times> endpoint) run" where
  "receive_request nw limit d e =
     (case dialog_receive nw limit d e of
        Returned (Some (Ok (IncomingRequest req)), d', e') \<Rightarrow> Returned (Some (Ok req), d', e')
      | Returned (Some (Ok (IncomingResponse r)), d', e') \<Rightarrow> receive_request nw limit d' e'
      | Returned (Some (Err err), d', e') \<Rightarrow> Returned (Some (Err err), d', e')
      | Returned (Some Panic, d', e') \<Rightarrow> Returned (Some Panic, d', e')
      | Returned (Some OutOfFuel, d', e') \<Rightarrow> Returned (Some OutOfFuel, d', e')
      | Returned (None, d', e') \<Rightarrow> Returned (None, d', e')
      | Blocked \<Rightarrow> Blocked)"
  by pat_completeness auto
termination
  by (relation "measure (\<lambda>(nw, limit, d, e). length (rx_messages (dl_rx d)))")
    (auto dest!: sym [of "Returned _"] dialog_receive_takes)

declare receive_request.simps [simp del]

lemma receive_request_takes:
  "receive_request nw limit d e = Returned (Some (Ok req), d', e') \<Longrightarrow>
     length (rx_messages (dl_rx d')) < length (rx_messages (dl_rx d))"
proof (induction nw limit d e rule: receive_request.induct)
  case (1 nw limit d e)
  show ?case
  proof (cases "dialog_receive nw limit d e")
    case (Returned p)
    obtain y d1 e1 where p: "p = (y, d1, e1)" by (cases p) auto
    show ?thesis
    proof (cases y)
      case (Some x)
      show ?thesis
      proof (cases x)
        case (Ok msg)
        note took = dialog_receive_takes [OF Returned [unfolded p Some Ok]]
        show ?thesis
        proof (cases msg)
          case (IncomingRequest q)
          with 1(2) Returned p Some Ok took show ?thesis
            by (subst (asm) receive_request.simps) auto
        next
          case (IncomingResponse r)
          with 1(2) Returned p Some Ok have "receive_request nw limit d1 e1 = Returned (Some (Ok req), d', e')"
            by (subst (asm) receive_request.simps) simp
          from 1(1) [OF Returned p [symmetric] Some Ok IncomingResponse refl this] took show ?thesis by simp
        qed
      qed (use 1(2) Returned p Some in \<open>subst (asm) receive_request.simps, simp\<close>)+
    qed (use 1(2) Returned p in \<open>subst (asm) receive_request.simps, simp\<close>)
  qed (use 1(2) in \<open>subst (asm) receive_request.simps, simp\<close>)
qed

text \<open>Each request that is no ACK starts the timer of 64 T1 again.\<close>

function wait_for_ack ::
  "network \<Rightarrow> dialog \<Rightarrow> endpoint \<Rightarrow> ((error, incoming_request) res \<times> dialog \<times> endpoint) run" where
  "wait_for_ack nw d e =
     (case receive_request nw (Some (ep_now e + T1 * 64)) d e of
        Returned (None, d', e') \<Rightarrow> Returned (Err (E_Custom ''No ACK received''), d', e')
      | Returned (Some (Ok req), d', e') \<Rightarrow>
          if rl_method (rq_line (ir_request req)) = Ack
          then Returned (Ok req, d'\<lparr>dl_state := DialogConfirmed\<rparr>, e')
          else wait_for_ack nw d' e'
      | Returned (Some (Err err), d', e') \<Rightarrow> Returned (Err err, d', e')
      | Returned (Some Panic, d', e') \<Rightarrow> Returned (Panic, d', e')
      | Returned (Some OutOfFuel, d', e') \<Rightarrow> Returned (OutOfFuel, d', e')
      | Blocked \<Rightarrow> Blocked)"
  by pat_completeness auto
termination
  by (relation "measure (\<lambda>(nw, d, e). length (rx_messages (dl_rx d)))")
    (auto dest!: sym [of "Returned _"] receive_request_takes)

declare wait_for_ack.simps [simp del]

end
