(* ===== verification/Dispatch.thy ===== *)
theory Dispatch
  imports Dialog
begin

text \<open>
  The endpoint's dispatch of incoming messages to its plugins (\<open>on_request\<close> and \<open>on_response\<close> in
  \<open>rssip/src/core/endpoint/mod.rs\<close>, the plugins' trait in \<open>rssip/src/core/endpoint/plugin.rs\<close>):
  the plugins see a message in the order in which they were added, until one takes it.
  An application's own plugin is represented by the messages it takes.
\<close>

section \<open>The chain\<close>

datatype plugin =
    P_Dialog
  | P_Transaction
  | P_App "incoming_request \<Rightarrow> bool" "incoming_response \<Rightarrow> bool"

definition plugin_on_request ::
  "network \<Rightarrow> (nat \<Rightarrow> bool) \<Rightarrow> plugin \<Rightarrow> incoming_request \<Rightarrow> channels \<Rightarrow> endpoint \<Rightarrow>
   (error, incoming_request option \<times> channels) res \<times> endpoint" where
  "plugin_on_request nw opened p req cs e =
     (case p of
        P_Dialog \<Rightarrow> dialog_on_request nw opened req cs e
      | P_Transaction \<Rightarrow> (tsx_on_request opened (ep_transactions e) req cs, e)
      | P_App takes takes' \<Rightarrow> (Ok (if takes req then None else Some req, cs), e))"

definition plugin_on_response ::
  "(nat \<Rightarrow> bool) \<Rightarrow> plugin \<Rightarrow> incoming_response \<Rightarrow> channels \<Rightarrow> endpoint \<Rightarrow>
   (error, incoming_response option \<times> channels) res" where
  "plugin_on_response opened p rsp cs e =
     (case p of
        P_Dialog \<Rightarrow> Ok (Some rsp, cs)
      | P_Transaction \<Rightarrow> tsx_on_response opened (ep_transactions e) rsp cs
      | P_App takes takes' \<Rightarrow> Ok (if takes' rsp then None else Some rsp, cs))"

text \<open>What is left of the message, and the channels.\<close>

fun on_request ::
  "network \<Rightarrow> (nat \<Rightarrow> bool) \<Rightarrow> plugin list \<Rightarrow> incoming_request \<Rightarrow> channels \<Rightarrow> endpoint \<Rightarrow>
   (error, incoming_request option \<times> channels) res \<times> endpoint" where
  "on_request nw opened [] req cs e = (Ok (Some req, cs), e)"
| "on_request nw opened (p # ps) req cs e =
     (case plugin_on_request nw opened p req cs e of
        (Ok (Some req', cs'), e') \<Rightarrow> on_request nw opened ps req' cs' e'
      | r \<Rightarrow> r)"

fun on_response ::
  "(nat \<Rightarrow> bool) \<Rightarrow> plugin list \<Rightarrow> incoming_response \<Rightarrow> channels \<Rightarrow> endpoint \<Rightarrow>
   (error, incoming_response option \<times> channels) res" where
  "on_response opened [] rsp cs e = Ok (Some rsp, cs)"
| "on_response opened (p # ps) rsp cs e =
     bind_res (plugin_on_response opened p rsp cs e) (\<lambda>(left, cs').
       case left of Some rsp' \<Rightarrow> on_response opened ps rsp' cs' e | None \<Rightarrow> Ok (None, cs'))"

section \<open>Laws\<close>

interpretation dialogs: keyed_table register_dialog remove_dialog get_dialog
  by unfold_locales (simp_all add: register_dialog_def remove_dialog_def get_dialog_def
      update_conv' delete_conv' fun_eq_iff)

definition in_dialog :: "dialog_id \<Rightarrow> incoming_request \<Rightarrow> bool" where
  "in_dialog i req \<longleftrightarrow>
     (let m = ii_mandatory (ir_info req) in
      mh_call_id m = dg_call_id i \<and> to_tag (mh_to m) = Some (dg_local_tag i) \<and> fr_tag (mh_from m) = dg_remote_tag i)"

lemma dialog_id_iff: "dialog_id_of_request req = Some i \<longleftrightarrow> in_dialog i req"
  by (cases i) (auto simp: dialog_id_of_request_def in_dialog_def Let_def split: option.splits)

text \<open>C22: The dialog a server creates from a request is where the later requests of that dialog go:
  a request with its Call-ID, its local tag in the To header and the caller's tag in the From header
  is taken by the plugin and delivered to the dialog's channel, as long as no other dialog is
  registered under the same identifier and the dialog is not dropped; after the drop it is answered
  with 481 (an ACK is dropped).\<close>

theorem uas_dialog_gets_its_requests:
  assumes "create_uas req contact tag chan rx e = (Ok d, e1)" and "in_dialog (dl_id d) req'"
    and "get_dialog (ep_dialogs e2) (dl_id d) = get_dialog (ep_dialogs e1) (dl_id d)" and "opened chan"
  shows "dialog_on_request nw opened req' cs e2 = (Ok (None, deliver chan (IncomingRequest req') cs), e2) \<and>
    fr_tag (dl_from d) = dg_remote_tag (dl_id d) \<and> dg_local_tag (dl_id d) = tag \<and>
    get_dialog (ep_dialogs (dialog_drop d e2)) (dl_id d) = None"
proof -
  have "get_dialog (ep_dialogs e1) (dl_id d) = Some chan"
    using assms(1) by (auto simp: create_uas_def Let_def dialogs.find_after_insert split: if_splits)
  moreover have "fr_tag (dl_from d) = dg_remote_tag (dl_id d)" "dg_local_tag (dl_id d) = tag"
    using assms(1) by (auto simp: create_uas_def Let_def split: if_splits)
  ultimately show ?thesis
    using assms(2-4) dialog_id_iff [of req' "dl_id d"]
    by (simp add: dialog_on_request_def dialog_drop_def dialogs.find_after_remove)
qed

definition sample_tagged :: "sip_method \<Rightarrow> u32 \<Rightarrow> bytes \<Rightarrow> incoming_request" where
  "sample_tagged m n tag =
     (let r = sample_request m sample_udp; i = ir_info r; h = ii_mandatory i in
      r\<lparr>ir_info := i\<lparr>ii_mandatory := h\<lparr>mh_to := (mh_to h)\<lparr>to_tag := Some tag\<rparr>,
                                             mh_cseq := \<lparr>cs_cseq = n, cs_method = m\<rparr>\<rparr>\<rparr>\<rparr>)"

definition sample_contact :: contact where
  "sample_contact = \<lparr>ct_uri = PlainUri sample_uri, ct_q = None, ct_expires = None, ct_param = []\<rparr>"

lemma sample_tagged_fields [simp]:
  "rl_method (rq_line (ir_request (sample_tagged m n tag))) = m"
  "mh_call_id (ii_mandatory (ir_info (sample_tagged m n tag))) = ''c1@10.0.0.1''"
  "to_tag (mh_to (ii_mandatory (ir_info (sample_tagged m n tag)))) = Some tag"
  "fr_tag (mh_from (ii_mandatory (ir_info (sample_tagged m n tag)))) = Some ''a1''"
  "mh_cseq (ii_mandatory (ir_info (sample_tagged m n tag))) = \<lparr>cs_cseq = n, cs_method = m\<rparr>"
  by (simp_all add: sample_tagged_def Let_def sample_request_def request_with_headers_def sample_mandatory_def)

lemma sample_uas:
  "\<exists>d e. create_uas (sample_request Invite sample_udp) sample_contact tag 5 rx sample_endpoint = (Ok d, e) \<and>
     dl_id d = \<lparr>dg_call_id = ''c1@10.0.0.1'', dg_local_tag = tag, dg_remote_tag = Some ''a1''\<rparr>"
  by (simp add: create_uas_def Let_def can_establish_dialog_def sample_request_def request_with_headers_def
      sample_mandatory_def)

theorem uas_dialog_gets_its_requests_witness:
  "\<exists>d e cs. create_uas (sample_request Invite sample_udp) sample_contact ''t9'' 5 (receiver_new [] None) sample_endpoint = (Ok d, e) \<and>
     dialog_on_request sample_network (\<lambda>c. True) (sample_tagged Bye 2 ''t9'') (\<lambda>c. []) e = (Ok (None, cs), e) \<and>
     cs 5 = [IncomingRequest (sample_tagged Bye 2 ''t9'')]"
proof -
  obtain d e where d: "create_uas (sample_request Invite sample_udp) sample_contact ''t9'' 5 (receiver_new [] None) sample_endpoint = (Ok d, e)"
    and i: "dl_id d = \<lparr>dg_call_id = ''c1@10.0.0.1'', dg_local_tag = ''t9'', dg_remote_tag = Some ''a1''\<rparr>"
    using sample_uas by blast
  have "in_dialog (dl_id d) (sample_tagged Bye 2 ''t9'')" by (simp add: in_dialog_def i Let_def)
  from uas_dialog_gets_its_requests [OF d this refl, of "\<lambda>c. True" sample_network "\<lambda>c. []"] d
  show ?thesis by (auto simp: deliver_def)
qed



text \<open>C24: With the dialog plugin before the transaction plugin, the order of the examples, the ACK of
  a refused INVITE never reaches its server transaction: it carries the tag of the refusal in its To
  header, so the dialog plugin takes it, and drops it for want of a dialog. In the other order the
  transaction gets it.\<close>

theorem ack_of_refusal_is_swallowed:
  assumes "rl_method (rq_line (ir_request req)) = Ack" and "dialog_id_of_request req = Some i"
    and "get_dialog (ep_dialogs e) i = None"
    and "key_from_request req = Ok k" and "get_entry (ep_transactions e) k = Some c" and "opened c"
  shows "on_request nw opened (P_Dialog # P_Transaction # ps) req cs e = (Ok (None, cs), e) \<and>
    on_request nw opened (P_Transaction # P_Dialog # ps) req cs e =
      (Ok (None, deliver c (IncomingRequest req) cs), e)"
  using assms by (simp add: plugin_on_request_def dialog_on_request_def tsx_on_request_def)

theorem ack_of_refusal_is_swallowed_witness:
  "let ack = sample_tagged Ack 1 ''z9hG4bKabcdefgh'';
       e = sample_endpoint\<lparr>ep_transactions := [(new_key_3261 Uas Invite ''z9hG4bKabcdefgh'', 3)]\<rparr>
   in on_request sample_network (\<lambda>c. True) [P_Dialog, P_Transaction] ack (\<lambda>c. []) e = (Ok (None, \<lambda>c. []), e)"
proof -
  let ?ack = "sample_tagged Ack 1 ''z9hG4bKabcdefgh''"
  let ?e = "sample_endpoint\<lparr>ep_transactions := [(new_key_3261 Uas Invite ''z9hG4bKabcdefgh'', 3)]\<rparr>"
  have "dialog_id_of_request ?ack =
      Some \<lparr>dg_call_id = ''c1@10.0.0.1'', dg_local_tag = ''z9hG4bKabcdefgh'', dg_remote_tag = Some ''a1''\<rparr>"
    by (simp add: dialog_id_of_request_def Let_def)
  moreover have "key_from_request ?ack = Ok (new_key_3261 Uas Invite ''z9hG4bKabcdefgh'')"
    by (simp add: key_from_request_def from_incoming_info_def sample_tagged_def Let_def sample_request_def
        sample_mandatory_def sample_via_def via_new_udp_def via_new_with_transport_def starts_with_def
        RFC3261_BRANCH_ID_def new_key_3261_def)
  ultimately show ?thesis
    using ack_of_refusal_is_swallowed [of ?ack _ ?e "new_key_3261 Uas Invite ''z9hG4bKabcdefgh''" 3 "\<lambda>c. True"
        sample_network "[]" "\<lambda>c. []"]
    by (simp add: sample_endpoint_def get_dialog_def get_entry_def)
qed

end
