(* ===== verification/Dialog_Laws.thy ===== *)
theory Dialog_Laws
  imports Dispatch
begin

text \<open>
  What holds inside a dialog: the responses it makes, the sequence numbers it accepts and uses, the
  targets of its requests, and the wait for the ACK.
\<close>

section \<open>Responses\<close>

lemma tag_first_to_simps:
  "tag_first_to tag (H_To t # hs) = Some (H_To (t\<lparr>to_tag := Some tag\<rparr>) # hs)"
  "to_of h = None \<Longrightarrow> tag_first_to tag (h # hs) = map_option (\<lambda>hs'. h # hs') (tag_first_to tag hs)"
  by simp (cases h; simp)

lemma tag_first_to_append:
  "\<forall>h\<in>set hs. to_of h = None \<Longrightarrow>
     tag_first_to tag (hs @ H_To t # rest) = Some (hs @ H_To (t\<lparr>to_tag := Some tag\<rparr>) # rest)"
  by (induction hs) (simp_all add: tag_first_to_simps del: tag_first_to.simps(2))

definition copied_headers :: "incoming_request \<Rightarrow> headers" where
  "copied_headers req =
     (let hs = rq_headers (ir_request req); m = ii_mandatory (ir_info req) in
      [H_Via (mh_via m)] @ drop 1 (filter is_via hs) @ filter is_record_route hs @
      [H_CallId (mh_call_id m), H_From (mh_from m)])"

lemma create_response_headers:
  "rs_headers (create_response req code rsn) =
     copied_headers req @ [H_To (response_to (ii_mandatory (ir_info req)) code),
                           H_CSeq (mh_cseq (ii_mandatory (ir_info req)))]"
  by (simp add: create_response_def copied_headers_def Let_def)

lemma copied_header_cases:
  "h \<in> set (copied_headers req) \<Longrightarrow>
     (\<exists>v. h = H_Via v) \<or> (\<exists>r. h = H_RecordRoute r) \<or> (\<exists>c. h = H_CallId c) \<or> (\<exists>f. h = H_From f)"
  by (auto simp: copied_headers_def Let_def dest!: drop_filter_via filter_record_route [of _ "rq_headers (ir_request req)"]
      simp del: set_filter)

lemma copied_headers_plain:
  "\<forall>h\<in>set (copied_headers req). to_of h = None \<and> \<not> is_contact h \<and> \<not> is_allow h \<and> \<not> is_supported h"
  using copied_header_cases by fastforce

definition offered :: "bool \<Rightarrow> header \<Rightarrow> headers" where
  "offered b h = (if b then [h] else [])"

lemma dialog_headers_exact:
  fixes s code
  defines "m \<equiv> ii_mandatory (ir_info (st_request s))" and "n \<equiv> as_u16 code"
  shows "dialog_headers d e n (rs_headers (or_response (server_create_response s code rsn))) =
    Ok (copied_headers (st_request s) @
      [H_To (if n = 100 then mh_to m else (mh_to m)\<lparr>to_tag := Some (dg_local_tag (dl_id d))\<rparr>),
       H_CSeq (mh_cseq m)] @
      offered ((101 \<le> n \<and> n \<le> 399) \<or> n = 485) (H_Contact (dl_contact d)) @
      offered (((180 \<le> n \<and> n \<le> 189) \<or> (200 \<le> n \<and> n \<le> 299) \<or> n = 405) \<and> ep_allow e \<noteq> []) (H_Allow (ep_allow e)) @
      offered ((200 \<le> n \<and> n \<le> 299) \<and> ep_supported e \<noteq> []) (H_Supported (ep_supported e)))"
proof -
  let ?req = "st_request s"
  have hs: "rs_headers (or_response (server_create_response s code rsn)) =
      copied_headers ?req @ [H_To (response_to m code), H_CSeq (mh_cseq m)]"
    by (simp add: server_create_response_def create_outgoing_response_def create_response_headers m_def
        split: option.split)
  note plain = copied_headers_plain [of ?req]
  have to100: "n = 100 \<Longrightarrow> response_to m code = mh_to m" by (simp add: response_to_def n_def Let_def)
  have retag: "(response_to m code)\<lparr>to_tag := Some tag\<rparr> = (mh_to m)\<lparr>to_tag := Some tag\<rparr>" for tag
    by (simp add: response_to_def Let_def set_tag_def)
  have none: "\<not> (\<exists>x\<in>set (copied_headers ?req). is_contact x)" "\<not> (\<exists>x\<in>set (copied_headers ?req). is_allow x)"
    "\<not> (\<exists>x\<in>set (copied_headers ?req). is_supported x)" "\<forall>h\<in>set (copied_headers ?req). to_of h = None"
    using plain by auto
  show ?thesis
    unfolding dialog_headers_def hs Let_def
    by (simp add: push_unless_def offered_def none tag_first_to_append retag to100)
qed

text \<open>C25: A response made inside a dialog never panics, and consists of the headers every response to
  the request has, with the dialog's local tag in the To header (the request's To header is kept in
  a 100), followed by the dialog's Contact (101 to 399 and 485), the endpoint's Allow (180 to 189, 2xx and
  405) and its Supported (2xx), the last two when the endpoint has any.\<close>

theorem dialog_response_headers:
  fixes s code
  defines "m \<equiv> ii_mandatory (ir_info (st_request s))" and "n \<equiv> as_u16 code"
  shows "\<exists>r. dialog_create_response d e s code rsn = Ok r \<and>
    or_dest r = or_dest (server_create_response s code rsn) \<and>
    rs_headers (or_response r) =
      copied_headers (st_request s) @
      [H_To (if n = 100 then mh_to m else (mh_to m)\<lparr>to_tag := Some (dg_local_tag (dl_id d))\<rparr>),
       H_CSeq (mh_cseq m)] @
      offered ((101 \<le> n \<and> n \<le> 399) \<or> n = 485) (H_Contact (dl_contact d)) @
      offered (((180 \<le> n \<and> n \<le> 189) \<or> (200 \<le> n \<and> n \<le> 299) \<or> n = 405) \<and> ep_allow e \<noteq> []) (H_Allow (ep_allow e)) @
      offered ((200 \<le> n \<and> n \<le> 299) \<and> ep_supported e \<noteq> []) (H_Supported (ep_supported e))"
  by (simp add: dialog_create_response_def dialog_headers_exact Let_def n_def m_def)

section \<open>Sequence numbers\<close>

abbreviation req_cseq :: "incoming_request \<Rightarrow> u32" where
  "req_cseq req \<equiv> cs_cseq (mh_cseq (ii_mandatory (ir_info req)))"

abbreviation req_method :: "incoming_request \<Rightarrow> sip_method" where
  "req_method req \<equiv> rl_method (rq_line (ir_request req))"

definition last_cseq :: "dialog \<Rightarrow> u32" where
  "last_cseq d = (case dl_remote_cseq d of Some n \<Rightarrow> n | None \<Rightarrow> 0)"

definition stale :: "incoming_request \<Rightarrow> dialog \<Rightarrow> bool" where
  "stale req d \<longleftrightarrow> req_method req \<noteq> Cancel \<and> req_method req \<noteq> Ack \<and> req_cseq req \<le> last_cseq d"

definition refreshed :: "incoming_request \<Rightarrow> dialog \<Rightarrow> dialog" where
  "refreshed req d =
     (case first_opt contact_of (rq_headers (ir_request req)) of
        Some c \<Rightarrow> if req_method req = Invite then d\<lparr>dl_contact := c\<rparr> else d
      | None \<Rightarrow> d)\<lparr>dl_remote_cseq := Some (req_cseq req)\<rparr>"

lemma process_fresh:
  "\<not> stale req d \<Longrightarrow> process_incoming_request nw req d e = (Ok (), refreshed req d, e)"
  by (auto simp: process_incoming_request_def stale_def last_cseq_def refreshed_def Let_def split: option.splits)

lemma process_stale:
  "stale req d \<Longrightarrow> process_incoming_request nw req d e =
     (case send_outgoing_response nw
             (create_outgoing_response req SC_ServerInternalError (Some ''Invalid Cseq'')) e of
        (x, r, e') \<Rightarrow> (x, d, e'))"
  by (simp add: process_incoming_request_def stale_def last_cseq_def Let_def)

text \<open>C26: What a request does to its dialog. A request whose sequence number is not above the last
  one leaves the dialog unchanged and is answered with 500, unless it is an ACK or a CANCEL. Any
  other request sets the last sequence number to its own, and an INVITE with a Contact sets the
  remote target; nothing else changes and nothing is sent. So the last number never falls, except
  through an ACK or a CANCEL, which set it to whatever they carry.\<close>

theorem request_sequencing:
  assumes "process_incoming_request nw req d e = (x, d', e')"
  shows "(if stale req d then d' = d \<and> (x = Ok () \<longrightarrow> (\<exists>r. delivered r e e' \<and>
            encode_response (create_response req SC_ServerInternalError (Some ''Invalid Cseq'')) = Ok (or_encoded r)))
          else x = Ok () \<and> e' = e \<and> d' = refreshed req d) \<and>
    (req_method req \<noteq> Ack \<and> req_method req \<noteq> Cancel \<longrightarrow> last_cseq d \<le> last_cseq d')"
proof (cases "stale req d")
  case True
  obtain y r e1 where snd: "send_outgoing_response nw
      (create_outgoing_response req SC_ServerInternalError (Some ''Invalid Cseq'')) e = (y, r, e1)"
    by (metis prod_cases3)
  with True assms have eq: "x = y" "d' = d" "e' = e1" by (simp_all add: process_stale)
  have "y = Ok () \<Longrightarrow> delivered r e e1 \<and>
      encode_response (create_response req SC_ServerInternalError (Some ''Invalid Cseq'')) = Ok (or_encoded r)"
    using send_outgoing_delivers [of nw "create_outgoing_response req SC_ServerInternalError (Some ''Invalid Cseq'')" e "()" r e1]
      snd by (simp add: create_outgoing_response_def)
  with True eq show ?thesis by auto
next
  case False
  with assms have "x = Ok ()" "e' = e" "d' = refreshed req d" by (simp_all add: process_fresh)
  moreover have "last_cseq (refreshed req d) = req_cseq req"
    by (simp add: last_cseq_def refreshed_def)
  ultimately show ?thesis
    using False by (auto simp: stale_def)
qed

theorem request_sequencing_witness:
  "\<exists>d e x d' e'. create_uas (sample_request Invite sample_udp) sample_contact ''t9'' 5 (receiver_new [] None)
        sample_endpoint = (Ok d, e) \<and>
     process_incoming_request sample_network (sample_tagged Bye 2 ''t9'') d e = (x, d', e') \<and>
     x = Ok () \<and> last_cseq d' = 2 \<and> last_cseq d = 1 \<and> last_cseq d \<le> last_cseq d'"
proof -
  obtain d e where d: "create_uas (sample_request Invite sample_udp) sample_contact ''t9'' 5 (receiver_new [] None)
      sample_endpoint = (Ok d, e)"
    using sample_uas by blast
  then have one: "last_cseq d = 1"
    by (auto simp: create_uas_def Let_def last_cseq_def sample_request_def request_with_headers_def
        sample_mandatory_def split: if_splits)
  obtain x d' e' where p: "process_incoming_request sample_network (sample_tagged Bye 2 ''t9'') d e = (x, d', e')"
    by (metis prod_cases3)
  have "\<not> stale (sample_tagged Bye 2 ''t9'') d" by (simp add: stale_def one word_le_nat_alt)
  with request_sequencing [OF p] have "x = Ok ()" "last_cseq d \<le> last_cseq d'"
    and "d' = refreshed (sample_tagged Bye 2 ''t9'') d" by (blast | simp)+
  then show ?thesis
    using d p one \<open>last_cseq d \<le> last_cseq d'\<close>
    by (intro exI conjI) (assumption | simp add: last_cseq_def refreshed_def split: option.split)+
qed

section \<open>Requests\<close>

text \<open>C27: What the requests of a server's dialog look like. Their request URI is the dialog's contact,
  which is the server's own until an INVITE with a Contact arrives; From and To are those of the
  request that made the dialog, not swapped, and the To header has no tag; no route is added. The sequence
  number is chosen once: all requests of the dialog carry the same one.\<close>

theorem uas_dialog_requests:
  assumes "create_uas req contact tag chan rx e = (Ok d, e1)"
    and "dialog_create_request n1 m1 d = (q1, d1)" and "dialog_create_request n2 m2 d1 = (q2, d2)"
  shows "rl_uri (rq_line q1) = su_uri (ct_uri contact) \<and> rl_uri (rq_line q2) = su_uri (ct_uri contact) \<and>
    rq_headers q2 = [H_From (mh_from (ii_mandatory (ir_info req))),
      H_To ((mh_to (ii_mandatory (ir_info req)))\<lparr>to_tag := None\<rparr>),
      H_CallId (mh_call_id (ii_mandatory (ir_info req))), H_CSeq \<lparr>cs_cseq = n1, cs_method = m2\<rparr>, H_MaxForwards 70] \<and>
    H_CSeq \<lparr>cs_cseq = n1, cs_method = m1\<rparr> \<in> set (rq_headers q1) \<and> d2 = d1"
  using assms
  by (cases "mh_to (ii_mandatory (ir_info req))")
    (auto simp: create_uas_def dialog_create_request_def Let_def split: if_splits)

theorem uas_dialog_requests_witness:
  "\<exists>d e q1 d1 q2 d2. create_uas (sample_request Invite sample_udp) sample_contact ''t9'' 5 (receiver_new [] None)
        sample_endpoint = (Ok d, e) \<and>
     dialog_create_request 7 Info d = (q1, d1) \<and> dialog_create_request 8 Bye d1 = (q2, d2) \<and>
     rl_uri (rq_line q2) = sample_uri \<and> rq_headers q2 ! 3 = H_CSeq \<lparr>cs_cseq = 7, cs_method = Bye\<rparr>"
proof -
  obtain d e where d: "create_uas (sample_request Invite sample_udp) sample_contact ''t9'' 5 (receiver_new [] None)
      sample_endpoint = (Ok d, e)"
    using sample_uas by blast
  obtain q1 d1 where r1: "dialog_create_request 7 Info d = (q1, d1)" by (metis prod.exhaust)
  obtain q2 d2 where r2: "dialog_create_request 8 Bye d1 = (q2, d2)" by (metis prod.exhaust)
  from uas_dialog_requests [OF d r1 r2] d r1 r2 show ?thesis
    by (fastforce simp: sample_contact_def)
qed

section \<open>The wait for the ACK\<close>

text \<open>Arrival times that keep the wait going.\<close>

fun paced :: "nat \<Rightarrow> nat list \<Rightarrow> bool" where
  "paced s [] = True"
| "paced s (t # ts) = (s \<le> t \<and> t \<le> s + 64 * T1 \<and> paced t ts)"

lemma refreshed_fields [simp]:
  "dl_rx (refreshed req d) = dl_rx d" "last_cseq (refreshed req d) = req_cseq req"
  "dl_state (refreshed req d) = dl_state d"
  by (simp_all add: refreshed_def last_cseq_def split: option.split)

lemma last_cseq_rx [simp]: "last_cseq (d\<lparr>dl_rx := rx\<rparr>) = last_cseq d"
  by (simp add: last_cseq_def)

lemma stale_rx [simp]: "stale req (d\<lparr>dl_rx := rx\<rparr>) = stale req d"
  by (simp add: stale_def)

lemma dialog_receive_fresh:
  assumes "dl_rx d = receiver_new ((t, IncomingRequest q) # rest) c" and "\<not> stale q d"
    and "ep_now e \<le> t" and "t \<le> l"
  shows "receive_request nw (Some l) d e =
    Returned (Some (Ok q), refreshed q (d\<lparr>dl_rx := receiver_new rest c\<rparr>), wait_until t e)"
proof -
  have "max (ep_now e) t = t" using assms(3) by (rule max_absorb2)
  then have "dialog_receive nw (Some l) d e =
    Returned (Some (Ok (IncomingRequest q)), refreshed q (d\<lparr>dl_rx := receiver_new rest c\<rparr>), wait_until t e)"
    using assms(1,2,4)
    by (simp add: dialog_receive_def rx_ready_def rx_recv_def receiver_new_def process_fresh)
  then show ?thesis by (subst receive_request.simps) simp
qed

lemma receive_request_silent:
  assumes "dl_rx d = receiver_new [] None"
  shows "receive_request nw (Some l) d e = Returned (None, d, wait_until l e)"
  using assms
  by (subst receive_request.simps) (simp add: dialog_receive_def rx_ready_def receiver_new_def Let_def)

lemma wait_for_ack_skips:
  assumes "dl_rx d = receiver_new (map (\<lambda>(t, q). (t, IncomingRequest q)) reqs @ rest) c"
    and "\<forall>(t, q)\<in>set reqs. req_method q \<noteq> Ack"
    and "sorted_wrt (<) (last_cseq d # map (req_cseq \<circ> snd) reqs)"
    and "paced (ep_now e) (map fst reqs)"
  shows "\<exists>d' e'. wait_for_ack nw d e = wait_for_ack nw d' e' \<and> dl_rx d' = receiver_new rest c \<and>
    ep_now e' = last (ep_now e # map fst reqs) \<and> sent e' = sent e \<and>
    last_cseq d' = last (last_cseq d # map (req_cseq \<circ> snd) reqs) \<and> dl_state d' = dl_state d"
  using assms
proof (induction reqs arbitrary: d e)
  case Nil
  then show ?case by auto
next
  case (Cons p reqs)
  obtain t q where p: "p = (t, q)" by (cases p)
  have fresh: "\<not> stale q d" using Cons.prems(3) by (simp add: stale_def p not_le)
  let ?d = "refreshed q (d\<lparr>dl_rx := receiver_new (map (\<lambda>(t, q). (t, IncomingRequest q)) reqs @ rest) c\<rparr>)"
  have t: "ep_now e \<le> t" "t \<le> ep_now e + T1 * 64" using Cons.prems(4) by (simp_all add: p)
  have now: "ep_now (wait_until t e) = t" using t(1) by simp
  have "wait_for_ack nw d e = wait_for_ack nw ?d (wait_until t e)"
    using Cons.prems(2) p
    by (subst wait_for_ack.simps) (simp add: dialog_receive_fresh [OF _ fresh t] Cons.prems(1))
  moreover have "\<exists>d' e'. wait_for_ack nw ?d (wait_until t e) = wait_for_ack nw d' e' \<and> dl_rx d' = receiver_new rest c \<and>
    ep_now e' = last (ep_now (wait_until t e) # map fst reqs) \<and> sent e' = sent (wait_until t e) \<and>
    last_cseq d' = last (last_cseq ?d # map (req_cseq \<circ> snd) reqs) \<and> dl_state d' = dl_state ?d"
    by (rule Cons.IH) (use Cons.prems p now in simp_all)
  ultimately obtain d' e' where "wait_for_ack nw d e = wait_for_ack nw d' e'" "dl_rx d' = receiver_new rest c"
    "ep_now e' = last (ep_now (wait_until t e) # map fst reqs)" "sent e' = sent e"
    "last_cseq d' = last (last_cseq ?d # map (req_cseq \<circ> snd) reqs)" "dl_state d' = dl_state d"
    by auto
  then show ?case by (intro exI [of _ d'] exI [of _ e']) (use t(1) in \<open>simp add: p comp_def max_absorb2\<close>)
qed

text \<open>C28: How the wait for the ACK ends. Every other request that arrives in time starts the 64 T1 again,
  so the wait has no bound of its own; requests with ascending sequence numbers that arrive no more than 64 T1 apart are
  passed over without a reply, although nobody else sees them. An ACK within 64 T1 of the last of
  them is returned and confirms the dialog at the moment it arrives; silence is the error ''No ACK
  received'', 64 T1 after the last of them, with the dialog's state unchanged.\<close>

theorem ack_wait_ends:
  assumes "dl_rx d = receiver_new (map (\<lambda>(t, q). (t, IncomingRequest q)) reqs @ rest) None"
    and "\<forall>(t, q)\<in>set reqs. req_method q \<noteq> Ack"
    and "sorted_wrt (<) (last_cseq d # map (req_cseq \<circ> snd) reqs)"
    and "paced (ep_now e) (map fst reqs)"
  shows "(rest = [] \<longrightarrow> (\<exists>d' e'. wait_for_ack nw d e = Returned (Err (E_Custom ''No ACK received''), d', e') \<and>
            ep_now e' = last (ep_now e # map fst reqs) + 64 * T1 \<and> sent e' = sent e \<and> dl_state d' = dl_state d)) \<and>
    (\<forall>t ack later. rest = (t, IncomingRequest ack) # later \<and> req_method ack = Ack \<and>
        last (ep_now e # map fst reqs) \<le> t \<and> t \<le> last (ep_now e # map fst reqs) + 64 * T1 \<longrightarrow>
      (\<exists>d' e'. wait_for_ack nw d e = Returned (Ok ack, d', e') \<and> ep_now e' = t \<and> sent e' = sent e \<and>
         dl_state d' = DialogConfirmed \<and> last_cseq d' = req_cseq ack))"
proof -
  obtain d1 e1 where skip: "wait_for_ack nw d e = wait_for_ack nw d1 e1" "dl_rx d1 = receiver_new rest None"
    "ep_now e1 = last (ep_now e # map fst reqs)" "sent e1 = sent e" "dl_state d1 = dl_state d"
    using wait_for_ack_skips [OF assms] by blast
  have silent: "wait_for_ack nw d1 e1 =
      Returned (Err (E_Custom ''No ACK received''), d1, wait_until (ep_now e1 + T1 * 64) e1)" if "rest = []"
    using that skip(2) by (subst wait_for_ack.simps) (simp add: receive_request_silent)
  have acked: "wait_for_ack nw d1 e1 = Returned (Ok ack,
        (refreshed ack (d1\<lparr>dl_rx := receiver_new later None\<rparr>))\<lparr>dl_state := DialogConfirmed\<rparr>, wait_until t e1)"
    if r: "rest = (t, IncomingRequest ack) # later" "req_method ack = Ack"
      and t: "ep_now e1 \<le> t" "t \<le> ep_now e1 + 64 * T1" for t ack later
    using skip(2) r t
    by (subst wait_for_ack.simps) (simp add: dialog_receive_fresh [of d1 t ack later None e1] stale_def)
  show ?thesis
  proof (intro conjI impI allI)
    assume "rest = []"
    from silent [OF this] show "\<exists>d' e'. wait_for_ack nw d e = Returned (Err (E_Custom ''No ACK received''), d', e') \<and>
            ep_now e' = last (ep_now e # map fst reqs) + 64 * T1 \<and> sent e' = sent e \<and> dl_state d' = dl_state d"
      using skip by simp
  next
    fix t ack later
    assume "rest = (t, IncomingRequest ack) # later \<and> req_method ack = Ack \<and>
        last (ep_now e # map fst reqs) \<le> t \<and> t \<le> last (ep_now e # map fst reqs) + 64 * T1"
    then have r: "rest = (t, IncomingRequest ack) # later" "req_method ack = Ack"
      and t: "ep_now e1 \<le> t" "t \<le> ep_now e1 + 64 * T1" by (simp_all add: skip(3))
    show "\<exists>d' e'. wait_for_ack nw d e = Returned (Ok ack, d', e') \<and> ep_now e' = t \<and> sent e' = sent e \<and>
         dl_state d' = DialogConfirmed \<and> last_cseq d' = req_cseq ack"
      using acked [OF r t] skip t(1) by (simp add: last_cseq_def refreshed_def split: option.split)
  qed
qed

theorem ack_wait_ends_witness:
  "\<exists>d e d' e'. create_uas (sample_request Invite sample_udp) sample_contact ''t9'' 5
        (receiver_new [(20000, IncomingRequest (sample_tagged Info 2 ''t9'')),
                       (50000, IncomingRequest (sample_tagged Ack 1 ''t9''))] None) sample_endpoint = (Ok d, e) \<and>
     wait_for_ack sample_network d e = Returned (Ok (sample_tagged Ack 1 ''t9''), d', e') \<and>
     ep_now e' = 50000 \<and> dl_state d' = DialogConfirmed \<and> last_cseq d' = 1"
proof -
  let ?rx = "receiver_new [(20000, IncomingRequest (sample_tagged Info 2 ''t9'')),
                       (50000, IncomingRequest (sample_tagged Ack 1 ''t9''))] None"
  obtain d e where d: "create_uas (sample_request Invite sample_udp) sample_contact ''t9'' 5 ?rx
      sample_endpoint = (Ok d, e)"
    using sample_uas by blast
  then have one: "last_cseq d = 1" and rx: "dl_rx d = ?rx" and now: "ep_now e = 0"
    by (auto simp: create_uas_def Let_def last_cseq_def sample_request_def request_with_headers_def
        sample_mandatory_def ep_now_def sample_endpoint_def new_world_def split: if_splits)
  have "\<exists>d' e'. wait_for_ack sample_network d e = Returned (Ok (sample_tagged Ack 1 ''t9''), d', e') \<and>
     ep_now e' = 50000 \<and> sent e' = sent e \<and> dl_state d' = DialogConfirmed \<and> last_cseq d' = req_cseq (sample_tagged Ack 1 ''t9'')"
    using ack_wait_ends [of d "[(20000, sample_tagged Info 2 ''t9'')]"
        "[(50000, IncomingRequest (sample_tagged Ack 1 ''t9''))]" e sample_network]
    by (simp add: rx one now T1_def)
  with d show ?thesis by auto
qed

end
