(* ===== verification/Sdp.thy ===== *)
theory Sdp
  imports Sip_Error
begin

text \<open>
  Session descriptions (\<open>rssip-media/src/sdp/mod.rs\<close>): the types, the setters the parser builds a
  description with, and the text form (\<open>Display\<close> and \<open>Encode\<close>). The line end of a description is
  CR LF.
\<close>

section \<open>Types\<close>

datatype addr_type = IP4 | IP6

datatype net_type = Nt_IN | Nt_Other bytes

record connection_information =
  ci_nettype :: net_type
  ci_addrtype :: addr_type
  ci_conection_address :: ip_addr

record time_active =
  ta_start_time :: u64
  ta_stop_time :: u64

text \<open>The repeat times are \<open>i64\<close>.\<close>

record repeat_times =
  rt_repeat_interval :: int
  rt_active_duration :: int
  rt_offsets :: "int list"

record time_description =
  td_time_active :: time_active
  td_repeat_times :: "repeat_times list"

datatype bwtype = Bw_CT | Bw_AS | Bw_RR | Bw_RS | Bw_TIAS | Bw_Other bytes

record bandwidth_information =
  bi_bwtype :: bwtype
  bi_bandwidth :: u64

record attribute =
  at_name :: bytes
  at_value :: "bytes option"

record origin =
  og_user :: bytes
  og_session_id :: u64
  og_session_version :: u64
  og_nettype :: net_type
  og_addrtype :: addr_type
  og_unicast_address :: ip_addr

datatype sdp_media_type = M_Audio | M_Video | M_Text | M_Application | M_Message

datatype sdp_transport = UDP | RTPAVP | RTPAVPF | RTPSAVP | RTPSAVPF

record media_description =
  md_media_type :: sdp_media_type
  md_proto :: sdp_transport
  md_port :: u16
  md_number_of_ports :: "nat option"
  md_media_formats :: "bytes list"
  md_title :: "bytes option"
  md_connection_information :: "connection_information option"
  md_bandwidth_information :: "bandwidth_information list"
  md_attributes :: "attribute list"

record rtp_map =
  rm_payload_type :: bytes
  rm_enc_name :: bytes
  rm_clock_rate :: u32
  rm_param :: "bytes option"

datatype direction = Unspecified | SendRecv | RecvOnly | SendOnly | Inactive

record session_description =
  sd_origin :: origin
  sd_session_name :: bytes
  sd_session_information :: "bytes option"
  sd_uri :: "bytes option"
  sd_email_address :: "bytes option"
  sd_phone_number :: "bytes option"
  sd_connection_information :: "connection_information option"
  sd_bandwidth_information :: "bandwidth_information list"
  sd_attributes :: "attribute list"
  sd_time :: "time_description list"
  sd_media :: "media_description list"

text \<open>The defaults; the local address of the host is an argument.\<close>

definition origin_default :: "ip_addr \<Rightarrow> origin" where
  "origin_default local =
     \<lparr>og_user = [], og_session_id = 0, og_session_version = 0, og_nettype = Nt_IN, og_addrtype = IP4,
      og_unicast_address = local\<rparr>"

definition session_description_default :: "ip_addr \<Rightarrow> session_description" where
  "session_description_default local =
     \<lparr>sd_origin = origin_default local, sd_session_name = [], sd_session_information = None,
      sd_uri = None, sd_email_address = None, sd_phone_number = None,
      sd_connection_information = None, sd_bandwidth_information = [], sd_attributes = [],
      sd_time = [], sd_media = []\<rparr>"

section \<open>Setters\<close>

text \<open>\<open>last_media_desc_mut\<close> and \<open>last_time_desc_mut\<close> with the update made through them; no last
  element is no update.\<close>

definition update_last :: "('a \<Rightarrow> 'a) \<Rightarrow> 'a list \<Rightarrow> 'a list option" where
  "update_last f xs = (if xs = [] then None else Some (butlast xs @ [f (last xs)]))"

definition set_origin :: "origin \<Rightarrow> session_description \<Rightarrow> session_description" where
  "set_origin x d = d\<lparr>sd_origin := x\<rparr>"

definition set_name :: "bytes \<Rightarrow> session_description \<Rightarrow> session_description" where
  "set_name x d = d\<lparr>sd_session_name := x\<rparr>"

definition set_information :: "bytes \<Rightarrow> session_description \<Rightarrow> session_description" where
  "set_information x d =
     (case update_last (\<lambda>m. m\<lparr>md_title := Some x\<rparr>) (sd_media d) of
        Some ms \<Rightarrow> d\<lparr>sd_media := ms\<rparr>
      | None \<Rightarrow> d\<lparr>sd_session_information := Some x\<rparr>)"

definition set_email_addr :: "bytes \<Rightarrow> session_description \<Rightarrow> session_description" where
  "set_email_addr x d = d\<lparr>sd_email_address := Some x\<rparr>"

definition set_uri :: "bytes \<Rightarrow> session_description \<Rightarrow> session_description" where
  "set_uri x d = d\<lparr>sd_uri := Some x\<rparr>"

definition set_phone :: "bytes \<Rightarrow> session_description \<Rightarrow> session_description" where
  "set_phone x d = d\<lparr>sd_phone_number := Some x\<rparr>"

definition set_attr :: "attribute \<Rightarrow> session_description \<Rightarrow> session_description" where
  "set_attr x d =
     (case update_last (\<lambda>m. m\<lparr>md_attributes := md_attributes m @ [x]\<rparr>) (sd_media d) of
        Some ms \<Rightarrow> d\<lparr>sd_media := ms\<rparr>
      | None \<Rightarrow> d\<lparr>sd_attributes := sd_attributes d @ [x]\<rparr>)"

definition set_bandwidth_information :: "bandwidth_information \<Rightarrow> session_description \<Rightarrow> session_description" where
  "set_bandwidth_information x d = d\<lparr>sd_bandwidth_information := sd_bandwidth_information d @ [x]\<rparr>"

definition set_media_description :: "media_description \<Rightarrow> session_description \<Rightarrow> session_description" where
  "set_media_description x d = d\<lparr>sd_media := sd_media d @ [x]\<rparr>"

definition set_time_desc :: "time_description \<Rightarrow> session_description \<Rightarrow> session_description" where
  "set_time_desc x d = d\<lparr>sd_time := sd_time d @ [x]\<rparr>"

definition set_repeat_times :: "repeat_times \<Rightarrow> session_description \<Rightarrow> (media_error, session_description) res" where
  "set_repeat_times x d =
     (case update_last (\<lambda>t. t\<lparr>td_repeat_times := td_repeat_times t @ [x]\<rparr>) (sd_time d) of
        Some ts \<Rightarrow> Ok (d\<lparr>sd_time := ts\<rparr>)
      | None \<Rightarrow> Err SdpTimeDescriptionNotFound)"

definition set_connection :: "connection_information \<Rightarrow> session_description \<Rightarrow> session_description" where
  "set_connection x d =
     (case update_last (\<lambda>m. m\<lparr>md_connection_information := Some x\<rparr>) (sd_media d) of
        Some ms \<Rightarrow> d\<lparr>sd_media := ms\<rparr>
      | None \<Rightarrow> d\<lparr>sd_connection_information := Some x\<rparr>)"

section \<open>Text form\<close>

definition eol :: bytes where
  "eol = [CHR 0x0D, CHR 0x0A]"

fun show_addr_type :: "addr_type \<Rightarrow> bytes" where
  "show_addr_type IP4 = ''IP4''"
| "show_addr_type IP6 = ''IP6''"

fun show_net_type :: "net_type \<Rightarrow> bytes" where
  "show_net_type Nt_IN = ''IN''"
| "show_net_type (Nt_Other s) = s"

fun show_bwtype :: "bwtype \<Rightarrow> bytes" where
  "show_bwtype Bw_CT = ''CT''"
| "show_bwtype Bw_AS = ''AS''"
| "show_bwtype Bw_RR = ''RR''"
| "show_bwtype Bw_RS = ''RS''"
| "show_bwtype Bw_TIAS = ''TIAS''"
| "show_bwtype (Bw_Other s) = s"

fun show_sdp_media_type :: "sdp_media_type \<Rightarrow> bytes" where
  "show_sdp_media_type M_Audio = ''audio''"
| "show_sdp_media_type M_Video = ''video''"
| "show_sdp_media_type M_Text = ''text''"
| "show_sdp_media_type M_Application = ''application''"
| "show_sdp_media_type M_Message = ''message''"

fun show_sdp_transport :: "sdp_transport \<Rightarrow> bytes" where
  "show_sdp_transport UDP = ''udp''"
| "show_sdp_transport RTPAVP = ''RTP/AVP''"
| "show_sdp_transport RTPAVPF = ''RTP/AVPF''"
| "show_sdp_transport RTPSAVP = ''RTP/SAVP''"
| "show_sdp_transport RTPSAVPF = ''RTP/SAVPF''"

fun show_direction :: "direction \<Rightarrow> bytes" where
  "show_direction SendRecv = ''sendrecv''"
| "show_direction SendOnly = ''sendonly''"
| "show_direction RecvOnly = ''recvonly''"
| "show_direction Inactive = ''inactive''"
| "show_direction Unspecified = ''Unspecified''"

definition show_connection :: "connection_information \<Rightarrow> bytes" where
  "show_connection c =
     ''c='' @ show_net_type (ci_nettype c) @ '' '' @ show_addr_type (ci_addrtype c) @ '' '' @
     show_ip (ci_conection_address c) @ eol"

definition show_bandwidth :: "bandwidth_information \<Rightarrow> bytes" where
  "show_bandwidth b = ''b='' @ show_bwtype (bi_bwtype b) @ '':'' @ show_word (bi_bandwidth b) @ eol"

definition show_attribute :: "attribute \<Rightarrow> bytes" where
  "show_attribute a =
     (case at_value a of
        Some v \<Rightarrow> ''a='' @ at_name a @ '':'' @ v @ eol
      | None \<Rightarrow> ''a='' @ at_name a @ eol)"

definition show_origin :: "origin \<Rightarrow> bytes" where
  "show_origin o' =
     ''o='' @ og_user o' @ '' '' @ show_word (og_session_id o') @ '' '' @ show_word (og_session_version o') @
     '' '' @ show_net_type (og_nettype o') @ '' '' @ show_addr_type (og_addrtype o') @ '' '' @
     show_ip (og_unicast_address o') @ eol"

definition show_optional_line :: "bytes \<Rightarrow> bytes option \<Rightarrow> bytes" where
  "show_optional_line k x = (case x of Some v \<Rightarrow> k @ v @ eol | None \<Rightarrow> [])"

definition show_repeat :: "repeat_times \<Rightarrow> bytes" where
  "show_repeat r =
     ''r='' @ show_int (rt_repeat_interval r) @ '' '' @ show_int (rt_active_duration r) @
     concat (map (\<lambda>x. '' '' @ show_int x) (rt_offsets r)) @ eol"

definition show_time :: "time_description \<Rightarrow> bytes" where
  "show_time t =
     ''t='' @ show_word (ta_start_time (td_time_active t)) @ '' '' @
     show_word (ta_stop_time (td_time_active t)) @ eol @
     concat (map show_repeat (td_repeat_times t))"

definition show_media :: "media_description \<Rightarrow> bytes" where
  "show_media m =
     ''m='' @ show_sdp_media_type (md_media_type m) @ '' '' @ show_word (md_port m) @
     (case md_number_of_ports m of Some n \<Rightarrow> ''/'' @ show_nat n | None \<Rightarrow> []) @
     '' '' @ show_sdp_transport (md_proto m) @
     concat (map (\<lambda>x. '' '' @ x) (md_media_formats m)) @ eol @
     show_optional_line ''t='' (md_title m) @
     (case md_connection_information m of Some c \<Rightarrow> show_connection c | None \<Rightarrow> []) @
     concat (map show_bandwidth (md_bandwidth_information m)) @
     concat (map show_attribute (md_attributes m))"

definition show_session :: "session_description \<Rightarrow> bytes" where
  "show_session d =
     ''v=0'' @ eol @ show_origin (sd_origin d) @ ''s='' @ sd_session_name d @ eol @
     show_optional_line ''i='' (sd_session_information d) @
     show_optional_line ''u='' (sd_uri d) @
     show_optional_line ''e='' (sd_email_address d) @
     show_optional_line ''p='' (sd_phone_number d) @
     (case sd_connection_information d of Some c \<Rightarrow> show_connection c | None \<Rightarrow> []) @
     concat (map show_bandwidth (sd_bandwidth_information d)) @
     concat (map show_time (sd_time d)) @
     concat (map show_attribute (sd_attributes d)) @
     concat (map show_media (sd_media d))"

text \<open>Writing to a string cannot fail.\<close>

definition encode_session :: "session_description \<Rightarrow> (error, bytes) res" where
  "encode_session d = Ok (show_session d)"

end
