(* ===== verification/Sdp_Parser.thy ===== *)
theory Sdp_Parser
  imports Sdp Parser_Core
begin

text \<open>
  The parser of session descriptions (\<open>rssip-media/src/sdp/parser.rs\<close>): one function per field, the
  loop over the lines, and the proofs that it always returns, reads within the buffer and never
  panics.
\<close>

type_synonym 'a sdp_parser = "(media_error, 'a) parse"

section \<open>Scanner operations\<close>

definition scanS :: "(scanner \<Rightarrow> 'a scan_result \<times> scanner) \<Rightarrow> 'a sdp_parser" where
  "scanS f = map_errP media_of_scanner f"

definition sdp_fail :: "sdp_error \<Rightarrow> 'a sdp_parser" where
  "sdp_fail k = failP (ParseSdpError k)"

definition SDP_TOKEN :: bytes where
  "SDP_TOKEN = ''!#$%&'' @ [CHR 0x27] @ ''*+-.^_'' @ [CHR 0x60] @ ''{|}~''"

definition sdp_is_token :: "byte \<Rightarrow> bool" where
  "sdp_is_token b = lookup_table [ALPHANUMERIC, SDP_TOKEN] ! byte_val b"

definition sdp_read_token :: "bytes sdp_parser" where
  "sdp_read_token = liftP (scan_while_as_str_unchecked sdp_is_token)"

definition sdp_read_line :: "bytes sdp_parser" where
  "sdp_read_line = scanS scan_line"

definition read_field :: "byte sdp_parser" where
  "read_field =
     bindP (scanS next_byte) (\<lambda>field.
     thenP (scanS (must_read (CHR ''=''))) (retP field))"

definition handle_new_line :: "unit sdp_parser" where
  "handle_new_line = liftP (\<lambda>s. ((), snd (scan_while is_newline s)))"

definition handle_ws :: "unit sdp_parser" where
  "handle_ws = liftP (\<lambda>s. ((), snd (scan_while is_space s)))"

definition at_line_end :: "scanner \<Rightarrow> bool" where
  "at_line_end s = (case peek s of Some b \<Rightarrow> is_newline b | None \<Rightarrow> True)"

text \<open>\<open>str::parse::<IpAddr>\<close> with the debug form of its error.\<close>

definition addr_error :: bytes where
  "addr_error = ''AddrParseError(Ip)''"

definition ipS :: "bytes \<Rightarrow> bytes \<Rightarrow> ip_addr sdp_parser" where
  "ipS prefix s = (case parse_ip s of Some a \<Rightarrow> retP a | None \<Rightarrow> sdp_fail (SdpSyntaxError (prefix @ addr_error)))"

section \<open>Fields\<close>

definition parse_version :: "unit sdp_parser" where
  "parse_version = map_errP (\<lambda>e. ParseSdpError SdpInvalidProtocolVersion) (must_read (CHR ''0''))"

definition net_type_of :: "bytes \<Rightarrow> net_type" where
  "net_type_of s = (if s = ''IN'' then Nt_IN else Nt_Other s)"

definition parse_origin :: "origin sdp_parser" where
  "parse_origin =
     bindP (scanS (scan_while_as_str (\<lambda>b. \<not> is_ascii_whitespace b))) (\<lambda>user.
     thenP handle_ws
     (bindP (scanS scan_u64) (\<lambda>session_id.
      thenP handle_ws
     (bindP (scanS scan_u64) (\<lambda>session_version.
      thenP handle_ws
     (bindP (scanS (scan_until_as_str (CHR '' ''))) (\<lambda>net.
      thenP handle_ws
     (bindP (scanS (scan_until_as_str (CHR '' ''))) (\<lambda>addr.
      bindP (if addr = ''IP4'' then retP IP4 else if addr = ''IP6'' then retP IP6
             else sdp_fail SdpUnknowAddrType) (\<lambda>addrtype.
      thenP handle_ws
     (bindP (scanS (scan_until_any_as_str [CHR '' '', CHR 0x09, CHR 0x0D, CHR 0x0A])) (\<lambda>a.
      bindP (ipS [] a) (\<lambda>unicast_address.
      thenP handle_ws
        (retP \<lparr>og_user = user, og_session_id = session_id, og_session_version = session_version,
               og_nettype = net_type_of net, og_addrtype = addrtype,
               og_unicast_address = unicast_address\<rparr>))))))))))))))"

definition parse_connection_info :: "connection_information sdp_parser" where
  "parse_connection_info =
     bindP (askP (matches_prefix ''IN'')) (\<lambda>internet.
     bindP (if internet then liftP (\<lambda>s. (Nt_IN, advance_n 2 s))
            else bindP (scanS (scan_while_as_str (\<lambda>b. \<not> is_space b))) (\<lambda>other. retP (Nt_Other other)))
       (\<lambda>nettype.
     thenP handle_ws
     (bindP (askP (peek_n 3)) (\<lambda>t.
      bindP (if t = Some ''IP4'' then retP IP4 else if t = Some ''IP6'' then retP IP6
             else sdp_fail (SdpSyntaxError ''Invalid Addr Type'')) (\<lambda>addrtype.
      thenP (liftP (\<lambda>s. ((), advance_n 3 s)))
     (thenP handle_ws
     (bindP sdp_read_line (\<lambda>line.
      bindP (ipS ''Invalid Connection Address: '' line) (\<lambda>a.
      thenP handle_ws
        (retP \<lparr>ci_nettype = nettype, ci_addrtype = addrtype, ci_conection_address = a\<rparr>))))))))))"

text \<open>Words after a space each, up to the end of the line or to a byte that is no space.\<close>

definition spaced_body :: "'a sdp_parser \<Rightarrow> 'a list \<Rightarrow> ('a list, 'a list) step sdp_parser" where
  "spaced_body p xs =
     bindP (liftP (scan_if is_space)) (\<lambda>sp.
       case sp of
         None \<Rightarrow> retP (Break xs)
       | Some b \<Rightarrow>
           bindP p (\<lambda>x.
           bindP (askP at_line_end) (\<lambda>done.
             retP (if done then Break (xs @ [x]) else Continue (xs @ [x])))))"

definition spaced :: "'a sdp_parser \<Rightarrow> 'a list sdp_parser" where
  "spaced p = loopP (spaced_body p) []"

definition media_type_of :: "bytes \<Rightarrow> sdp_media_type option" where
  "media_type_of s =
     (if s = ''audio'' then Some M_Audio else if s = ''video'' then Some M_Video
      else if s = ''text'' then Some M_Text else if s = ''message'' then Some M_Message else None)"

definition sdp_transport_of :: "bytes \<Rightarrow> sdp_transport option" where
  "sdp_transport_of s =
     (if s = ''UDP'' \<or> s = ''udp'' then Some UDP else if s = ''RTP/AVP'' then Some RTPAVP
      else if s = ''RTP/AVPF'' then Some RTPAVPF else if s = ''RTP/SAVP'' then Some RTPSAVP
      else if s = ''RTP/SAVPF'' then Some RTPSAVPF else None)"

definition parse_media_description :: "media_description sdp_parser" where
  "parse_media_description =
     bindP sdp_read_token (\<lambda>t.
     bindP (case media_type_of t of Some m \<Rightarrow> retP m | None \<Rightarrow> sdp_fail SdpUnknowMediaType) (\<lambda>media_type.
     thenP handle_ws
     (bindP (scanS scan_u16) (\<lambda>port.
      thenP handle_ws
     (bindP (liftP (scan_while (\<lambda>b. \<not> is_space b))) (\<lambda>bytes.
      bindP (case sdp_transport_of bytes of Some p \<Rightarrow> retP p | None \<Rightarrow> sdp_fail SdpUnknowTransport) (\<lambda>proto.
      bindP (spaced sdp_read_token) (\<lambda>media_formats.
        retP \<lparr>md_media_type = media_type, md_proto = proto, md_port = port, md_number_of_ports = None,
              md_media_formats = media_formats, md_title = None, md_connection_information = None,
              md_bandwidth_information = [], md_attributes = []\<rparr>))))))))"

definition parse_time :: "time_description sdp_parser" where
  "parse_time =
     bindP (scanS scan_u64) (\<lambda>start.
     thenP (scanS (must_read (CHR '' '')))
     (bindP (scanS scan_u64) (\<lambda>stop.
        retP \<lparr>td_time_active = \<lparr>ta_start_time = start, ta_stop_time = stop\<rparr>, td_repeat_times = []\<rparr>)))"

definition parse_repeat_times :: "repeat_times sdp_parser" where
  "parse_repeat_times =
     bindP (scanS scan_i64) (\<lambda>interval.
     thenP handle_ws
     (bindP (scanS scan_i64) (\<lambda>duration.
      bindP (spaced (scanS scan_i64)) (\<lambda>offsets.
        retP \<lparr>rt_repeat_interval = interval, rt_active_duration = duration, rt_offsets = offsets\<rparr>))))"

definition bwtype_of :: "bytes \<Rightarrow> bwtype" where
  "bwtype_of s =
     (if s = ''CT'' then Bw_CT else if s = ''AS'' then Bw_AS else if s = ''RR'' then Bw_RR
      else if s = ''RS'' then Bw_RS else if s = ''TIAS'' then Bw_TIAS else Bw_Other s)"

text \<open>The colon is left in place, so the number after it never parses.\<close>

definition parse_bandwidth :: "bandwidth_information sdp_parser" where
  "parse_bandwidth =
     bindP (scanS (scan_until_as_str (CHR '':''))) (\<lambda>t.
     bindP (scanS scan_u64) (\<lambda>bandwidth.
       retP \<lparr>bi_bwtype = bwtype_of t, bi_bandwidth = bandwidth\<rparr>))"

definition parse_attribute :: "attribute sdp_parser" where
  "parse_attribute =
     bindP sdp_read_token (\<lambda>name.
     bindP (liftP (scan_if_eq (CHR '':''))) (\<lambda>colon.
     bindP (case colon of Some b \<Rightarrow> bindP sdp_read_line (\<lambda>v. retP (Some v)) | None \<Rightarrow> retP None) (\<lambda>v.
       retP \<lparr>at_name = name, at_value = v\<rparr>)))"

definition parse_rtpmap :: "rtp_map sdp_parser" where
  "parse_rtpmap =
     bindP sdp_read_token (\<lambda>payload_type.
     thenP handle_ws
     (bindP sdp_read_token (\<lambda>encoding_name.
      thenP (scanS (must_read (CHR ''/'')))
     (bindP (scanS scan_u32) (\<lambda>clock_rate.
      bindP (liftP (scan_if_eq (CHR ''/''))) (\<lambda>slash.
      bindP (case slash of Some b \<Rightarrow> bindP sdp_read_token (\<lambda>p. retP (Some p)) | None \<Rightarrow> retP None) (\<lambda>param.
      thenP handle_new_line
        (retP \<lparr>rm_payload_type = payload_type, rm_enc_name = encoding_name,
               rm_clock_rate = clock_rate, rm_param = param\<rparr>))))))))"

section \<open>The description\<close>

definition sdp_field :: "byte \<Rightarrow> session_description \<Rightarrow> session_description sdp_parser" where
  "sdp_field f d =
     (if f = CHR ''a'' then bindP parse_attribute (\<lambda>x. retP (set_attr x d))
      else if f = CHR ''v'' then thenP parse_version (retP d)
      else if f = CHR ''o'' then bindP parse_origin (\<lambda>x. retP (set_origin x d))
      else if f = CHR ''s'' then bindP sdp_read_line (\<lambda>x. retP (set_name x d))
      else if f = CHR ''c'' then bindP parse_connection_info (\<lambda>x. retP (set_connection x d))
      else if f = CHR ''i'' then bindP sdp_read_line (\<lambda>x. retP (set_information x d))
      else if f = CHR ''u'' then bindP sdp_read_line (\<lambda>x. retP (set_uri x d))
      else if f = CHR ''e'' then bindP sdp_read_line (\<lambda>x. retP (set_email_addr x d))
      else if f = CHR ''p'' then bindP sdp_read_line (\<lambda>x. retP (set_phone x d))
      else if f = CHR ''b'' then bindP parse_bandwidth (\<lambda>x. retP (set_bandwidth_information x d))
      else if f = CHR ''t'' then bindP parse_time (\<lambda>x. retP (set_time_desc x d))
      else if f = CHR ''r'' then bindP parse_repeat_times (\<lambda>x. resP (set_repeat_times x d))
      else if f = CHR ''m'' then bindP parse_media_description (\<lambda>x. retP (set_media_description x d))
      else retP d)"

definition sdp_body :: "session_description \<Rightarrow> (session_description, session_description) step sdp_parser" where
  "sdp_body d =
     bindP (askP is_eof) (\<lambda>eof.
       if eof then retP (Break d)
       else
         bindP read_field (\<lambda>f.
         bindP (sdp_field f d) (\<lambda>d'.
         thenP handle_new_line (retP (Continue d')))))"

definition parse_sdp :: "ip_addr \<Rightarrow> session_description sdp_parser" where
  "parse_sdp local = loopP sdp_body (session_description_default local)"

definition sdp_parse :: "ip_addr \<Rightarrow> bytes \<Rightarrow> (media_error, session_description) res" where
  "sdp_parse local buf = fst (parse_sdp local (scanner_new buf))"

section \<open>Every input\<close>

lemma good_scanS: "(\<And>s. wf_scanner s \<Longrightarrow> forward s (snd (f s)) \<and> fst (f s) \<noteq> OutOfFuel) \<Longrightarrow> good (scanS f)"
  unfolding scanS_def by (rule good_map_errP) (simp add: good_def)

lemma calm_scanS: "(\<And>s. fst (f s) \<noteq> Panic) \<Longrightarrow> calm (scanS f)"
  unfolding scanS_def by (rule calm_map_errP) (simp add: calm_def)

lemma next_byte_moves: "wf_scanner s \<Longrightarrow> forward s (snd (next_byte s)) \<and> fst (next_byte s) \<noteq> OutOfFuel"
  by (auto simp: next_byte_def peek_scan intro: consumes_forward consumes_bump split: list.split)

lemma must_read_moves: "wf_scanner s \<Longrightarrow> forward s (snd (must_read b s)) \<and> fst (must_read b s) \<noteq> OutOfFuel"
  by (auto simp: must_read_def peek_remaining intro: consumes_forward consumes_bump split: list.split)

lemma scan_while_moves: "wf_scanner s \<Longrightarrow> forward s (snd (scan_while g s))"
  by (rule consumes_forward) (rule scan_while_spec)

lemma advance_n_moves: "wf_scanner s \<Longrightarrow> forward s (advance_n n s)"
proof (induction n s rule: advance_n.induct)
  case (2 n s)
  show ?case
  proof (cases "remaining s")
    case (Cons b bs)
    then have "consumes s [b] (bump b s)" using 2(2) by (rule consumes_bump [rotated])
    then have "forward s (bump b s)" "wf_scanner (bump b s)"
      using consumes_wf [OF 2(2)] by (auto intro: consumes_forward)
    with 2 Cons show ?thesis by (simp add: peek_scan forward_trans)
  qed (use 2 in \<open>simp add: peek_scan\<close>)
qed simp

lemma good_sdp_scans [good_intros]:
  "good (sdp_fail k)" "good sdp_read_token" "good sdp_read_line" "good handle_new_line" "good handle_ws"
  "good (scanS next_byte)" "good (scanS (must_read b))" "good (scanS (scan_while_as_str g))"
  "good (scanS scan_u16)" "good (scanS scan_u32)" "good (scanS scan_u64)" "good (scanS scan_i64)"
  "good (liftP (\<lambda>s. (x, advance_n n s)))" "good (liftP (scan_if g))" "good (liftP (scan_while g))"
proof -
  show "good sdp_read_line"
    unfolding sdp_read_line_def scan_line_def by (rule good_scanS) (rule good_scan_while_as_str)
qed (auto simp: sdp_fail_def sdp_read_token_def scan_while_as_str_unchecked_def
      handle_new_line_def handle_ws_def scan_u16_def scan_u32_def scan_u64_def scan_i64_def
    intro!: good_liftP good_failP good_scanS next_byte_moves must_read_moves good_scan_while_as_str
      scan_number_forward advance_n_moves scan_if_forward scan_while_moves)

lemma calm_sdp_scans [calm_intros]:
  "calm (sdp_fail k)" "calm sdp_read_token" "calm sdp_read_line" "calm handle_new_line" "calm handle_ws"
  "calm (scanS next_byte)" "calm (scanS (must_read b))" "calm (scanS (scan_while_as_str g))"
  "calm (scanS scan_u16)" "calm (scanS scan_u32)" "calm (scanS scan_u64)" "calm (scanS scan_i64)"
  unfolding sdp_fail_def sdp_read_token_def handle_new_line_def handle_ws_def sdp_read_line_def scan_line_def
    scan_u16_def scan_u32_def scan_u64_def scan_i64_def
  by (rule calm_basic calm_scanS calm_scan_while_as_str;
      auto simp: next_byte_def split_beta must_read_def calm_scan_number calm_scan_while_as_str split: option.split)+

lemma good_ipS [good_intros]: "good (ipS p s)" and calm_ipS [calm_intros]: "calm (ipS p s)"
  unfolding ipS_def by (intro good_intros, intro calm_intros)

lemma good_spaced_body: "good p \<Longrightarrow> good (spaced_body p xs)"
  unfolding spaced_body_def by (intro good_intros)

lemma eats_scan_if: "eats (\<lambda>r. r \<noteq> None) (liftP (scan_if g))"
  by (auto simp: eats_def liftP_def scan_if_spec remaining_bump split: list.splits if_splits prod.splits)

lemma eats_spaced_body: "good p \<Longrightarrow> eats (\<lambda>r. \<exists>st'. r = Continue st') (spaced_body p xs)"
  unfolding eats_def
proof (intro allI impI)
  fix s x s'
  assume p: "good p" and wf: "wf_scanner s" and run: "spaced_body p xs s = (Ok x, s')"
    and x: "\<exists>st'. x = Continue st'"
  obtain r s1 where r: "(liftP (scan_if is_space) :: byte option sdp_parser) s = (Ok r, s1)" by (cases "scan_if is_space s") (simp add: liftP_def)
  then obtain b where t: "(liftP (scan_if is_space) :: byte option sdp_parser) s = (Ok (Some b), s1)"
    and k: "bindP p (\<lambda>x. bindP (askP at_line_end) (\<lambda>done.
             retP (if done then Break (xs @ [x]) else Continue (xs @ [x])))) s1 = (Ok x, s')"
    using run x by (cases r) (auto simp: spaced_body_def bindP_def [of "liftP (scan_if is_space)"] retP_def)
  have "length (remaining s1) < length (remaining s)"
    using eats_scan_if [of is_space, unfolded eats_def] wf t by blast
  moreover have "good (bindP p (\<lambda>x. bindP (askP at_line_end) (\<lambda>done.
             retP (if done then Break (xs @ [x]) else Continue (xs @ [x])))))"
    using p by (intro good_intros)
  then have "forward s1 s'"
    by (rule good_forward) (use good_wf [OF good_sdp_scans(14) wf t] k in auto)
  ultimately show "length (remaining s') < length (remaining s)"
    using forward_remaining by fastforce
qed

lemma good_spaced [good_intros]: "good p \<Longrightarrow> good (spaced p)"
  unfolding spaced_def by (intro good_loopP good_spaced_body eats_spaced_body)

lemma calm_spaced [calm_intros]: "calm p \<Longrightarrow> calm (spaced p)"
  unfolding spaced_def spaced_body_def by (intro calm_intros)

lemma good_fields [good_intros]:
  "good parse_version" "good parse_origin" "good parse_connection_info" "good parse_media_description"
  "good parse_time" "good parse_repeat_times" "good parse_bandwidth" "good parse_attribute" "good parse_rtpmap"
proof -
  show "good parse_version"
    unfolding parse_version_def by (rule good_map_errP) (simp add: good_def must_read_moves)
qed (unfold parse_origin_def parse_connection_info_def parse_media_description_def parse_time_def
      parse_repeat_times_def parse_bandwidth_def parse_attribute_def parse_rtpmap_def
      scan_until_as_str_def scan_until_any_as_str_def scan_if_eq_def, (intro good_intros)+)

lemma calm_fields [calm_intros]:
  "calm parse_version" "calm parse_origin" "calm parse_connection_info" "calm parse_media_description"
  "calm parse_time" "calm parse_repeat_times" "calm parse_bandwidth" "calm parse_attribute" "calm parse_rtpmap"
proof -
  show "calm parse_version"
    unfolding parse_version_def
    by (rule calm_map_errP) (auto simp: calm_def must_read_def split: option.split)
qed (unfold parse_origin_def parse_connection_info_def parse_media_description_def parse_time_def
      parse_repeat_times_def parse_bandwidth_def parse_attribute_def parse_rtpmap_def
      scan_until_as_str_def scan_until_any_as_str_def scan_if_eq_def, (intro calm_intros)+)

lemma set_repeat_times_neq [simp]: "set_repeat_times x d \<noteq> OutOfFuel" "set_repeat_times x d \<noteq> Panic"
  by (simp_all add: set_repeat_times_def split: option.split)

lemma good_sdp_field [good_intros]: "good (sdp_field f d)"
  unfolding sdp_field_def by (intro good_intros set_repeat_times_neq)

lemma calm_sdp_field [calm_intros]: "calm (sdp_field f d)"
  unfolding sdp_field_def by (intro calm_intros set_repeat_times_neq)

lemma good_read_field [good_intros]: "good read_field" and calm_read_field [calm_intros]: "calm read_field"
  unfolding read_field_def by (intro good_intros, intro calm_intros)

lemma eats_read_field: "eats (\<lambda>_. True) read_field"
proof -
  have "eats (\<lambda>_. True) (scanS next_byte)"
    by (auto simp: eats_def scanS_def map_errP_def next_byte_def peek_scan remaining_bump
        split: list.splits prod.splits)
  then show ?thesis
    unfolding read_field_def by (rule eats_bind_first) (intro good_intros)+
qed

lemma good_parse_sdp: "good (parse_sdp local)" and calm_parse_sdp: "calm (parse_sdp local)"
proof -
  have "good (sdp_body d)" for d unfolding sdp_body_def by (intro good_intros)
  moreover have "eats (\<lambda>r. \<exists>st'. r = Continue st') (sdp_body d)" for d
    unfolding sdp_body_def
  proof (rule eats_bind_second)
    fix eof
    show "eats (\<lambda>r. \<exists>st'. r = Continue st') (if eof then retP (Break d) else
        bindP read_field (\<lambda>f. bindP (sdp_field f d) (\<lambda>d'. thenP handle_new_line (retP (Continue d')))))"
      by (cases eof) (auto intro!: eats_retP_never eats_bind_first eats_read_field good_intros)
  qed (rule good_askP)
  ultimately show "good (parse_sdp local)"
    unfolding parse_sdp_def by (rule good_loopP)
  show "calm (parse_sdp local)"
    unfolding parse_sdp_def sdp_body_def by (intro calm_intros)
qed

text \<open>C40: Parsing a session description always returns: on every input the result is a description or
  one of the crate's errors, never a panic, and no loop (over the lines, the formats of a media
  line or the offsets of a repeat line) runs on.\<close>

theorem sdp_parse_total: "(\<exists>d. sdp_parse local buf = Ok d) \<or> (\<exists>e. sdp_parse local buf = Err e)"
  using goodD [OF good_parse_sdp wf_scanner_new, of buf local] calm_parse_sdp [of local]
  by (cases "sdp_parse local buf") (auto simp: sdp_parse_def calm_def)

text \<open>No description with a bandwidth line is ever accepted: the parser of the line stops at the
  colon and asks for a number there.\<close>

theorem bandwidth_never_parses:
  assumes "wf_scanner s" shows "\<exists>e. fst (parse_bandwidth s) = Err e"
proof (cases "scanS (scan_until_as_str (CHR '':'')) s")
  case (Pair r s1)
  let ?p = "\<lambda>b. b \<noteq> CHR '':''"
  have s1: "s1 = snd (scan_while ?p s)"
    using Pair by (auto simp: scanS_def map_errP_def scan_until_as_str_def scan_while_as_str_def
        split: prod.splits)
  have c: "consumes s (takeWhile ?p (remaining s)) s1"
    unfolding s1 by (rule scan_while_spec(2) [OF assms])
  then have "remaining s1 = dropWhile ?p (remaining s)"
    by (simp add: consumes_remaining drop_length_takeWhile)
  then have "takeWhile (\<lambda>b. is_ascii_digit b \<or> (False \<and> b = CHR ''.'')) (remaining s1) = []"
    using hd_dropWhile [of ?p "remaining s"]
    by (cases "dropWhile ?p (remaining s)")
      (auto simp: is_ascii_digit_def byte_val_def dest!: arg_cong [of "dropWhile _ _" _ set])
  then have "fst (scan_u64 s1) = Err (scan_error InvalidNumber (snd (scan_number_str False s1)))"
    using scan_while_spec(1) [OF consumes_wf [OF assms c]]
    by (simp add: scan_u64_def scan_number_def scan_number_str_def split_beta parse_u64_def parse_uint_def)
  then show ?thesis
    using Pair calm_sdp_scans(8) [of ?p] goodD [OF good_sdp_scans(8) assms, of ?p]
    by (cases r) (auto simp: parse_bandwidth_def bindP_def scanS_def [of scan_u64] map_errP_def split_beta
        calm_def scan_until_as_str_def dest!: spec [of _ s])
qed

theorem bandwidth_never_parses_witness:
  "wf_scanner (scanner_new ''AS:128'') \<and> (\<exists>e. fst (parse_bandwidth (scanner_new ''AS:128'')) = Err e)"
  using bandwidth_never_parses [OF wf_scanner_new, of "''AS:128''"] by (simp add: wf_scanner_new)

end
