(* ===== verification/Parses.thy ===== *)
theory Parses
  imports Parse_Monad
begin

text \<open>What each scanner operation reads, stated with \<open>parses\<close>: the rules the round trips of the two
  parsers are composed of. A scanner operation that can fail is itself a parser (its error is the
  scanner's).\<close>

lemma parses_liftP:
  "(\<And>s. wf_scanner s \<Longrightarrow> remaining s = inp \<Longrightarrow> \<exists>s'. f s = (x, s') \<and> wf_scanner s' \<and> remaining s' = rest) \<Longrightarrow>
     parses (liftP f) inp x rest"
  by (fastforce simp: parses_def liftP_def)

lemma parses_askP:
  "(\<And>s. wf_scanner s \<Longrightarrow> remaining s = inp \<Longrightarrow> f s = x) \<Longrightarrow> parses (askP f) inp x inp"
  by (simp add: parses_def askP_def)

lemma parses_ret: "x = y \<Longrightarrow> parses (retP x) inp y inp"
  by (simp add: parses_retP)

text \<open>A text that is a line of its own, and a predicate on what an optional field holds.\<close>

definition line_text :: "bytes \<Rightarrow> bool" where
  "line_text s \<longleftrightarrow> valid_utf8 s \<and> (\<forall>b\<in>set s. \<not> is_newline b)"

definition opt_all :: "('a \<Rightarrow> bool) \<Rightarrow> 'a option \<Rightarrow> bool" where
  "opt_all p x = (case x of Some v \<Rightarrow> p v | None \<Rightarrow> True)"

text \<open>Where a run of bytes of a class ends.\<close>

definition stops :: "(byte \<Rightarrow> bool) \<Rightarrow> bytes \<Rightarrow> bool" where
  "stops p rest \<longleftrightarrow> rest = [] \<or> \<not> p (hd rest)"

lemma stops_simps [simp]: "stops p []" "stops p (b # bs) \<longleftrightarrow> \<not> p b"
  by (simp_all add: stops_def)

lemma stops_append: "stops p (xs @ ys) \<longleftrightarrow> (if xs = [] then stops p ys else \<not> p (hd xs))"
  by (simp add: stops_def)

lemma scan_while_reads:
  assumes "wf_scanner s" and "remaining s = xs @ rest" and "\<forall>b\<in>set xs. p b" and "stops p rest"
  shows "\<exists>s'. scan_while p s = (xs, s') \<and> wf_scanner s' \<and> remaining s' = rest"
proof -
  have xs: "takeWhile p (remaining s) = xs"
    using takeWhile_append_stop [of xs p rest] assms(2-4) by (simp add: stops_def)
  note c = scan_while_spec [OF assms(1), of p, unfolded xs]
  show ?thesis
    using c consumes_wf [OF assms(1) c(2)] consumes_remaining [OF c(2)] assms(2)
    by (cases "scan_while p s") auto
qed

lemma parses_scan_while:
  "\<forall>b\<in>set xs. p b \<Longrightarrow> stops p rest \<Longrightarrow> parses (liftP (scan_while p)) (xs @ rest) xs rest"
  by (rule parses_liftP) (rule scan_while_reads)

lemma parses_skip:
  "\<forall>b\<in>set xs. p b \<Longrightarrow> stops p rest \<Longrightarrow> parses (liftP (\<lambda>s. ((), snd (scan_while p s)))) (xs @ rest) () rest"
  by (rule parses_liftP, drule scan_while_reads, assumption+) auto

lemma parses_as_str:
  assumes "\<forall>b\<in>set xs. p b" and "stops p rest" and "valid_utf8 xs"
  shows "parses (scan_while_as_str p) (xs @ rest) xs rest"
proof (rule parsesI)
  fix s assume "wf_scanner s" and "remaining s = xs @ rest"
  from scan_while_reads [OF this assms(1,2)] from_utf8_Ok_iff [of xs xs] assms(3)
  show "\<exists>s'. scan_while_as_str p s = (Ok xs, s') \<and> wf_scanner s' \<and> remaining s' = rest"
    by (auto simp: scan_while_as_str_def)
qed

lemma parses_next_byte: "parses next_byte (b # rest) b rest"
  by (rule parsesI) (auto simp: next_byte_def peek_scan intro: wf_scanner_bump remaining_bump)

lemma parses_must_read: "parses (must_read b) (b # rest) () rest"
  by (rule parsesI) (auto simp: must_read_def peek_remaining intro: wf_scanner_bump remaining_bump)

lemma parses_scan_if: "p b \<Longrightarrow> parses (liftP (scan_if p)) (b # rest) (Some b) rest"
  by (rule parses_liftP) (auto simp: scan_if_spec intro: wf_scanner_bump remaining_bump)

lemma parses_scan_if_not: "stops p inp \<Longrightarrow> parses (liftP (scan_if p)) inp None inp"
  by (rule parses_liftP) (auto simp: scan_if_spec split: list.split)

lemma advance_reads:
  "wf_scanner s \<Longrightarrow> remaining s = xs @ rest \<Longrightarrow>
     wf_scanner (advance_n (length xs) s) \<and> remaining (advance_n (length xs) s) = rest"
proof (induction xs arbitrary: s)
  case (Cons b xs)
  then have "wf_scanner (bump b s)" "remaining (bump b s) = xs @ rest"
    by (auto intro: wf_scanner_bump remaining_bump)
  with Cons show ?case by (simp add: peek_scan)
qed simp

lemma parses_advance:
  "length xs = n \<Longrightarrow> parses (liftP (\<lambda>s. (x, advance_n n s))) (xs @ rest) x rest"
  by (rule parses_liftP) (auto dest: advance_reads)

lemma parses_number:
  assumes "\<forall>b\<in>set ds. is_ascii_digit b" and "stops is_ascii_digit rest" and "f ds = Ok x"
  shows "parses (scan_number f) (ds @ rest) x rest"
proof (rule parsesI)
  fix s assume "wf_scanner s" and "remaining s = ds @ rest"
  from scan_while_reads [OF this assms(1,2)] assms(3)
  show "\<exists>s'. scan_number f s = (Ok x, s') \<and> wf_scanner s' \<and> remaining s' = rest"
    by (auto simp: scan_number_def scan_number_str_def)
qed

lemma parses_uints:
  assumes "stops is_ascii_digit rest"
  shows "parses scan_u16 (show_word w16 @ rest) w16 rest"
    and "parses scan_u32 (show_word w32 @ rest) w32 rest"
    and "parses scan_u64 (show_word w64 @ rest) w64 rest"
  using assms show_nat_digits
  by (auto simp: scan_u16_def scan_u32_def scan_u64_def intro!: parses_number)

lemma parse_i64_show: "0 \<le> i \<Longrightarrow> i < 2 ^ 63 \<Longrightarrow> parse_i64 (show_int i) = Ok i"
proof -
  assume i: "0 \<le> i" "i < 2 ^ 63"
  then have "parse_digits (2 ^ 63 - 1) 0 (show_nat (nat i)) = Ok (nat i)"
    by (intro parse_digits_show_nat) simp
  moreover have "b \<noteq> CHR ''+'' \<and> b \<noteq> CHR ''-''" if "b \<in> set (show_nat (nat i))" for b
    using show_nat_digits [of "nat i"] that by (auto simp: is_ascii_digit_def byte_val_def)
  ultimately show ?thesis
    using i by (cases "show_nat (nat i)"; cases "tl (show_nat (nat i))")
      (auto simp: parse_i64_def show_int_def simp del: parse_digits.simps)
qed

lemma parses_i64:
  assumes "stops is_ascii_digit rest" and "0 \<le> i" and "i < 2 ^ 63"
  shows "parses scan_i64 (show_int i @ rest) i rest"
  unfolding scan_i64_def
  using assms show_nat_digits parse_i64_show by (intro parses_number) (auto simp: show_int_def)

lemma parses_peek: "parses (askP (\<lambda>s. f (peek s))) inp (f (case inp of [] \<Rightarrow> None | b # _ \<Rightarrow> Some b)) inp"
  by (rule parses_askP) (simp add: peek_remaining)

lemma parses_eof: "parses (askP is_eof) inp (inp = []) inp"
  by (rule parses_askP) (simp add: is_eof_iff)

lemma parses_prefix: "parses (askP (matches_prefix p)) inp (starts_with p inp) inp"
  by (rule parses_askP) (simp add: matches_prefix_def)

lemma parses_peek_n: "parses (askP (peek_n n)) inp (if n \<le> length inp then Some (take n inp) else None) inp"
  by (rule parses_askP) (simp add: peek_n_def)

end
