(* ===== verification/Ip_Laws.thy ===== *)
theory Ip_Laws
  imports Rust_Std
begin

text \<open>The text of an IP address reads back as the address, in all three forms of an IPv6 address
  (full, compressed, and with an embedded IPv4 address).\<close>

section \<open>Numbers\<close>

lemma to_digit_digit_char: "d < 10 \<Longrightarrow> 10 \<le> r \<Longrightarrow> to_digit r (digit_char d) = Some d"
  by (simp add: to_digit_def digit_char_def is_ascii_digit_def byte_val_def)

lemma to_digit_hex_char: "d < 16 \<Longrightarrow> to_digit 16 (hex_char d) = Some d"
  by (auto simp: to_digit_def hex_char_def is_ascii_digit_def is_ascii_lowercase_def is_ascii_uppercase_def
      byte_val_def)

text \<open>Where a number ends.\<close>

definition ends_number :: "nat \<Rightarrow> bytes \<Rightarrow> bool" where
  "ends_number radix rest \<longleftrightarrow> rest = [] \<or> to_digit radix (hd rest) = None"

lemma read_num_loop_end: "ends_number radix rest \<Longrightarrow> read_num_loop radix mx maxd acc cnt rest = Some (acc, cnt, rest)"
  by (cases rest) (auto simp: ends_number_def)

fun numeral_of :: "nat \<Rightarrow> nat list \<Rightarrow> nat \<Rightarrow> nat" where
  "numeral_of radix [] acc = acc"
| "numeral_of radix (d # ds) acc = numeral_of radix ds (acc * radix + d)"

lemma numeral_of_mono: "0 < radix \<Longrightarrow> acc \<le> numeral_of radix ds acc"
proof (induction ds arbitrary: acc)
  case (Cons d ds)
  have "acc \<le> acc * radix + d" using Cons.prems by (simp add: trans_le_add1)
  also have "\<dots> \<le> numeral_of radix ds (acc * radix + d)" using Cons by blast
  finally show ?case by simp
qed simp

lemma read_num_loop_digits:
  assumes "\<forall>d\<in>set ds. to_digit radix (c d) = Some d" and "0 < radix"
    and "ends_number radix rest" and "numeral_of radix ds acc \<le> mx" and "cnt + length ds \<le> maxd"
  shows "read_num_loop radix mx maxd acc cnt (map c ds @ rest) =
    Some (numeral_of radix ds acc, cnt + length ds, rest)"
  using assms
proof (induction ds arbitrary: acc cnt)
  case (Cons d ds)
  have "acc * radix + d \<le> numeral_of radix ds (acc * radix + d)"
    using Cons.prems(2) by (rule numeral_of_mono)
  also have "\<dots> \<le> mx" using Cons.prems(4) by simp
  finally show ?case using Cons by simp
qed (simp add: read_num_loop_end)

lemma show_nat_small:
  "n < 1000 \<Longrightarrow> \<exists>ds. show_nat n = map digit_char ds \<and> (\<forall>d\<in>set ds. d < 10) \<and> length ds \<le> 3 \<and> ds \<noteq> [] \<and>
     numeral_of 10 ds 0 = n \<and> (hd ds = 0 \<longrightarrow> length ds = 1)"
proof -
  assume "n < 1000"
  then consider "n < 10" | "10 \<le> n" "n < 100" | "100 \<le> n" "n < 1000" by linarith
  then show ?thesis
  proof cases
    case 1
    then show ?thesis by (intro exI [of _ "[n]"]) (simp add: show_nat.simps)
  next
    case 2
    then show ?thesis
      by (intro exI [of _ "[n div 10, n mod 10]"]) (auto simp: show_nat.simps [of n] show_nat.simps [of "n div 10"])
  next
    case 3
    have "n div 10 div 10 * 100 + n div 10 mod 10 * 10 + n mod 10 = n"
      using div_mult_mod_eq [of n 10] div_mult_mod_eq [of "n div 10" 10] by linarith
    with 3 show ?thesis
      by (intro exI [of _ "[n div 10 div 10, n div 10 mod 10, n mod 10]"])
        (auto simp: show_nat.simps [of n] show_nat.simps [of "n div 10"] show_nat.simps [of "n div 10 div 10"])
  qed
qed

lemma digit_char_zero: "digit_char d = CHR ''0'' \<Longrightarrow> d < 10 \<Longrightarrow> d = 0"
  by (auto simp: digit_char_def dest: arg_cong [of _ _ byte_val] simp: byte_val_def)

lemma read_octet_show:
  assumes "n \<le> 255" and "ends_number 10 rest" shows "read_octet (show_nat n @ rest) = Some (n, rest)"
proof -
  obtain ds where ds: "show_nat n = map digit_char ds" "\<forall>d\<in>set ds. d < 10" "length ds \<le> 3" "ds \<noteq> []"
    "numeral_of 10 ds 0 = n" "hd ds = 0 \<longrightarrow> length ds = 1"
    using show_nat_small [of n] assms(1) by auto
  have "read_num_loop 10 255 3 0 0 (map digit_char ds @ rest) = Some (n, length ds, rest)"
    using read_num_loop_digits [of ds 10 digit_char rest 0 255 0 3] ds assms by (simp add: to_digit_digit_char)
  moreover have "hd (map digit_char ds @ rest) = CHR ''0'' \<Longrightarrow> length ds = 1"
    using ds(2,4,6) by (cases ds) (auto dest: digit_char_zero)
  ultimately show ?thesis
    using ds(4) by (auto simp: read_octet_def read_number_def Let_def ds(1))
qed

lemma ends_number_dot [simp]: "ends_number 10 (CHR ''.'' # bs)"
  and ends_number_Nil [simp]: "ends_number r []"
  and ends_number_colon [simp]: "ends_number 16 (CHR '':'' # bs)"
  by (simp_all add: ends_number_def to_digit_def is_ascii_digit_def is_ascii_lowercase_def
      is_ascii_uppercase_def byte_val_def)

lemma read_dot_octet_show:
  "n \<le> 255 \<Longrightarrow> ends_number 10 rest \<Longrightarrow> read_dot_octet (CHR ''.'' # show_nat n @ rest) = Some (n, rest)"
  by (simp add: read_dot_octet_def read_given_char_def read_octet_show)

lemma read_ipv4_show:
  "a \<le> 255 \<Longrightarrow> b \<le> 255 \<Longrightarrow> c \<le> 255 \<Longrightarrow> d \<le> 255 \<Longrightarrow> ends_number 10 rest \<Longrightarrow>
     read_ipv4 (show_ipv4 a b c d @ rest) = Some ((a, b, c, d), rest)"
  by (simp add: read_ipv4_def show_ipv4_def read_octet_show read_dot_octet_show)

lemma parse_show_ipv4: "parse_ip (show_ip (IpV4 a b c d)) = Some (IpV4 a b c d)"
proof -
  have le: "unat (w :: u8) \<le> 255" for w using unsigned_less [of w, where 'a = nat] by simp
  show ?thesis
    using read_ipv4_show [of "unat a" "unat b" "unat c" "unat d" "[]"]
    by (simp add: parse_ip_def le)
qed

section \<open>Groups\<close>

lemma show_hex_small:
  "n < 65536 \<Longrightarrow> \<exists>ds. show_hex n = map hex_char ds \<and> (\<forall>d\<in>set ds. d < 16) \<and> length ds \<le> 4 \<and> ds \<noteq> [] \<and>
     numeral_of 16 ds 0 = n"
proof -
  assume "n < 65536"
  then consider "n < 16" | "16 \<le> n" "n < 256" | "256 \<le> n" "n < 4096" | "4096 \<le> n" "n < 65536" by linarith
  then show ?thesis
  proof cases
    case 1
    then show ?thesis by (intro exI [of _ "[n]"]) (simp add: show_hex.simps)
  next
    case 2
    then show ?thesis
      by (intro exI [of _ "[n div 16, n mod 16]"]) (auto simp: show_hex.simps [of n] show_hex.simps [of "n div 16"])
  next
    case 3
    have "n div 16 div 16 * 256 + n div 16 mod 16 * 16 + n mod 16 = n"
      using div_mult_mod_eq [of n 16] div_mult_mod_eq [of "n div 16" 16] by linarith
    with 3 show ?thesis
      by (intro exI [of _ "[n div 16 div 16, n div 16 mod 16, n mod 16]"])
        (auto simp: show_hex.simps [of n] show_hex.simps [of "n div 16"] show_hex.simps [of "n div 16 div 16"])
  next
    case 4
    let ?a = "n div 16" let ?b = "?a div 16" let ?c = "?b div 16"
    have "?c * 4096 + ?b mod 16 * 256 + ?a mod 16 * 16 + n mod 16 = n"
      using div_mult_mod_eq [of n 16] div_mult_mod_eq [of ?a 16] div_mult_mod_eq [of ?b 16] by linarith
    with 4 show ?thesis
      by (intro exI [of _ "[?c, ?b mod 16, ?a mod 16, n mod 16]"])
        (auto simp: show_hex.simps [of n] show_hex.simps [of ?a] show_hex.simps [of ?b] show_hex.simps [of ?c])
  qed
qed

lemma read_hex_show:
  assumes "n < 65536" and "ends_number 16 rest"
  shows "read_number 16 65535 4 True (show_hex n @ rest) = Some (n, rest)"
proof -
  obtain ds where ds: "show_hex n = map hex_char ds" "\<forall>d\<in>set ds. d < 16" "length ds \<le> 4" "ds \<noteq> []"
    "numeral_of 16 ds 0 = n"
    using show_hex_small [OF assms(1)] by blast
  have "read_num_loop 16 65535 4 0 0 (map hex_char ds @ rest) = Some (n, length ds, rest)"
    using read_num_loop_digits [of ds 16 hex_char rest 0 65535 0 4] ds assms by (simp add: to_digit_hex_char)
  then show ?thesis
    using ds(4) by (simp add: read_number_def Let_def ds(1))
qed

lemma read_num_loop_suffix:
  "read_num_loop radix mx maxd acc cnt bs = Some (v, n, rest) \<Longrightarrow> set rest \<subseteq> set bs"
  by (induction radix mx maxd acc cnt bs rule: read_num_loop.induct) (auto split: option.splits if_splits)

lemma read_ipv4_dot: "read_ipv4 bs \<noteq> None \<Longrightarrow> CHR ''.'' \<in> set bs"
  by (auto simp: read_ipv4_def read_octet_def read_number_def read_dot_octet_def read_given_char_def Let_def
      split: option.splits if_splits list.splits bind_splits dest!: read_num_loop_suffix)

lemma read_ipv4_none: "CHR ''.'' \<notin> set bs \<Longrightarrow> read_ipv4 bs = None"
  using read_ipv4_dot by blast

lemma hex_char_neq: "d < 16 \<Longrightarrow> hex_char d \<noteq> CHR ''.''" "d < 16 \<Longrightarrow> hex_char d \<noteq> CHR '':''"
  by (auto simp: hex_char_def dest: arg_cong [of _ _ byte_val] simp: byte_val_def)

lemma show_hex_bytes: "n < 65536 \<Longrightarrow> CHR ''.'' \<notin> set (show_hex n) \<and> CHR '':'' \<notin> set (show_hex n) \<and> show_hex n \<noteq> []"
  using show_hex_small [of n] hex_char_neq by fastforce

lemma show_segments_Cons:
  "show_segments (g # gs) = show_hex g @ (if gs = [] then [] else CHR '':'' # show_segments gs)"
  by (cases gs) (simp_all add: show_segments_def)

lemma show_segments_bytes: "\<forall>g\<in>set gs. g < 65536 \<Longrightarrow> CHR ''.'' \<notin> set (show_segments gs)"
  by (induction gs) (auto simp: show_segments_Cons show_hex_bytes, simp add: show_segments_def)

text \<open>Where a sequence of groups ends: at the end of the text, or before a double colon.\<close>

definition ends_groups :: "bytes \<Rightarrow> bool" where
  "ends_groups rest \<longleftrightarrow> (rest = [] \<or> (\<exists>r. rest = CHR '':'' # CHR '':'' # r)) \<and> CHR ''.'' \<notin> set rest"

lemma ends_groups_number: "ends_groups rest \<Longrightarrow> ends_number 16 rest"
  by (auto simp: ends_groups_def)

lemma read_number_colon: "read_number 16 65535 4 True (CHR '':'' # r) = None"
  using read_num_loop_end [of 16 "CHR '':'' # r" 65535 4 0 0] by (simp add: read_number_def Let_def)

lemma read_number_empty: "read_number 16 65535 4 True [] = None"
  by (simp add: read_number_def)

lemma read_ipv4_Cons: "CHR ''.'' \<notin> set bs \<Longrightarrow> read_separator first read_ipv4 bs = None"
  by (cases bs) (auto simp: read_separator_def read_given_char_def read_ipv4_none bind_eq_None_conv)

lemma read_groups_stop: "ends_groups rest \<Longrightarrow> read_groups False n rest = ([], False, rest)"
  by (cases n)
    (auto simp: ends_groups_def read_ipv4_Cons read_separator_def read_given_char_def read_number_colon read_ipv4_none)

lemma read_groups_segments:
  assumes "\<forall>g\<in>set gs. g < 65536" and "length gs \<le> n" and "ends_groups rest"
  shows "read_groups False n ((if gs = [] then [] else CHR '':'' # show_segments gs) @ rest) = (gs, False, rest)"
  using assms
proof (induction gs arbitrary: n)
  case Nil
  then show ?case by (simp add: read_groups_stop)
next
  case (Cons g gs)
  then obtain k where n: "n = Suc k" and "length gs \<le> k" by (cases n) auto
  let ?more = "(if gs = [] then [] else CHR '':'' # show_segments gs) @ rest"
  have more: "read_groups False k ?more = (gs, False, rest)" using Cons \<open>length gs \<le> k\<close> by simp
  have "ends_number 16 ?more" using Cons.prems(3) by (simp add: ends_groups_number)
  moreover have "CHR ''.'' \<notin> set (CHR '':'' # show_hex g @ ?more)"
    using Cons.prems show_hex_bytes show_segments_bytes [of gs] by (auto simp: ends_groups_def)
  ultimately show ?case
    using more Cons.prems(1) read_ipv4_Cons [of "CHR '':'' # show_hex g @ ?more" False]
    by (simp add: n show_segments_Cons read_separator_def read_given_char_def read_hex_show)
qed

lemma read_groups_first:
  assumes "\<forall>g\<in>set gs. g < 65536" and "length gs \<le> n" and "ends_groups rest"
  shows "read_groups True n (show_segments gs @ rest) = (gs, False, rest)"
proof (cases gs)
  case Nil
  then show ?thesis
    using assms(3) read_number_empty by (cases n)
      (auto simp: show_segments_def ends_groups_def read_separator_def read_number_colon read_ipv4_none)
next
  case (Cons g hs)
  with assms(2) obtain k where n: "n = Suc k" and "length hs \<le> k" by (cases n) auto
  let ?more = "(if hs = [] then [] else CHR '':'' # show_segments hs) @ rest"
  have more: "read_groups False k ?more = (hs, False, rest)"
    using assms Cons \<open>length hs \<le> k\<close> by (intro read_groups_segments) auto
  have "ends_number 16 ?more" using assms(3) by (simp add: ends_groups_number)
  moreover have "CHR ''.'' \<notin> set (show_hex g @ ?more)"
    using assms Cons show_hex_bytes show_segments_bytes [of hs] by (auto simp: ends_groups_def)
  ultimately show ?thesis
    using more assms(1) Cons read_ipv4_none
    by (simp add: n show_segments_Cons read_separator_def read_hex_show)
qed

section \<open>Compression\<close>

text \<open>While the scan for the longest run of zeros has read the prefix \<open>pre\<close>, both runs it keeps are
  runs of \<open>pre\<close>, the current one at its end.\<close>

definition zero_run :: "nat list \<Rightarrow> nat \<times> nat \<Rightarrow> bool" where
  "zero_run gs z \<longleftrightarrow> fst z + snd z \<le> length gs \<and> take (snd z) (drop (fst z) gs) = replicate (snd z) 0"

lemma zero_run_snoc: "zero_run gs z \<Longrightarrow> zero_run (gs @ [g]) z"
  by (auto simp: zero_run_def)

lemma zero_run_extend:
  assumes "zero_run gs (s, l)" and "s + l = length gs"
  shows "zero_run (gs @ [0]) (s, l + 1)"
  using assms by (auto simp: zero_run_def replicate_append_same [symmetric])

lemma zero_span_run:
  assumes "zero_run pre longest" and "zero_run pre current" and "i = length pre"
    and "snd current = 0 \<or> fst current + snd current = length pre"
  shows "zero_run (pre @ gs) (zero_span i current longest gs)"
  using assms
proof (induction gs arbitrary: pre i current longest)
  case (Cons g gs)
  show ?case
  proof (cases "g = 0")
    case True
    define c where "c = (if snd current = 0 then i else fst current, snd current + 1)"
    have "zero_run (pre @ [0]) c"
      using Cons.prems zero_run_extend [of pre "fst current" "snd current"]
      by (auto simp: c_def zero_run_def)
    moreover have "fst c + snd c = length (pre @ [0])" using Cons.prems by (auto simp: c_def)
    ultimately have "zero_run ((pre @ [0]) @ gs) (zero_span (i + 1) c (if snd longest < snd c then c else longest) gs)"
      using Cons.prems by (intro Cons.IH) (auto intro: zero_run_snoc)
    then show ?thesis
      by (simp only: True zero_span.simps c_def [symmetric] Let_def if_True append.assoc append_Cons append_Nil refl)
  next
    case False
    have "zero_run ((pre @ [g]) @ gs) (zero_span (i + 1) (0, 0) longest gs)"
      using Cons.prems by (intro Cons.IH) (auto intro: zero_run_snoc simp: zero_run_def)
    then show ?thesis using False by simp
  qed
qed (simp add: zero_run_def)

lemma zero_span_splits:
  assumes "zero_span 0 (0, 0) (0, 0) gs = (s, l)"
  shows "gs = take s gs @ replicate l 0 @ drop (s + l) gs" and "s + l \<le> length gs"
proof -
  have "zero_run ([] @ gs) (s, l)"
    unfolding assms [symmetric] by (rule zero_span_run) (simp_all add: zero_run_def)
  then have run: "take l (drop s gs) = replicate l 0" and "s + l \<le> length gs" by (simp_all add: zero_run_def)
  then show "s + l \<le> length gs" by simp
  show "gs = take s gs @ replicate l 0 @ drop (s + l) gs"
    unfolding run [symmetric] by (metis add.commute append_take_drop_id drop_drop)
qed

section \<open>Addresses\<close>

lemma read_ipv6_full:
  assumes "length gs = 8" and "\<forall>g\<in>set gs. g < 65536"
  shows "read_ipv6 (show_segments gs) = Some (gs, [])"
  using read_groups_first [OF assms(2), of 8 "[]"] assms(1) by (simp add: read_ipv6_def ends_groups_def)

lemma read_ipv6_compressed:
  assumes "\<forall>g\<in>set (hs @ ts). g < 65536" and "length hs + length ts \<le> 7"
  shows "read_ipv6 (show_segments hs @ ''::'' @ show_segments ts) =
    Some (hs @ replicate (8 - length hs - length ts) 0 @ ts, [])"
proof -
  have "CHR ''.'' \<notin> set (show_segments ts)" using assms(1) by (intro show_segments_bytes) simp
  then have "read_groups True 8 (show_segments hs @ ''::'' @ show_segments ts) = (hs, False, ''::'' @ show_segments ts)"
    using assms by (intro read_groups_first) (auto simp: ends_groups_def)
  moreover have "read_groups True (8 - (length hs + 1)) (show_segments ts @ []) = (ts, False, [])"
    using assms by (intro read_groups_first) (auto simp: ends_groups_def)
  ultimately show ?thesis
    using assms(2) by (simp add: read_ipv6_def read_given_char_def)
qed

lemma read_ipv6_mapped:
  assumes "a \<le> 255" and "b \<le> 255" and "c \<le> 255" and "d \<le> 255"
  shows "read_ipv6 (''::ffff:'' @ show_ipv4 a b c d) = Some ([0, 0, 0, 0, 0, 65535, a * 256 + b, c * 256 + d], [])"
proof -
  have "hex_char 15 = CHR ''f''" by code_simp
  then have f: "show_hex 65535 = ''ffff''"
    by (simp add: show_hex.simps [of 65535] show_hex.simps [of 4095] show_hex.simps [of 255] show_hex.simps [of 15])
  have "read_ipv4 (''ffff:'' @ show_ipv4 a b c d) = None"
    by (simp add: read_ipv4_def read_octet_def read_number_def to_digit_def is_ascii_digit_def
        is_ascii_lowercase_def byte_val_def Let_def)
  moreover have "read_number 16 65535 4 True (''ffff'' @ CHR '':'' # show_ipv4 a b c d) = Some (65535, CHR '':'' # show_ipv4 a b c d)"
    unfolding f [symmetric] by (rule read_hex_show) simp_all
  moreover have "read_ipv4 (show_ipv4 a b c d @ []) = Some ((a, b, c, d), [])"
    using assms by (intro read_ipv4_show) simp_all
  ultimately have "read_groups True (Suc (Suc n)) (''ffff:'' @ show_ipv4 a b c d) = ([65535, a * 256 + b, c * 256 + d], True, [])"
    if "1 \<le> n" for n using that by (simp add: read_separator_def read_given_char_def)
  from this [of 5] have "read_groups True 7 (''ffff:'' @ show_ipv4 a b c d) = ([65535, a * 256 + b, c * 256 + d], True, [])"
    by simp
  moreover have "read_groups True 8 (''::ffff:'' @ show_ipv4 a b c d) = ([], False, ''::ffff:'' @ show_ipv4 a b c d)"
  proof -
    have "read_ipv4 (''::ffff:'' @ show_ipv4 a b c d) = None"
      by (simp add: read_ipv4_def read_octet_def read_number_def to_digit_def is_ascii_digit_def
          is_ascii_lowercase_def is_ascii_uppercase_def byte_val_def Let_def)
    then have "read_groups True (Suc n) (''::ffff:'' @ show_ipv4 a b c d) = ([], False, ''::ffff:'' @ show_ipv4 a b c d)" for n
      using read_number_colon by (simp add: read_separator_def)
    from this [of 7] show ?thesis by simp
  qed
  moreover have "replicate 5 (0 :: nat) = [0, 0, 0, 0, 0]" by (simp add: numeral_eq_Suc)
  ultimately show ?thesis by (simp add: read_ipv6_def read_given_char_def)
qed

text \<open>An IPv6 address has eight segments.\<close>

fun wf_ip :: "ip_addr \<Rightarrow> bool" where
  "wf_ip (IpV4 a b c d) = True"
| "wf_ip (IpV6 gs) = (length gs = 8)"

lemma show_segments_no_ipv4: "\<forall>g\<in>set gs. g < 65536 \<Longrightarrow> read_ipv4 (show_segments gs) = None"
  by (rule read_ipv4_none) (rule show_segments_bytes)

lemma parse_show_ip: "wf_ip a \<Longrightarrow> parse_ip (show_ip a) = Some a"
proof (cases a)
  case (IpV6 ws)
  assume "wf_ip a"
  define gs where "gs = map unat ws"
  have len: "length gs = 8" using IpV6 \<open>wf_ip a\<close> by (simp add: gs_def)
  have small: "\<forall>g\<in>set gs. g < 65536"
    using unsigned_less [where 'a = nat and 'b = 16] by (auto simp: gs_def)
  have words: "map of_nat gs = ws" by (simp add: gs_def comp_def)
  have "\<exists>t. show_ipv6 gs = t \<and> read_ipv4 t = None \<and> read_ipv6 t = Some (gs, [])"
  proof (cases "take 6 gs = [0, 0, 0, 0, 0, 65535]")
    case True
    have "gs = take 6 gs @ [gs ! 6, gs ! 7]"
      using len by (auto simp: list_eq_iff_nth_eq nth_append less_Suc_eq numeral_eq_Suc)
    with True have gs: "gs = [0, 0, 0, 0, 0, 65535, gs ! 6, gs ! 7]" by simp
    have "gs ! 6 < 65536" "gs ! 7 < 65536" using small len by auto
    then have "read_ipv6 (''::ffff:'' @ show_ipv4 (gs ! 6 div 256) (gs ! 6 mod 256) (gs ! 7 div 256) (gs ! 7 mod 256)) =
        Some ([0, 0, 0, 0, 0, 65535, gs ! 6, gs ! 7], [])"
      by (subst read_ipv6_mapped) auto
    moreover have "read_ipv4 (''::ffff:'' @ x) = None" for x
      by (simp add: read_ipv4_def read_octet_def read_number_def to_digit_def is_ascii_digit_def
          is_ascii_lowercase_def is_ascii_uppercase_def byte_val_def Let_def)
    ultimately show ?thesis using True len gs by (simp add: show_ipv6_def)
  next
    case False
    obtain s l where z: "zero_span 0 (0, 0) (0, 0) gs = (s, l)" by fastforce
    note split = zero_span_splits [OF z]
    show ?thesis
    proof (cases "1 < l")
      case True
      let ?h = "take s gs" let ?t = "drop (s + l) gs"
      have "\<forall>g\<in>set (?h @ ?t). g < 65536" using small by (auto dest: in_set_takeD in_set_dropD)
      moreover have "length ?h + length ?t \<le> 7" "8 - length ?h - length ?t = l"
        using split(2) len True by auto
      ultimately have "read_ipv6 (show_segments ?h @ ''::'' @ show_segments ?t) = Some (gs, [])"
        using read_ipv6_compressed [of ?h ?t] split(1) by simp
      moreover have "CHR ''.'' \<notin> set (show_segments ?h @ ''::'' @ show_segments ?t)"
        using show_segments_bytes [of ?h] show_segments_bytes [of ?t] small
        by (auto dest: in_set_takeD in_set_dropD)
      ultimately show ?thesis
        using False True z read_ipv4_none by (auto simp: show_ipv6_def Let_def)
    next
      case no_run: False
      then show ?thesis
        using False z read_ipv6_full [OF len small] show_segments_no_ipv4 [OF small]
        by (auto simp: show_ipv6_def Let_def)
    qed
  qed
  then show ?thesis using words by (auto simp: parse_ip_def IpV6 gs_def)
qed (use parse_show_ipv4 in simp)

text \<open>The text of an address has no byte that ends a field or a line.\<close>

definition field_byte :: "byte \<Rightarrow> bool" where
  "field_byte b \<longleftrightarrow> is_ascii b \<and> \<not> is_ascii_whitespace b \<and> b \<noteq> CHR '';''"

lemma field_byte_digit: "is_ascii_digit b \<Longrightarrow> field_byte b"
  by (auto simp: field_byte_def is_ascii_def is_ascii_whitespace_def is_ascii_digit_def byte_val_def)

lemma field_byte_marks [simp]: "field_byte CHR ''.''" "field_byte CHR '':''" "field_byte CHR ''f''"
  by (simp_all add: field_byte_def is_ascii_def is_ascii_whitespace_def byte_val_def)

lemma field_byte_hex: "d < 16 \<Longrightarrow> field_byte (hex_char d)"
  by (auto simp: field_byte_def hex_char_def is_ascii_def is_ascii_whitespace_def byte_val_char_of
      dest: arg_cong [of _ _ byte_val]) (auto dest: arg_cong [of _ _ byte_val] simp: byte_val_def)

lemma show_hex_field: "\<forall>b\<in>set (show_hex n). field_byte b"
proof (induction n rule: show_hex.induct)
  case (1 n)
  then show ?case using field_byte_hex by (subst show_hex.simps) auto
qed

lemma show_nat_field: "b \<in> set (show_nat n) \<Longrightarrow> field_byte b"
  using show_nat_digits field_byte_digit by blast

lemma show_segments_field: "b \<in> set (show_segments gs) \<Longrightarrow> field_byte b"
proof (induction gs)
  case (Cons g gs)
  then show ?case using show_hex_field by (auto simp: show_segments_Cons split: if_splits)
qed (simp add: show_segments_def)

lemma show_ip_bytes: "b \<in> set (show_ip a) \<Longrightarrow> field_byte b"
  by (cases a) (auto simp: show_ipv4_def show_ipv6_def Let_def split: if_splits
      dest: show_nat_field show_segments_field)

end
