(* ===== verification/Sdp_Laws.thy ===== *)
theory Sdp_Laws
  imports Sdp_Parser Parses Ip_Laws
begin

text \<open>The text of a session description reads back as the description, for the descriptions whose
  every part the text form can express.\<close>

section \<open>Well-formed descriptions\<close>

definition word_text :: "bytes \<Rightarrow> bool" where
  "word_text s \<longleftrightarrow> valid_utf8 s \<and> (\<forall>b\<in>set s. \<not> is_ascii_whitespace b)"

definition token_text :: "bytes \<Rightarrow> bool" where
  "token_text s \<longleftrightarrow> (\<forall>b\<in>set s. sdp_is_token b)"

fun net_ok :: "net_type \<Rightarrow> bool" where
  "net_ok Nt_IN = True"
| "net_ok (Nt_Other s) = (word_text s \<and> s \<noteq> [] \<and> take 2 s \<noteq> ''IN'')"

definition origin_ok :: "origin \<Rightarrow> bool" where
  "origin_ok x \<longleftrightarrow> word_text (og_user x) \<and> net_ok (og_nettype x) \<and> wf_ip (og_unicast_address x)"

definition connection_ok :: "connection_information \<Rightarrow> bool" where
  "connection_ok c \<longleftrightarrow> net_ok (ci_nettype c) \<and> wf_ip (ci_conection_address c)"

definition attribute_ok :: "attribute \<Rightarrow> bool" where
  "attribute_ok a \<longleftrightarrow> token_text (at_name a) \<and> opt_all line_text (at_value a)"

definition i64_nonneg :: "int \<Rightarrow> bool" where
  "i64_nonneg i \<longleftrightarrow> 0 \<le> i \<and> i < 2 ^ 63"

definition repeat_ok :: "repeat_times \<Rightarrow> bool" where
  "repeat_ok r \<longleftrightarrow> i64_nonneg (rt_repeat_interval r) \<and> i64_nonneg (rt_active_duration r) \<and>
     (\<forall>x\<in>set (rt_offsets r). i64_nonneg x)"

definition media_ok :: "media_description \<Rightarrow> bool" where
  "media_ok m \<longleftrightarrow> md_media_type m \<noteq> M_Application \<and> md_number_of_ports m = None \<and>
     md_media_formats m \<noteq> [] \<and> (\<forall>s\<in>set (md_media_formats m). token_text s) \<and> md_title m = None \<and>
     opt_all connection_ok (md_connection_information m) \<and> md_bandwidth_information m = [] \<and>
     (\<forall>a\<in>set (md_attributes m). attribute_ok a)"

definition sdp_ok :: "session_description \<Rightarrow> bool" where
  "sdp_ok d \<longleftrightarrow> origin_ok (sd_origin d) \<and> line_text (sd_session_name d) \<and>
     opt_all line_text (sd_session_information d) \<and> opt_all line_text (sd_uri d) \<and>
     opt_all line_text (sd_email_address d) \<and> opt_all line_text (sd_phone_number d) \<and>
     opt_all connection_ok (sd_connection_information d) \<and> sd_bandwidth_information d = [] \<and>
     (\<forall>t\<in>set (sd_time d). \<forall>r\<in>set (td_repeat_times t). repeat_ok r) \<and>
     (\<forall>a\<in>set (sd_attributes d). attribute_ok a) \<and> (\<forall>m\<in>set (sd_media d). media_ok m)"

section \<open>Fields\<close>

abbreviation line_end :: "bytes \<Rightarrow> bytes" where
  "line_end rest \<equiv> CHR 0x0D # CHR 0x0A # rest"

lemma byte_facts [simp]:
  "is_newline CHR 0x0D" "is_newline CHR 0x0A" "\<not> is_newline CHR '' ''" "is_space CHR '' ''"
  "\<not> is_space CHR 0x0D" "is_ascii_whitespace CHR '' ''" "is_ascii_whitespace CHR 0x0D"
  "\<not> is_ascii_digit CHR '' ''" "\<not> is_ascii_digit CHR 0x0D"
  by (simp_all add: is_newline_def is_space_def is_ascii_whitespace_def is_ascii_digit_def byte_val_def)

lemma token_facts [simp]:
  "\<not> sdp_is_token CHR '' ''" "\<not> sdp_is_token CHR 0x09" "\<not> sdp_is_token CHR 0x0D" "\<not> sdp_is_token CHR '':''"
  by (simp_all add: sdp_is_token_def lookup_table_iff ALPHANUMERIC_def SDP_TOKEN_def)

lemma whitespace_spaces: "is_space b \<Longrightarrow> is_ascii_whitespace b" "is_newline b \<Longrightarrow> is_ascii_whitespace b"
  by (auto simp: is_space_def is_newline_def is_ascii_whitespace_def byte_val_def)

lemma parses_scanS: "parses f inp x rest \<Longrightarrow> parses (scanS f) inp x rest"
  unfolding scanS_def by (rule parses_map_errP)

lemma handle_ws_one: "stops is_space rest \<Longrightarrow> parses handle_ws (CHR '' '' # rest) () rest"
  using parses_skip [of "[CHR '' '']" is_space rest] by (simp add: handle_ws_def)

lemma handle_ws_none: "stops is_space rest \<Longrightarrow> parses handle_ws rest () rest"
  using parses_skip [of "[]" is_space rest] by (simp add: handle_ws_def)

lemma read_word: "word_text s \<Longrightarrow> parses (scanS (scan_while_as_str (\<lambda>b. \<not> is_ascii_whitespace b))) (s @ CHR '' '' # rest) s (CHR '' '' # rest)"
  by (intro parses_scanS parses_as_str) (auto simp: word_text_def)

lemma read_to_space: "word_text s \<Longrightarrow> parses (scanS (scan_until_as_str CHR '' '')) (s @ CHR '' '' # rest) s (CHR '' '' # rest)"
  unfolding scan_until_as_str_def by (intro parses_scanS parses_as_str) (auto simp: word_text_def)

lemma read_rest_of_line: "line_text s \<Longrightarrow> parses sdp_read_line (s @ line_end rest) s (line_end rest)"
  unfolding sdp_read_line_def scan_line_def by (intro parses_scanS parses_as_str) (auto simp: line_text_def)

lemma read_tok: "token_text s \<Longrightarrow> stops sdp_is_token rest \<Longrightarrow> parses sdp_read_token (s @ rest) s rest"
  unfolding sdp_read_token_def scan_while_as_str_unchecked_def token_text_def by (rule parses_scan_while)

lemma read_number_u64: "stops is_ascii_digit rest \<Longrightarrow> parses (scanS scan_u64) (show_word w @ rest) w rest"
  by (intro parses_scanS parses_uints)

lemma read_number_i64: "stops is_ascii_digit rest \<Longrightarrow> i64_nonneg i \<Longrightarrow> parses (scanS scan_i64) (show_int i @ rest) i rest"
  unfolding i64_nonneg_def by (intro parses_scanS parses_i64) auto

lemma net_text: "net_ok n \<Longrightarrow> word_text (show_net_type n)"
  by (cases n) (auto simp: word_text_def is_ascii_def is_ascii_whitespace_def byte_val_def intro!: valid_utf8_ascii)

lemma addr_text: "word_text (show_addr_type t)"
  by (cases t) (auto simp: word_text_def is_ascii_def is_ascii_whitespace_def byte_val_def intro!: valid_utf8_ascii)

lemma net_type_of_show: "net_ok n \<Longrightarrow> net_type_of (show_net_type n) = n"
  by (cases n) (auto simp: net_type_of_def)

lemma stops_word: "word_text s \<Longrightarrow> s \<noteq> [] \<Longrightarrow> stops is_space (s @ rest)"
  by (auto simp: stops_append word_text_def dest: whitespace_spaces)

lemma stops_number: "stops is_space (show_nat n @ rest)" "stops is_newline (show_nat n @ rest)"
proof -
  have "\<not> is_space (hd (show_nat n)) \<and> \<not> is_newline (hd (show_nat n))"
    using bspec [OF show_nat_digits [of n] hd_in_set [of "show_nat n"]]
    by (auto simp: is_space_def is_newline_def is_ascii_digit_def byte_val_def)
  then show "stops is_space (show_nat n @ rest)" "stops is_newline (show_nat n @ rest)"
    by (simp_all add: stops_append)
qed

lemma net_not_Nil: "net_ok n \<Longrightarrow> show_net_type n \<noteq> []" "show_addr_type t \<noteq> []"
  by (cases n; simp) (cases t; simp)

lemma show_ip_word: "word_text (show_ip a)" and show_ip_line: "line_text (show_ip a)"
  using show_ip_bytes [of _ a]
  by (auto simp: word_text_def line_text_def field_byte_def intro!: valid_utf8_ascii dest: whitespace_spaces)

lemma show_ip_not_Nil: "wf_ip a \<Longrightarrow> show_ip a \<noteq> []"
proof
  assume "wf_ip a" and "show_ip a = []"
  then have "parse_ip [] = Some a" using parse_show_ip [of a] by simp
  moreover have "read_ipv4 [] = None" by (rule read_ipv4_none) simp
  then have "parse_ip [] = None"
    using read_groups_first [of "[]" 8 "[]"]
    by (simp add: parse_ip_def read_ipv6_def show_segments_def ends_groups_def read_given_char_def)
  ultimately show False by simp
qed

lemma read_ip: "wf_ip a \<Longrightarrow> parses (ipS p (show_ip a)) inp a inp"
  by (simp add: ipS_def parse_show_ip parses_retP)

lemma read_addr_type: "parses (if show_addr_type t = ''IP4'' then retP IP4 else
    if show_addr_type t = ''IP6'' then retP IP6 else e) inp t inp"
  by (cases t) (simp_all add: parses_retP)

lemmas field_rules = parses_bindP parses_thenP read_word read_to_space read_number_u64 handle_ws_one
  read_addr_type read_ip net_text addr_text stops_number stops_word net_not_Nil show_ip_word show_ip_not_Nil

lemma read_to_field_end:
  "parses (scanS (scan_until_any_as_str [CHR '' '', CHR 0x09, CHR 0x0D, CHR 0x0A])) (show_ip a @ line_end rest)
     (show_ip a) (line_end rest)"
  unfolding scan_until_any_as_str_def
proof (intro parses_scanS parses_as_str)
  have "\<forall>b\<in>set [CHR '' '', CHR 0x09, CHR 0x0D, CHR 0x0A]. \<not> field_byte b"
    by (simp add: field_byte_def is_ascii_whitespace_def byte_val_def)
  then show "\<forall>b\<in>set (show_ip a). b \<notin> set [CHR '' '', CHR 0x09, CHR 0x0D, CHR 0x0A]"
    using show_ip_bytes [of _ a] by blast
qed (use show_ip_word [of a] in \<open>simp_all add: word_text_def\<close>)

lemma read_origin:
  assumes "origin_ok x"
  shows "parses parse_origin (og_user x @ CHR '' '' # show_word (og_session_id x) @ CHR '' '' #
     show_word (og_session_version x) @ CHR '' '' # show_net_type (og_nettype x) @ CHR '' '' #
     show_addr_type (og_addrtype x) @ CHR '' '' # show_ip (og_unicast_address x) @ line_end rest) x (line_end rest)"
proof -
  have ok: "word_text (og_user x)" "net_ok (og_nettype x)" "wf_ip (og_unicast_address x)"
    using assms by (simp_all add: origin_ok_def)
  show ?thesis
    unfolding parse_origin_def
    by (rule field_rules read_to_field_end handle_ws_none parses_ret | simp add: ok net_type_of_show)+
qed

lemma read_net:
  assumes "net_ok n" and "parses (f n) (CHR '' '' # suf) x rest"
  shows "parses (bindP (askP (matches_prefix ''IN'')) (\<lambda>internet.
     bindP (if internet then liftP (\<lambda>s. (Nt_IN, advance_n 2 s))
            else bindP (scanS (scan_while_as_str (\<lambda>b. \<not> is_space b))) (\<lambda>other. retP (Nt_Other other))) f))
     (show_net_type n @ CHR '' '' # suf) x rest"
proof (cases n)
  case Nt_IN
  have adv: "parses (liftP (\<lambda>s. (Nt_IN, advance_n 2 s)) :: net_type sdp_parser) (''IN'' @ CHR '' '' # suf) Nt_IN (CHR '' '' # suf)"
    by (rule parses_advance) simp
  have pre: "parses (askP (matches_prefix ''IN'') :: bool sdp_parser) (''IN'' @ CHR '' '' # suf) True (''IN'' @ CHR '' '' # suf)"
    using parses_prefix [of "''IN''" "''IN'' @ CHR '' '' # suf"] by (simp add: starts_with_def)
  show ?thesis
    unfolding Nt_IN show_net_type.simps
    by (rule parses_bindP [OF pre]) (use parses_bindP [OF adv, of f] assms(2) in \<open>simp add: Nt_IN\<close>)
next
  case (Nt_Other s)
  have s: "word_text s" "s \<noteq> []" "take 2 s \<noteq> ''IN''" using assms(1) Nt_Other by simp_all
  then have "\<not> starts_with ''IN'' (s @ CHR '' '' # suf)"
    by (cases s; cases "List.tl s") (auto simp: starts_with_def)
  then have "parses (askP (matches_prefix ''IN'') :: bool sdp_parser) (s @ CHR '' '' # suf) False (s @ CHR '' '' # suf)"
    using parses_prefix [of "''IN''" "s @ CHR '' '' # suf"] by simp
  moreover have "parses (scanS (scan_while_as_str (\<lambda>b. \<not> is_space b))) (s @ CHR '' '' # suf) s (CHR '' '' # suf)"
    using s(1) by (intro parses_scanS parses_as_str) (auto simp: word_text_def dest: whitespace_spaces)
  ultimately show ?thesis
    using assms(2) by (auto simp: Nt_Other intro!: parses_bindP parses_retP)
qed

lemma read_connection:
  assumes "connection_ok c"
  shows "parses parse_connection_info (show_net_type (ci_nettype c) @ CHR '' '' #
    show_addr_type (ci_addrtype c) @ CHR '' '' # show_ip (ci_conection_address c) @ line_end rest) c (line_end rest)"
proof -
  have ok: "net_ok (ci_nettype c)" "wf_ip (ci_conection_address c)" using assms by (simp_all add: connection_ok_def)
  have three: "length (show_addr_type t) = 3" for t by (cases t) simp_all
  have peek: "parses (askP (peek_n 3)) (show_addr_type t @ suf) (Some (show_addr_type t)) (show_addr_type t @ suf)" for t suf
    using parses_peek_n [of 3 "show_addr_type t @ suf"] by (simp add: three)
  have addr: "parses (if Some (show_addr_type t) = Some ''IP4'' then retP IP4 else
      if Some (show_addr_type t) = Some ''IP6'' then retP IP6 else e) inp t inp" for t inp and e :: "addr_type sdp_parser"
    by (cases t) (simp_all add: parses_retP)
  have line: "parses sdp_read_line (show_ip a @ line_end suf) (show_ip a) (line_end suf)" for a suf
    by (rule read_rest_of_line) (rule show_ip_line)
  show ?thesis
    unfolding parse_connection_info_def
    by (rule read_net addr peek line handle_ws_one read_ip parses_advance [OF three] parses_bindP parses_thenP
          addr_text stops_word net_not_Nil show_ip_word show_ip_not_Nil ok
          handle_ws_none parses_ret | simp)+
qed

lemma read_attribute:
  assumes "attribute_ok a"
  shows "parses parse_attribute (at_name a @ (case at_value a of Some v \<Rightarrow> CHR '':'' # v | None \<Rightarrow> []) @ line_end rest) a (line_end rest)"
proof (cases "at_value a")
  case None
  with assms show ?thesis
    unfolding parse_attribute_def scan_if_eq_def
    by (auto simp: attribute_ok_def intro!: parses_bindP [OF read_tok] parses_bindP [OF parses_scan_if_not]
        parses_bindP [OF parses_retP] parses_ret)
next
  case (Some v)
  with assms have "line_text v" "token_text (at_name a)" by (simp_all add: attribute_ok_def opt_all_def)
  then show ?thesis
    unfolding parse_attribute_def scan_if_eq_def
    by (auto simp: Some intro!: parses_bindP [OF read_tok] parses_bindP [OF parses_scan_if]
        parses_bindP [OF parses_bindP [OF read_rest_of_line parses_retP]] parses_ret)
qed

text \<open>Words separated by single spaces up to the end of the line.\<close>

lemma read_line_end: "parses (askP at_line_end) inp (stops (\<lambda>b. \<not> is_newline b) inp) inp"
  by (rule parses_askP) (auto simp: at_line_end_def peek_remaining stops_def split: list.split)

lemma read_spaced:
  assumes "\<And>x suf. x \<in> set xs \<Longrightarrow> stops (\<lambda>b. \<not> is_space b \<and> b \<noteq> CHR 0x0D) suf \<Longrightarrow> suf \<noteq> [] \<Longrightarrow> parses p (txt_of x @ suf) x suf"
  shows "parses (loopP (spaced_body p) acc) (concat (map (\<lambda>x. CHR '' '' # txt_of x) xs) @ line_end rest)
    (acc @ xs) (line_end rest)"
  using assms
proof (induction xs arbitrary: acc)
  case Nil
  show ?case
    by (rule parses_loop_break, unfold spaced_body_def)
      (auto intro!: parses_bindP [OF parses_scan_if_not] parses_ret)
next
  case (Cons x xs)
  let ?tail = "concat (map (\<lambda>x. CHR '' '' # txt_of x) xs) @ line_end rest"
  have x: "parses p (txt_of x @ ?tail) x ?tail"
    using Cons.prems [of x ?tail] by (cases xs) auto
  have sp: "parses (liftP (scan_if is_space) :: byte option sdp_parser) (CHR '' '' # txt_of x @ ?tail) (Some CHR '' '') (txt_of x @ ?tail)"
    by (rule parses_scan_if) simp
  show ?case
  proof (cases "xs = []")
    case True
    have "parses (spaced_body p acc) (CHR '' '' # txt_of x @ ?tail) (Break (acc @ [x])) ?tail"
      unfolding spaced_body_def
      by (rule parses_bindP [OF sp], unfold option.case, rule parses_bindP [OF x],
          rule parses_bindP [OF read_line_end]) (simp add: True parses_retP)
    then show ?thesis using True by (auto intro: parses_loop_break)
  next
    case False
    then obtain y ys where ys: "xs = y # ys" by (cases xs) auto
    have "parses (spaced_body p acc) (CHR '' '' # txt_of x @ ?tail) (Continue (acc @ [x])) ?tail"
      unfolding spaced_body_def
      by (rule parses_bindP [OF sp], unfold option.case, rule parses_bindP [OF x],
          rule parses_bindP [OF read_line_end]) (simp add: ys parses_retP)
    moreover have "length ?tail < length (CHR '' '' # txt_of x @ ?tail)" by simp
    moreover have "parses (loopP (spaced_body p) (acc @ [x])) ?tail ((acc @ [x]) @ xs) (line_end rest)"
      by (rule Cons.IH) (use Cons.prems in auto)
    ultimately have "parses (loopP (spaced_body p) acc) (CHR '' '' # txt_of x @ ?tail) ((acc @ [x]) @ xs) (line_end rest)"
      by (rule parses_loop_continue)
    then show ?thesis by simp
  qed
qed

lemma read_media:
  assumes "media_ok m"
  shows "parses parse_media_description (show_sdp_media_type (md_media_type m) @ CHR '' '' # show_word (md_port m) @
      CHR '' '' # show_sdp_transport (md_proto m) @ concat (map (\<lambda>x. CHR '' '' # x) (md_media_formats m)) @ line_end rest)
    (m\<lparr>md_connection_information := None, md_attributes := []\<rparr>) (line_end rest)"
proof -
  have ok: "md_media_type m \<noteq> M_Application" "md_media_formats m \<noteq> []" "\<forall>s\<in>set (md_media_formats m). token_text s"
    using assms by (simp_all add: media_ok_def)
  let ?fs = "concat (map (\<lambda>x. CHR '' '' # x) (md_media_formats m)) @ line_end rest"
  have type: "parses (case media_type_of (show_sdp_media_type (md_media_type m)) of Some m \<Rightarrow> retP m | None \<Rightarrow> e) inp
      (md_media_type m) inp" for inp and e :: "sdp_media_type sdp_parser"
    using ok(1) by (cases "md_media_type m") (simp_all add: media_type_of_def parses_retP)
  have proto: "parses (case sdp_transport_of (show_sdp_transport p) of Some p \<Rightarrow> retP p | None \<Rightarrow> e) inp p inp"
    for p inp and e :: "sdp_transport sdp_parser"
    by (cases p) (simp_all add: sdp_transport_of_def parses_retP)
  have tok: "token_text (show_sdp_media_type t)" for t
    by (cases t) (simp_all add: token_text_def sdp_is_token_def lookup_table_iff ALPHANUMERIC_def)
  have word: "parses (liftP (scan_while (\<lambda>b. \<not> is_space b))) (show_sdp_transport p @ ?fs) (show_sdp_transport p) ?fs" for p
  proof (rule parses_scan_while)
    show "\<forall>b\<in>set (show_sdp_transport p). \<not> is_space b" by (cases p) (simp_all add: is_space_def)
    show "stops (\<lambda>b. \<not> is_space b) ?fs" using ok(2) by (cases "md_media_formats m") simp_all
  qed
  have port: "parses (scanS scan_u16) (show_word w @ CHR '' '' # suf) w (CHR '' '' # suf)" for w suf
    by (intro parses_scanS parses_uints) simp
  have formats: "parses (spaced sdp_read_token) ?fs (md_media_formats m) (line_end rest)"
    unfolding spaced_def
  proof (rule read_spaced [where acc = "[]" and txt_of = "\<lambda>x. x", simplified])
    fix x suf assume x: "x \<in> set (md_media_formats m)" and "stops (\<lambda>b. \<not> is_space b \<and> b \<noteq> CHR 0x0D) suf" "suf \<noteq> []"
    then have "stops sdp_is_token suf" by (cases suf) (auto simp: is_space_def)
    then show "parses sdp_read_token (x @ suf) x suf" using ok(3) x by (intro read_tok) auto
  qed
  have start: "stops is_space (show_sdp_transport p @ suf)" for p suf
    by (cases p) (simp_all add: is_space_def)
  show ?thesis
    unfolding parse_media_description_def
    using assms
    by (auto simp: media_ok_def intro!: parses_bindP [OF read_tok [OF tok]] parses_bindP [OF type]
        parses_thenP [OF handle_ws_one] parses_bindP [OF port] parses_bindP [OF word] parses_bindP [OF proto]
        parses_bindP [OF formats] parses_ret start stops_number)
qed

lemma read_time:
  "parses parse_time (show_word (ta_start_time a) @ CHR '' '' # show_word (ta_stop_time a) @ line_end rest)
     \<lparr>td_time_active = a, td_repeat_times = []\<rparr> (line_end rest)"
  unfolding parse_time_def
  by (rule parses_bindP parses_thenP read_number_u64 parses_scanS parses_must_read parses_ret | simp)+

lemma read_repeat:
  assumes "repeat_ok r"
  shows "parses parse_repeat_times (show_int (rt_repeat_interval r) @ CHR '' '' # show_int (rt_active_duration r) @
    concat (map (\<lambda>x. CHR '' '' # show_int x) (rt_offsets r)) @ line_end rest) r (line_end rest)"
proof -
  have ok: "i64_nonneg (rt_repeat_interval r)" "i64_nonneg (rt_active_duration r)" "\<forall>x\<in>set (rt_offsets r). i64_nonneg x"
    using assms by (simp_all add: repeat_ok_def)
  let ?os = "concat (map (\<lambda>x. CHR '' '' # show_int x) (rt_offsets r)) @ line_end rest"
  have more: "stops is_ascii_digit ?os" by (cases "rt_offsets r") simp_all
  have start: "stops is_space (show_int (rt_active_duration r) @ suf)" for suf
    using ok(2) stops_number by (simp add: i64_nonneg_def show_int_def)
  have offsets: "parses (spaced (scanS scan_i64)) ?os (rt_offsets r) (line_end rest)"
    unfolding spaced_def
  proof (rule read_spaced [where acc = "[]", simplified])
    fix x suf assume x: "x \<in> set (rt_offsets r)" and "stops (\<lambda>b. \<not> is_space b \<and> b \<noteq> CHR 0x0D) suf" "suf \<noteq> []"
    then have "stops is_ascii_digit suf"
      by (cases suf) (auto simp: is_space_def is_ascii_digit_def byte_val_def)
    then show "parses (scanS scan_i64) (show_int x @ suf) x suf"
      using ok(3) x by (intro read_number_i64) auto
  qed
  show ?thesis
    unfolding parse_repeat_times_def
    by (rule parses_bindP parses_thenP read_number_i64 handle_ws_one offsets parses_ret more start ok | simp)+
qed

section \<open>Lines\<close>

text \<open>\<open>reads txt f\<close>: the loop of the parser reads the lines \<open>txt\<close> and has then updated the
  description by \<open>f\<close>; lines are composed by composing the updates.\<close>

definition reads :: "bytes \<Rightarrow> (session_description \<Rightarrow> session_description) \<Rightarrow> bool" where
  "reads txt f \<longleftrightarrow> stops is_newline txt \<and>
     (\<forall>d rest y. stops is_newline rest \<longrightarrow> parses (loopP sdp_body (f d)) rest y [] \<longrightarrow>
        parses (loopP sdp_body d) (txt @ rest) y [])"

lemma reads_Nil: "reads [] (\<lambda>d. d)"
  by (simp add: reads_def)

lemma readsD:
  "reads txt f \<Longrightarrow> stops is_newline txt"
  "reads txt f \<Longrightarrow> stops is_newline rest \<Longrightarrow> parses (loopP sdp_body (f d)) rest y [] \<Longrightarrow>
     parses (loopP sdp_body d) (txt @ rest) y []"
  by (simp_all only: reads_def)

lemma reads_append: "reads a f \<Longrightarrow> reads b g \<Longrightarrow> reads (a @ b) (\<lambda>d. g (f d))"
proof -
  assume a: "reads a f" and b: "reads b g"
  have nl: "stops is_newline (a @ b)" using readsD(1) [OF a] readsD(1) [OF b] by (cases a) simp_all
  have "parses (loopP sdp_body d) ((a @ b) @ rest) y []"
    if rest: "stops is_newline rest" "parses (loopP sdp_body (g (f d))) rest y []" for d rest y
  proof -
    have "parses (loopP sdp_body (f d)) (b @ rest) y []" using rest by (rule readsD(2) [OF b])
    moreover have "stops is_newline (b @ rest)" using readsD(1) [OF b] rest(1) by (cases b) simp_all
    ultimately show ?thesis using readsD(2) [OF a] unfolding append_assoc by blast
  qed
  with nl show ?thesis unfolding reads_def by blast
qed

lemma body_line:
  assumes "parses (sdp_field k d) (txt @ line_end rest) d' (line_end rest)" and "stops is_newline rest"
  shows "parses (sdp_body d) (k # CHR ''='' # txt @ line_end rest) (Continue d') rest"
proof -
  let ?inp = "k # CHR ''='' # txt @ line_end rest"
  have eof: "parses (askP is_eof :: bool sdp_parser) ?inp False ?inp" using parses_eof [of ?inp] by simp
  have field: "parses read_field ?inp k (txt @ line_end rest)"
    unfolding read_field_def
    by (rule parses_bindP parses_thenP parses_scanS parses_next_byte parses_must_read parses_ret refl)+
  have nl: "parses handle_new_line (line_end rest) () rest"
    using parses_skip [of "[CHR 0x0D, CHR 0x0A]" is_newline rest] assms(2) by (simp add: handle_new_line_def)
  show ?thesis
    unfolding sdp_body_def
    by (rule parses_bindP [OF eof], unfold if_False, rule parses_bindP [OF field], rule parses_bindP [OF assms(1)],
        rule parses_thenP [OF nl]) (rule parses_retP)
qed

lemma reads_line:
  assumes "\<And>d rest. parses (sdp_field k d) (txt @ line_end rest) (f d) (line_end rest)" and "\<not> is_newline k"
  shows "reads (k # CHR ''='' # txt @ eol) f"
  unfolding reads_def
proof (intro conjI allI impI)
  fix d rest y assume "stops is_newline rest" and rest: "parses (loopP sdp_body (f d)) rest y []"
  have "parses (loopP sdp_body d) (k # CHR ''='' # txt @ line_end rest) y []"
    by (rule parses_loop_continue [OF body_line [OF assms(1)]]) (use \<open>stops is_newline rest\<close> rest in simp_all)
  then show "parses (loopP sdp_body d) ((k # CHR ''='' # txt @ eol) @ rest) y []" by (simp add: eol_def)
qed (use assms(2) in simp)

lemma reads_concat:
  assumes "\<And>x. x \<in> set xs \<Longrightarrow> reads (show x) (upd x)"
  shows "reads (concat (map show xs)) (\<lambda>d. fold upd xs d)"
  using assms
proof (induction xs)
  case (Cons x xs)
  then have "reads (show x @ concat (map show xs)) (\<lambda>d. fold upd xs (upd x d))"
    by (intro reads_append [of "show x" "upd x"]) auto
  then show ?case by (simp add: comp_def)
qed (simp add: reads_Nil id_def)

lemma reads_field:
  assumes "\<And>rest. parses p (payload @ line_end rest) x (line_end rest)"
    and "\<And>d. sdp_field k d = bindP p (\<lambda>x. retP (upd x d))" and "\<not> is_newline k"
    and "line = k # CHR ''='' # payload @ eol"
  shows "reads line (upd x)"
  unfolding assms(4)
  by (rule reads_line) (unfold assms(2), rule parses_bindP [OF assms(1) parses_retP], rule assms(3))

lemma reads_text_line:
  assumes "line_text s" and "k \<in> {CHR ''s'', CHR ''i'', CHR ''u'', CHR ''e'', CHR ''p''}"
    and "\<And>d. sdp_field k d = bindP sdp_read_line (\<lambda>x. retP (upd x d))"
  shows "reads (k # CHR ''='' # s @ eol) (upd s)"
proof (rule reads_line)
  show "parses (sdp_field k d) (s @ line_end rest) (upd s d) (line_end rest)" for d rest
    unfolding assms(3) by (rule parses_bindP [OF read_rest_of_line [OF assms(1)] parses_retP])
qed (use assms(2) in \<open>auto simp: is_newline_def\<close>)

definition opt_upd :: "('a \<Rightarrow> 'd \<Rightarrow> 'd) \<Rightarrow> 'a option \<Rightarrow> 'd \<Rightarrow> 'd" where
  "opt_upd upd x d = (case x of Some v \<Rightarrow> upd v d | None \<Rightarrow> d)"

lemma reads_opt:
  "(\<And>v. x = Some v \<Longrightarrow> reads (show v) (upd v)) \<Longrightarrow>
     reads (case x of Some v \<Rightarrow> show v | None \<Rightarrow> []) (opt_upd upd x)"
  by (cases x) (simp_all add: opt_upd_def [abs_def] reads_Nil)

lemma reads_connection: "connection_ok c \<Longrightarrow> reads (show_connection c) (set_connection c)"
  by (rule reads_field [where k = "CHR ''c''" and p = parse_connection_info and payload = "show_net_type (ci_nettype c) @
        CHR '' '' # show_addr_type (ci_addrtype c) @ CHR '' '' # show_ip (ci_conection_address c)"])
    (use read_connection in \<open>simp_all add: show_connection_def sdp_field_def is_newline_def\<close>)

lemma reads_attribute: "attribute_ok a \<Longrightarrow> reads (show_attribute a) (set_attr a)"
  by (rule reads_field [where k = "CHR ''a''" and p = parse_attribute and
        payload = "at_name a @ (case at_value a of Some v \<Rightarrow> CHR '':'' # v | None \<Rightarrow> [])"])
    (use read_attribute in \<open>simp_all add: show_attribute_def sdp_field_def is_newline_def split: option.split\<close>)

lemma reads_origin: "origin_ok x \<Longrightarrow> reads (show_origin x) (set_origin x)"
  by (rule reads_field [where k = "CHR ''o''" and p = parse_origin and payload = "og_user x @ CHR '' '' #
        show_word (og_session_id x) @ CHR '' '' # show_word (og_session_version x) @ CHR '' '' #
        show_net_type (og_nettype x) @ CHR '' '' # show_addr_type (og_addrtype x) @ CHR '' '' #
        show_ip (og_unicast_address x)"])
    (use read_origin in \<open>simp_all add: show_origin_def sdp_field_def is_newline_def\<close>)

lemma reads_version: "reads (''v=0'' @ eol) (\<lambda>d. d)"
proof -
  have "parses (thenP parse_version (retP d)) (''0'' @ line_end rest) d (line_end rest)" for d rest
    unfolding parse_version_def
    using parses_thenP [OF parses_map_errP [OF parses_must_read] parses_retP] by simp
  then have "reads (CHR ''v'' # CHR ''='' # ''0'' @ eol) (\<lambda>d. d)"
    by (intro reads_line) (simp_all add: sdp_field_def is_newline_def)
  then show ?thesis by simp
qed

lemma update_last_snoc [simp]: "update_last f (xs @ [x]) = Some (xs @ [f x])"
  by (simp add: update_last_def)

lemma letters: "\<not> is_newline CHR ''r''"
  by (simp add: is_newline_def)

lemma repeats_run:
  assumes "\<forall>r\<in>set rs. repeat_ok r" and "stops is_newline rest"
    and "parses (loopP sdp_body (set_time_desc \<lparr>td_time_active = a, td_repeat_times = before @ rs\<rparr> d)) rest y []"
  shows "parses (loopP sdp_body (set_time_desc \<lparr>td_time_active = a, td_repeat_times = before\<rparr> d))
    (concat (map show_repeat rs) @ rest) y []"
  using assms
proof (induction rs arbitrary: before)
  case (Cons r rs)
  let ?d = "\<lambda>b. set_time_desc \<lparr>td_time_active = a, td_repeat_times = b\<rparr> d"
  let ?tail = "concat (map show_repeat rs) @ rest"
  let ?line = "show_int (rt_repeat_interval r) @ CHR '' '' # show_int (rt_active_duration r) @
    concat (map (\<lambda>x. CHR '' '' # show_int x) (rt_offsets r))"
  have set: "set_repeat_times r (?d before) = Ok (?d (before @ [r]))"
    by (simp add: set_repeat_times_def set_time_desc_def)
  have "parses (bindP parse_repeat_times (\<lambda>x. resP (set_repeat_times x (?d before))))
      (?line @ line_end ?tail) (?d (before @ [r])) (line_end ?tail)"
    by (rule parses_bindP [where x = r and b = "line_end ?tail"])
      (use read_repeat [of r ?tail] Cons.prems(1) parses_resP [OF set] in simp_all)
  then have field: "parses (sdp_field CHR ''r'' (?d before)) (?line @ line_end ?tail) (?d (before @ [r])) (line_end ?tail)"
    by (simp add: sdp_field_def)
  have "stops is_newline ?tail"
    using Cons.prems(2) letters by (cases rs) (simp_all add: show_repeat_def)
  note body = body_line [OF field this]
  have run: "parses (loopP sdp_body (?d (before @ [r]))) ?tail y []"
    by (rule Cons.IH) (use Cons.prems in simp_all)
  have "parses (loopP sdp_body (?d before)) (CHR ''r'' # CHR ''='' # ?line @ line_end ?tail) y []"
    by (rule parses_loop_continue [OF body _ run]) simp
  then show ?case by (simp add: show_repeat_def [of r] eol_def)
qed simp

lemma reads_time:
  assumes "\<forall>r\<in>set (td_repeat_times t). repeat_ok r" shows "reads (show_time t) (set_time_desc t)"
  unfolding reads_def
proof (intro conjI allI impI)
  fix d rest y assume rest: "stops is_newline rest" "parses (loopP sdp_body (set_time_desc t d)) rest y []"
  let ?line = "CHR ''t'' # CHR ''='' # show_word (ta_start_time (td_time_active t)) @ CHR '' '' #
    show_word (ta_stop_time (td_time_active t)) @ eol"
  have "reads ?line (set_time_desc \<lparr>td_time_active = td_time_active t, td_repeat_times = []\<rparr>)"
    by (rule reads_field [where k = "CHR ''t''" and p = parse_time and payload =
          "show_word (ta_start_time (td_time_active t)) @ CHR '' '' # show_word (ta_stop_time (td_time_active t))"])
      (use read_time in \<open>simp_all add: sdp_field_def is_newline_def\<close>)
  moreover have "parses (loopP sdp_body (set_time_desc \<lparr>td_time_active = td_time_active t, td_repeat_times = []\<rparr> d))
      (concat (map show_repeat (td_repeat_times t)) @ rest) y []"
    by (rule repeats_run [OF assms rest(1)]) (use rest(2) in \<open>cases t, simp\<close>)
  moreover have "stops is_newline (concat (map show_repeat (td_repeat_times t)) @ rest)"
    using rest(1) letters by (cases "td_repeat_times t") (simp_all add: show_repeat_def)
  ultimately have "parses (loopP sdp_body d) (?line @ concat (map show_repeat (td_repeat_times t)) @ rest) y []"
    using readsD(2) by blast
  then show "parses (loopP sdp_body d) (show_time t @ rest) y []" by (simp add: show_time_def)
qed (simp add: show_time_def is_newline_def)

lemma set_connection_media:
  "set_connection c (set_media_description m d) = set_media_description (m\<lparr>md_connection_information := Some c\<rparr>) d"
  by (simp add: set_connection_def set_media_description_def)

lemma set_attr_media:
  "set_attr a (set_media_description m d) = set_media_description (m\<lparr>md_attributes := md_attributes m @ [a]\<rparr>) d"
  by (simp add: set_attr_def set_media_description_def)

lemma fold_set_attr_media:
  "fold set_attr as (set_media_description m d) = set_media_description (m\<lparr>md_attributes := md_attributes m @ as\<rparr>) d"
  by (induction as arbitrary: m) (simp_all add: set_attr_media)

lemma reads_media:
  assumes "media_ok m" shows "reads (show_media m) (set_media_description m)"
proof -
  let ?m = "m\<lparr>md_connection_information := None, md_attributes := []\<rparr>"
  let ?line = "CHR ''m'' # CHR ''='' # (show_sdp_media_type (md_media_type m) @ CHR '' '' # show_word (md_port m) @
      CHR '' '' # show_sdp_transport (md_proto m) @ concat (map (\<lambda>x. CHR '' '' # x) (md_media_formats m))) @ eol"
  have ok: "opt_all connection_ok (md_connection_information m)" "\<forall>a\<in>set (md_attributes m). attribute_ok a"
    "md_number_of_ports m = None" "md_title m = None" "md_bandwidth_information m = []"
    using assms by (simp_all add: media_ok_def)
  have "reads ?line (set_media_description ?m)"
    by (rule reads_field [where k = "CHR ''m''" and p = parse_media_description and payload =
          "show_sdp_media_type (md_media_type m) @ CHR '' '' # show_word (md_port m) @
           CHR '' '' # show_sdp_transport (md_proto m) @ concat (map (\<lambda>x. CHR '' '' # x) (md_media_formats m))"])
      (use read_media [OF assms] in \<open>simp_all add: sdp_field_def is_newline_def\<close>)
  moreover have "reads (case md_connection_information m of Some c \<Rightarrow> show_connection c | None \<Rightarrow> [])
      (opt_upd set_connection (md_connection_information m))"
    using ok(1) by (intro reads_opt reads_connection) (simp add: opt_all_def)
  moreover have "reads (concat (map show_attribute (md_attributes m))) (fold set_attr (md_attributes m))"
    using ok(2) reads_attribute by (intro reads_concat) blast
  ultimately have "reads (?line @ (case md_connection_information m of Some c \<Rightarrow> show_connection c | None \<Rightarrow> []) @
      concat (map show_attribute (md_attributes m)))
      (\<lambda>d. fold set_attr (md_attributes m) (opt_upd set_connection (md_connection_information m) (set_media_description ?m d)))"
    by (intro reads_append)
  moreover have "fold set_attr (md_attributes m) (opt_upd set_connection (md_connection_information m) (set_media_description ?m d)) =
      set_media_description m d" for d
    by (cases m; cases "md_connection_information m") (simp_all add: opt_upd_def set_connection_media fold_set_attr_media)
  moreover have "show_media m = ?line @ (case md_connection_information m of Some c \<Rightarrow> show_connection c | None \<Rightarrow> []) @
      concat (map show_attribute (md_attributes m))"
    using ok(3-5) by (simp add: show_media_def show_optional_line_def)
  ultimately show ?thesis by simp
qed

section \<open>The round trip\<close>

lemma parse_end: "parses (loopP sdp_body d) [] d []"
proof (rule parses_loop_break)
  have "parses (askP is_eof :: bool sdp_parser) [] True []" using parses_eof [of "[]"] by simp
  then show "parses (sdp_body d) [] (Break d) []"
    unfolding sdp_body_def by (rule parses_bindP) (simp add: parses_retP)
qed

lemma fold_sets:
  "fold set_time_desc ts d = d\<lparr>sd_time := sd_time d @ ts\<rparr>"
  "sd_media d = [] \<Longrightarrow> fold set_attr as d = d\<lparr>sd_attributes := sd_attributes d @ as\<rparr>"
  "fold set_media_description ms d = d\<lparr>sd_media := sd_media d @ ms\<rparr>"
proof -
  show "fold set_time_desc ts d = d\<lparr>sd_time := sd_time d @ ts\<rparr>"
    by (induction ts arbitrary: d) (simp_all add: set_time_desc_def)
  show "sd_media d = [] \<Longrightarrow> fold set_attr as d = d\<lparr>sd_attributes := sd_attributes d @ as\<rparr>"
    by (induction as arbitrary: d) (simp_all add: set_attr_def update_last_def)
  show "fold set_media_description ms d = d\<lparr>sd_media := sd_media d @ ms\<rparr>"
    by (induction ms arbitrary: d) (simp_all add: set_media_description_def)
qed

definition sdp_update :: "session_description \<Rightarrow> session_description \<Rightarrow> session_description" where
  "sdp_update d x =
     fold set_media_description (sd_media d) (fold set_attr (sd_attributes d) (fold set_time_desc (sd_time d)
       (opt_upd set_connection (sd_connection_information d) (opt_upd set_phone (sd_phone_number d)
         (opt_upd set_email_addr (sd_email_address d) (opt_upd set_uri (sd_uri d)
           (opt_upd set_information (sd_session_information d) (set_name (sd_session_name d)
             (set_origin (sd_origin d) x)))))))))"

lemma reads_session: "sdp_ok d \<Longrightarrow> reads (show_session d) (sdp_update d)"
proof -
  assume ok: "sdp_ok d"
  have lines: "reads (k # CHR ''='' # s @ eol) (upd s)"
    if "line_text s" "k \<in> {CHR ''s'', CHR ''i'', CHR ''u'', CHR ''e'', CHR ''p''}"
      "\<And>x. sdp_field k x = bindP sdp_read_line (\<lambda>v. retP (upd v x))" for k s upd
    using that by (rule reads_text_line)
  have opt: "reads (show_optional_line (k # ''='') x) (opt_upd upd x)"
    if all: "opt_all line_text x" and k: "k \<in> {CHR ''s'', CHR ''i'', CHR ''u'', CHR ''e'', CHR ''p''}"
      and field: "\<And>y. sdp_field k y = bindP sdp_read_line (\<lambda>v. retP (upd v y))" for k x upd
  proof -
    have "reads ((k # ''='') @ v @ eol) (upd v)" if "x = Some v" for v
      using lines [OF _ k field, of v] all that by (simp add: opt_all_def)
    then show ?thesis unfolding show_optional_line_def by (rule reads_opt)
  qed
  have d: "origin_ok (sd_origin d)" "line_text (sd_session_name d)"
    "opt_all line_text (sd_session_information d)" "opt_all line_text (sd_uri d)"
    "opt_all line_text (sd_email_address d)" "opt_all line_text (sd_phone_number d)"
    "opt_all connection_ok (sd_connection_information d)"
    "\<forall>t\<in>set (sd_time d). \<forall>r\<in>set (td_repeat_times t). repeat_ok r"
    "\<forall>a\<in>set (sd_attributes d). attribute_ok a" "\<forall>m\<in>set (sd_media d). media_ok m"
    using ok by (simp_all add: sdp_ok_def)
  have name: "reads (CHR ''s'' # CHR ''='' # sd_session_name d @ eol) (set_name (sd_session_name d))"
    by (rule lines [OF d(2)]) (simp_all add: sdp_field_def)
  have info: "reads (show_optional_line ''i='' (sd_session_information d)) (opt_upd set_information (sd_session_information d))"
    by (rule opt [OF d(3)]) (simp_all add: sdp_field_def)
  have uri: "reads (show_optional_line ''u='' (sd_uri d)) (opt_upd set_uri (sd_uri d))"
    by (rule opt [OF d(4)]) (simp_all add: sdp_field_def)
  have email: "reads (show_optional_line ''e='' (sd_email_address d)) (opt_upd set_email_addr (sd_email_address d))"
    by (rule opt [OF d(5)]) (simp_all add: sdp_field_def)
  have phone: "reads (show_optional_line ''p='' (sd_phone_number d)) (opt_upd set_phone (sd_phone_number d))"
    by (rule opt [OF d(6)]) (simp_all add: sdp_field_def)
  have conn: "reads (case sd_connection_information d of Some c \<Rightarrow> show_connection c | None \<Rightarrow> [])
      (opt_upd set_connection (sd_connection_information d))"
    using d(7) by (intro reads_opt reads_connection) (simp add: opt_all_def)
  have time: "reads (concat (map show_time (sd_time d))) (fold set_time_desc (sd_time d))"
    using d(8) by (intro reads_concat reads_time) blast
  have attr: "reads (concat (map show_attribute (sd_attributes d))) (fold set_attr (sd_attributes d))"
    using d(9) by (intro reads_concat reads_attribute) blast
  have media: "reads (concat (map show_media (sd_media d))) (fold set_media_description (sd_media d))"
    using d(10) by (intro reads_concat reads_media) blast
  note all = reads_append [OF reads_version reads_append [OF reads_origin [OF d(1)] reads_append [OF name
    reads_append [OF info reads_append [OF uri reads_append [OF email reads_append [OF phone reads_append [OF conn
    reads_append [OF time reads_append [OF attr media]]]]]]]]]]
  then have "reads ((''v=0'' @ eol) @ show_origin (sd_origin d) @ (CHR ''s'' # CHR ''='' # sd_session_name d @ eol) @
     show_optional_line ''i='' (sd_session_information d) @ show_optional_line ''u='' (sd_uri d) @
     show_optional_line ''e='' (sd_email_address d) @ show_optional_line ''p='' (sd_phone_number d) @
     (case sd_connection_information d of Some c \<Rightarrow> show_connection c | None \<Rightarrow> []) @
     concat (map show_time (sd_time d)) @ concat (map show_attribute (sd_attributes d)) @
     concat (map show_media (sd_media d))) (\<lambda>x. sdp_update d x)"
    unfolding sdp_update_def .
  moreover have "sd_bandwidth_information d = []" using ok by (simp add: sdp_ok_def)
  ultimately show ?thesis by (simp add: show_session_def)
qed

lemma sdp_update_default: "sd_bandwidth_information d = [] \<Longrightarrow> sdp_update d (session_description_default local) = d"
  by (cases "sd_session_information d"; cases "sd_uri d"; cases "sd_email_address d"; cases "sd_phone_number d";
      cases "sd_connection_information d")
    (simp_all add: sdp_update_def session_description_default_def fold_sets opt_upd_def set_name_def set_origin_def
      set_information_def set_uri_def set_email_addr_def set_phone_def set_connection_def update_last_def)

lemma reads_parse: "sdp_ok d \<Longrightarrow> sdp_parse local (show_session d) = Ok d"
proof -
  assume "sdp_ok d"
  then have "parses (loopP sdp_body (session_description_default local)) (show_session d @ []) d []"
    by (intro readsD(2) [OF reads_session]) (use parse_end in \<open>simp_all add: sdp_update_default sdp_ok_def\<close>)
  then show ?thesis
    using parses_new by (fastforce simp: sdp_parse_def parse_sdp_def)
qed

text \<open>C36: A session description that is encoded and parsed again comes back unchanged, whatever the local
  address of the host that parses it, provided the text form can express its parts: texts of a line
  have no line break, words no white space, attribute names and formats are tokens, the repeat times
  are not negative, every media line has a format, and there are no media titles, port counts,
  application media or bandwidth lines, which the parser and the printer do not agree on.\<close>

theorem sdp_roundtrip:
  assumes "sdp_ok d" and "encode_session d = Ok body"
  shows "sdp_parse local body = Ok d"
  using assms reads_parse [of d local] by (simp add: encode_session_def)

definition sample_sdp :: session_description where
  "sample_sdp =
     \<lparr>sd_origin = \<lparr>og_user = ''-'', og_session_id = 7, og_session_version = 8, og_nettype = Nt_IN, og_addrtype = IP4,
        og_unicast_address = IpV4 10 0 0 1\<rparr>,
      sd_session_name = ''-'', sd_session_information = None, sd_uri = None, sd_email_address = None,
      sd_phone_number = None,
      sd_connection_information = Some \<lparr>ci_nettype = Nt_IN, ci_addrtype = IP4, ci_conection_address = IpV4 10 0 0 1\<rparr>,
      sd_bandwidth_information = [], sd_attributes = [],
      sd_time = [\<lparr>td_time_active = \<lparr>ta_start_time = 0, ta_stop_time = 0\<rparr>, td_repeat_times = []\<rparr>],
      sd_media = [\<lparr>md_media_type = M_Audio, md_proto = RTPAVP, md_port = 4000, md_number_of_ports = None,
        md_media_formats = [''0'', ''8''], md_title = None, md_connection_information = None,
        md_bandwidth_information = [],
        md_attributes = [\<lparr>at_name = ''rtpmap'', at_value = Some ''0 PCMU/8000''\<rparr>,
                         \<lparr>at_name = ''sendrecv'', at_value = None\<rparr>]\<rparr>]\<rparr>"

lemma sample_sdp_ok: "sdp_ok sample_sdp"
proof -
  have u: "line_text ''-''" "word_text ''-''" "line_text ''0 PCMU/8000''"
    by (simp_all add: line_text_def word_text_def is_newline_def is_ascii_whitespace_def byte_val_def is_ascii_def
        valid_utf8_ascii)
  have t: "token_text ''0''" "token_text ''8''" "token_text ''rtpmap''" "token_text ''sendrecv''"
    by (simp_all add: token_text_def sdp_is_token_def lookup_table_iff ALPHANUMERIC_def)
  show ?thesis
    by (simp add: sdp_ok_def sample_sdp_def origin_ok_def connection_ok_def media_ok_def attribute_ok_def
        opt_all_def u t)
qed

theorem sdp_roundtrip_witness:
  "sdp_parse (IpV4 127 0 0 1) (show_session sample_sdp) = Ok sample_sdp"
  using sdp_roundtrip [OF sample_sdp_ok] by (simp add: encode_session_def)

end
