(* ===== verification/Negotiator.thy ===== *)
theory Negotiator
  imports Sdp_Laws
begin

text \<open>
  Offer and answer (\<open>rssip-media/src/negotiator.rs\<close>, \<open>rssip-media/src/codec.rs\<close>): the negotiator's
  state, the offer made from parameters, the answer made from two offers, and the processing of an
  answer. The random session identifiers are arguments.
\<close>

section \<open>Types\<close>

record codec =
  cd_name :: bytes
  cd_clock_rate :: u32
  cd_payload_type :: u8
  cd_channels :: u16
  cd_sdp_fmtp_line :: "bytes option"

definition ULAW :: codec where
  "ULAW = \<lparr>cd_name = ''PCMU'', cd_clock_rate = 8000, cd_payload_type = 0, cd_channels = 1, cd_sdp_fmtp_line = None\<rparr>"

definition ALAW :: codec where
  "ALAW = \<lparr>cd_name = ''PCMA'', cd_clock_rate = 8000, cd_payload_type = 8, cd_channels = 1, cd_sdp_fmtp_line = None\<rparr>"

definition OPUS :: codec where
  "OPUS = \<lparr>cd_name = ''opus'', cd_clock_rate = 48000, cd_payload_type = 96, cd_channels = 2, cd_sdp_fmtp_line = None\<rparr>"

definition TELEPHONE_EVENT :: codec where
  "TELEPHONE_EVENT = \<lparr>cd_name = ''telephone-event'', cd_clock_rate = 8000, cd_payload_type = 101, cd_channels = 1,
     cd_sdp_fmtp_line = Some ''0-16''\<rparr>"

datatype negotiator_state = Ng_Initial | Ng_LocalOffer | Ng_RemoteOffer | Ng_Ready | Ng_Done

record negotiator =
  ng_remote_offer :: "session_description option"
  ng_local_offer :: "session_description option"
  ng_answer :: "session_description option"
  ng_state :: negotiator_state

record sdp_media_stream =
  ms_transport :: sdp_transport
  ms_media_type :: sdp_media_type
  ms_codecs :: "codec list"
  ms_port :: u16

record sdp_offer_params =
  op_origin_ip :: ip_addr
  op_direction :: direction
  op_media_streams :: "sdp_media_stream list"

definition offer_params_new :: "ip_addr \<Rightarrow> direction \<Rightarrow> sdp_offer_params" where
  "offer_params_new ip dir = \<lparr>op_origin_ip = ip, op_direction = dir, op_media_streams = []\<rparr>"

definition add_media_stream :: "sdp_media_stream \<Rightarrow> sdp_offer_params \<Rightarrow> sdp_offer_params" where
  "add_media_stream s p = p\<lparr>op_media_streams := op_media_streams p @ [s]\<rparr>"

definition media_stream_new :: "sdp_media_type \<Rightarrow> sdp_transport \<Rightarrow> u16 \<Rightarrow> sdp_media_stream" where
  "media_stream_new m t port = \<lparr>ms_transport = t, ms_media_type = m, ms_codecs = [], ms_port = port\<rparr>"

definition audio_stream :: "u16 \<Rightarrow> sdp_transport \<Rightarrow> sdp_media_stream" where
  "audio_stream port t = \<lparr>ms_transport = t, ms_media_type = M_Audio, ms_codecs = [], ms_port = port\<rparr>"

definition video_stream :: "u16 \<Rightarrow> sdp_transport \<Rightarrow> sdp_media_stream" where
  "video_stream port t = \<lparr>ms_transport = t, ms_media_type = M_Video, ms_codecs = [], ms_port = port\<rparr>"

definition with_codecs :: "codec list \<Rightarrow> sdp_media_stream \<Rightarrow> sdp_media_stream" where
  "with_codecs cs s = s\<lparr>ms_codecs := cs\<rparr>"

section \<open>State\<close>

definition negotiator_new :: negotiator where
  "negotiator_new = \<lparr>ng_remote_offer = None, ng_local_offer = None, ng_answer = None, ng_state = Ng_Initial\<rparr>"

definition with_local :: "session_description \<Rightarrow> negotiator" where
  "with_local d = \<lparr>ng_remote_offer = None, ng_local_offer = Some d, ng_answer = None, ng_state = Ng_LocalOffer\<rparr>"

definition with_remote :: "session_description \<Rightarrow> negotiator" where
  "with_remote d = \<lparr>ng_remote_offer = Some d, ng_local_offer = None, ng_answer = None, ng_state = Ng_RemoteOffer\<rparr>"

definition set_remote_offer :: "session_description \<Rightarrow> negotiator \<Rightarrow> (media_error, negotiator) res" where
  "set_remote_offer d n =
     (case ng_state n of
        Ng_Initial \<Rightarrow> Ok (n\<lparr>ng_state := Ng_RemoteOffer, ng_remote_offer := Some d\<rparr>)
      | Ng_LocalOffer \<Rightarrow> Ok (n\<lparr>ng_state := Ng_Ready, ng_remote_offer := Some d\<rparr>)
      | _ \<Rightarrow> Err ErrInvalidNegoState)"

definition set_local_offer :: "session_description \<Rightarrow> negotiator \<Rightarrow> (media_error, negotiator) res" where
  "set_local_offer d n =
     (case ng_state n of
        Ng_Initial \<Rightarrow> Ok (n\<lparr>ng_state := Ng_LocalOffer, ng_local_offer := Some d\<rparr>)
      | Ng_RemoteOffer \<Rightarrow> Ok (n\<lparr>ng_state := Ng_Ready, ng_local_offer := Some d\<rparr>)
      | _ \<Rightarrow> Err ErrInvalidNegoState)"

section \<open>The offer\<close>

definition rtpmap :: "bytes \<Rightarrow> attribute" where
  "rtpmap v = \<lparr>at_name = ''rtpmap'', at_value = Some v\<rparr>"

definition codec_attributes :: "codec \<Rightarrow> attribute list" where
  "codec_attributes c =
     (if cd_name c = ''PCMU'' then [rtpmap ''0 PCMU/8000'']
      else if cd_name c = ''PCMA'' then [rtpmap ''8 PCMA/8000'']
      else if cd_name c = ''opus'' then [rtpmap ''96 opus/48000/2'']
      else if cd_name c = ''telephone-event''
        then [rtpmap ''101 telephone-event/8000'', \<lparr>at_name = ''fmtp'', at_value = Some ''101 0-16''\<rparr>]
      else [rtpmap (show_word (cd_payload_type c) @ ''/'' @ cd_name c @ ''/'' @ show_word (cd_clock_rate c) @ ''/'' @
                    show_word (cd_channels c) @ ''/'')])"

definition media_of_stream :: "sdp_media_stream \<Rightarrow> media_description" where
  "media_of_stream s =
     \<lparr>md_media_type = ms_media_type s, md_proto = ms_transport s, md_port = ms_port s, md_number_of_ports = None,
      md_media_formats = map (\<lambda>c. show_word (cd_payload_type c)) (ms_codecs s), md_title = None,
      md_connection_information = None, md_bandwidth_information = [],
      md_attributes = concat (map codec_attributes (ms_codecs s))\<rparr>"

definition closing_attributes :: "direction \<Rightarrow> attribute list" where
  "closing_attributes dir =
     [\<lparr>at_name = ''ptime'', at_value = Some ''20''\<rparr>, \<lparr>at_name = ''maxptime'', at_value = Some ''150''\<rparr>,
      \<lparr>at_name = show_direction dir, at_value = None\<rparr>]"

text \<open>Only the last stream gets the packet times and the direction.\<close>

definition offer_media :: "sdp_offer_params \<Rightarrow> media_description list" where
  "offer_media p =
     (let ms = map media_of_stream (op_media_streams p) in
      case update_last (\<lambda>m. m\<lparr>md_attributes := md_attributes m @ closing_attributes (op_direction p)\<rparr>) ms of
        Some ms' \<Rightarrow> ms' | None \<Rightarrow> ms)"

definition create_offer ::
  "u64 \<Rightarrow> u64 \<Rightarrow> sdp_offer_params \<Rightarrow> negotiator \<Rightarrow> (media_error, session_description) res" where
  "create_offer session version p n =
     (if ng_state n = Ng_Initial \<or> ng_state n = Ng_RemoteOffer then
        (let addrtype = (if is_ipv4 (op_origin_ip p) then IP4 else IP6) in
         Ok \<lparr>sd_origin = \<lparr>og_user = ''-'', og_session_id = session, og_session_version = version,
               og_nettype = Nt_IN, og_addrtype = addrtype, og_unicast_address = op_origin_ip p\<rparr>,
             sd_session_name = ''-'', sd_session_information = None, sd_uri = None, sd_email_address = None,
             sd_phone_number = None,
             sd_connection_information =
               Some \<lparr>ci_nettype = Nt_IN, ci_addrtype = addrtype, ci_conection_address = op_origin_ip p\<rparr>,
             sd_bandwidth_information = [], sd_attributes = [],
             sd_time = [\<lparr>td_time_active = \<lparr>ta_start_time = 0, ta_stop_time = 0\<rparr>, td_repeat_times = []\<rparr>],
             sd_media = offer_media p\<rparr>)
      else Err ErrInvalidNegoState)"

section \<open>The answer\<close>

definition direction_names :: "bytes list" where
  "direction_names = [''recvonly'', ''sendrecv'', ''sendonly'', ''inactive'']"

fun find_direction :: "attribute list \<Rightarrow> bytes option" where
  "find_direction [] = None"
| "find_direction (a # as) = (if at_name a \<in> set direction_names then Some (at_name a) else find_direction as)"

text \<open>The direction to add to the local attributes: none when the remote side gives none. A name found
  by \<open>find_direction\<close> is one of the four, so the last branch is never reached.\<close>

definition answer_direction :: "bytes option \<Rightarrow> bytes option \<Rightarrow> (media_error, bytes option) res" where
  "answer_direction remote local =
     (case remote of
        None \<Rightarrow> Ok None
      | Some r \<Rightarrow>
          if r = ''sendonly'' then
            Ok (Some (if local = Some ''sendrecv'' \<or> local = Some ''recvonly'' then ''recvonly'' else ''inactive''))
          else if r = ''inactive'' then Ok (Some ''inactive'')
          else if r = ''recvonly'' then
            Ok (Some (if local = Some ''sendrecv'' \<or> local = Some ''sendonly'' then ''sendonly'' else ''inactive''))
          else if r = ''sendrecv'' then Ok (Some ''sendrecv'')
          else Panic)"

definition answer_attributes :: "bytes option \<Rightarrow> attribute list \<Rightarrow> attribute list" where
  "answer_attributes dir as =
     (case dir of
        Some d \<Rightarrow> filter (\<lambda>a. at_name a \<notin> set direction_names) as @ [\<lparr>at_name = d, at_value = None\<rparr>]
      | None \<Rightarrow> as)"

fun answer_formats :: "bytes list \<Rightarrow> bytes list \<Rightarrow> (media_error, bytes list) res" where
  "answer_formats remote [] = Ok []"
| "answer_formats remote (f # fs) =
     bind_res (map_err ErrParseInt (parse_u8 f)) (\<lambda>pt.
       if pt < 96
       then bind_res (answer_formats remote fs) (\<lambda>rest. Ok (if f \<in> set remote then f # rest else rest))
       else Panic)"

fun answer_media ::
  "(media_description \<times> media_description) list \<Rightarrow> (media_error, media_description list) res" where
  "answer_media [] = Ok []"
| "answer_media ((local, remote) # ms) =
     (if md_media_type local \<noteq> md_media_type remote then Panic
      else if md_proto local \<noteq> md_proto remote then Panic
      else if md_port remote = 0 \<or> md_port local = 0 then answer_media ms
      else
        bind_res (answer_direction (find_direction (md_attributes remote)) (find_direction (md_attributes local)))
          (\<lambda>dir.
        bind_res (answer_formats (md_media_formats remote) (md_media_formats local)) (\<lambda>formats.
        bind_res (answer_media ms) (\<lambda>rest.
          Ok (local\<lparr>md_media_formats := formats, md_attributes := answer_attributes dir (md_attributes local)\<rparr> # rest)))))"

definition create_answer :: "negotiator \<Rightarrow> (media_error, session_description) res \<times> negotiator" where
  "create_answer n =
     (if ng_state n \<noteq> Ng_Ready then (Err ErrInvalidNegoState, n)
      else
        (case (ng_remote_offer n, ng_local_offer n) of
           (Some remote, Some local) \<Rightarrow>
             (case answer_media (zip (sd_media local) (sd_media remote)) of
                Ok ms \<Rightarrow>
                  (let answer = local\<lparr>sd_media := ms, sd_time := sd_time remote\<rparr>
                   in (Ok answer, n\<lparr>ng_answer := Some answer, ng_state := Ng_Done\<rparr>))
              | Err e \<Rightarrow> (Err e, n)
              | Panic \<Rightarrow> (Panic, n)
              | OutOfFuel \<Rightarrow> (OutOfFuel, n))
         | _ \<Rightarrow> (Panic, n)))"

fun check_answer :: "(media_description \<times> media_description) list \<Rightarrow> (media_error, unit) res" where
  "check_answer [] = Ok ()"
| "check_answer ((local, remote) # ms) =
     (if md_media_type local \<noteq> md_media_type remote then Panic
      else if md_proto local \<noteq> md_proto remote then Panic
      else check_answer ms)"

definition process_answer :: "session_description \<Rightarrow> negotiator \<Rightarrow> (media_error, negotiator) res" where
  "process_answer answer n =
     (if ng_state n \<noteq> Ng_LocalOffer then Err ErrInvalidNegoState
      else
        (case ng_local_offer n of
           None \<Rightarrow> Panic
         | Some local \<Rightarrow>
             bind_res (check_answer (zip (sd_media local) (sd_media answer))) (\<lambda>u.
               Ok (n\<lparr>ng_answer := Some answer, ng_state := Ng_Done\<rparr>))))"

end
