(* ===== verification/Negotiator_Laws.thy ===== *)
theory Negotiator_Laws
  imports Negotiator
begin

text \<open>
  What the negotiation promises: its states always have the offers they need, offers survive the
  way to the peer, the answer takes up what both sides offered, and the direction of an answer
  against the one of RFC 3264.
\<close>

section \<open>States\<close>

inductive nego_reach :: "negotiator \<Rightarrow> bool" where
  new: "nego_reach negotiator_new"
| local: "nego_reach (with_local d)"
| remote: "nego_reach (with_remote d)"
| set_remote: "nego_reach n \<Longrightarrow> set_remote_offer d n = Ok n' \<Longrightarrow> nego_reach n'"
| set_local: "nego_reach n \<Longrightarrow> set_local_offer d n = Ok n' \<Longrightarrow> nego_reach n'"
| answer: "nego_reach n \<Longrightarrow> create_answer n = (r, n') \<Longrightarrow> nego_reach n'"
| process: "nego_reach n \<Longrightarrow> process_answer d n = Ok n' \<Longrightarrow> nego_reach n'"

text \<open>What each state has: the offers it is named after, both when it is ready, and an answer exactly
  when it is done.\<close>

definition nego_ok :: "negotiator \<Rightarrow> bool" where
  "nego_ok n \<longleftrightarrow>
     (ng_local_offer n \<noteq> None \<longleftrightarrow> ng_state n = Ng_LocalOffer \<or> ng_state n = Ng_Ready \<or> ng_state n = Ng_Done) \<and>
     (ng_state n = Ng_RemoteOffer \<or> ng_state n = Ng_Ready \<longrightarrow> ng_remote_offer n \<noteq> None) \<and>
     (ng_state n = Ng_Initial \<or> ng_state n = Ng_LocalOffer \<longrightarrow> ng_remote_offer n = None) \<and>
     (ng_answer n \<noteq> None \<longleftrightarrow> ng_state n = Ng_Done)"

lemma set_remote_ok: "nego_ok n \<Longrightarrow> set_remote_offer d n = Ok n' \<Longrightarrow> nego_ok n'"
  by (auto simp: set_remote_offer_def nego_ok_def split: negotiator_state.splits)

lemma set_local_ok: "nego_ok n \<Longrightarrow> set_local_offer d n = Ok n' \<Longrightarrow> nego_ok n'"
  by (auto simp: set_local_offer_def nego_ok_def split: negotiator_state.splits)

lemma create_answer_ok: "nego_ok n \<Longrightarrow> create_answer n = (r, n') \<Longrightarrow> nego_ok n'"
  by (auto simp: create_answer_def nego_ok_def Let_def split: if_splits option.splits res.splits)

lemma process_answer_ok: "nego_ok n \<Longrightarrow> process_answer d n = Ok n' \<Longrightarrow> nego_ok n'"
  by (auto simp: process_answer_def nego_ok_def bind_res_Ok_iff split: if_splits option.splits)

lemma reach_ok: "nego_reach n \<Longrightarrow> nego_ok n"
proof (induction rule: nego_reach.induct)
  case new
  show ?case by (simp add: nego_ok_def negotiator_new_def)
next
  case (local d)
  show ?case by (simp add: nego_ok_def with_local_def)
next
  case (remote d)
  show ?case by (simp add: nego_ok_def with_remote_def)
qed (blast intro: set_remote_ok set_local_ok create_answer_ok process_answer_ok)+

lemma find_direction_cases: "find_direction as = Some d \<Longrightarrow> d \<in> set direction_names"
  by (induction as) (auto split: if_splits)

lemma answer_direction_calm: "answer_direction (find_direction as) l \<noteq> Panic"
  using find_direction_cases [of as] by (auto simp: answer_direction_def direction_names_def split: option.split)

text \<open>The pairs of streams an answer can be made for without a panic.\<close>

definition answerable :: "media_description \<times> media_description \<Rightarrow> bool" where
  "answerable p \<longleftrightarrow> md_media_type (fst p) = md_media_type (snd p) \<and> md_proto (fst p) = md_proto (snd p) \<and>
     (md_port (fst p) = 0 \<or> md_port (snd p) = 0 \<or>
      (\<forall>f\<in>set (md_media_formats (fst p)). \<forall>pt. parse_u8 f = Ok pt \<longrightarrow> pt < 96))"

lemma bind_res_Panic_iff: "bind_res r f = Panic \<longleftrightarrow> r = Panic \<or> (\<exists>x. r = Ok x \<and> f x = Panic)"
  by (cases r) auto

lemma answer_formats_calm:
  "\<forall>f\<in>set fs. \<forall>pt. parse_u8 f = Ok pt \<longrightarrow> pt < 96 \<Longrightarrow> answer_formats remote fs \<noteq> Panic"
proof (induction fs)
  case (Cons f fs)
  show ?case
  proof (cases "parse_u8 f")
    case (Ok pt)
    with Cons show ?thesis by (cases "answer_formats remote fs") auto
  qed auto
qed simp

lemma answer_media_calm: "\<forall>p\<in>set ps. answerable p \<Longrightarrow> answer_media ps \<noteq> Panic"
proof (induction ps)
  case (Cons p ps)
  obtain l r where p: "p = (l, r)" by (cases p)
  show ?case
  proof (cases "md_port r = 0 \<or> md_port l = 0")
    case True
    with Cons p show ?thesis by (auto simp: answerable_def)
  next
    case False
    then have "answer_formats (md_media_formats r) (md_media_formats l) \<noteq> Panic"
      using Cons.prems p by (intro answer_formats_calm) (simp add: answerable_def)
    moreover have "answer_media ps \<noteq> Panic" using Cons by simp
    moreover have "md_media_type l = md_media_type r" "md_proto l = md_proto r"
      using Cons.prems p by (simp_all add: answerable_def)
    ultimately show ?thesis
      using False answer_direction_calm by (simp add: p bind_res_Panic_iff)
  qed
qed simp

definition same_kind :: "media_description \<times> media_description \<Rightarrow> bool" where
  "same_kind p \<longleftrightarrow> md_media_type (fst p) = md_media_type (snd p) \<and> md_proto (fst p) = md_proto (snd p)"

lemma check_answer_calm: "\<forall>p\<in>set ps. same_kind p \<Longrightarrow> check_answer ps = Ok ()"
  by (induction ps rule: check_answer.induct) (auto simp: same_kind_def)

text \<open>C37: The negotiation's states are consistent: however a negotiator was made and used, it has the
  local offer from the state after it was set on, the remote offer when it is in use, and an answer
  exactly when it is done. So neither \<open>expect\<close> can fail: an answer is made without a panic whenever the
  streams of the two sides correspond in type and transport and the local payload types are static,
  and an answer is processed whenever its streams correspond to those of the local offer.\<close>

theorem negotiation_consistent:
  assumes "nego_reach n"
  shows "nego_ok n \<and>
    (\<forall>l r. ng_local_offer n = Some l \<and> ng_remote_offer n = Some r \<and>
       (\<forall>p\<in>set (zip (sd_media l) (sd_media r)). answerable p) \<longrightarrow> fst (create_answer n) \<noteq> Panic) \<and>
    (\<forall>l (a :: session_description). ng_state n = Ng_LocalOffer \<and> ng_local_offer n = Some l \<and>
       (\<forall>p\<in>set (zip (sd_media l) (sd_media a)). same_kind p) \<longrightarrow>
       (\<exists>n'. process_answer a n = Ok n' \<and> ng_state n' = Ng_Done \<and> ng_answer n' = Some a))"
proof (intro conjI allI impI)
  show "nego_ok n" using assms by (rule reach_ok)
next
  fix l r
  assume "ng_local_offer n = Some l \<and> ng_remote_offer n = Some r \<and>
       (\<forall>p\<in>set (zip (sd_media l) (sd_media r)). answerable p)"
  then show "fst (create_answer n) \<noteq> Panic"
    using answer_media_calm [of "zip (sd_media l) (sd_media r)"]
    by (cases "answer_media (zip (sd_media l) (sd_media r))") (auto simp: create_answer_def Let_def)
next
  fix l and a :: session_description
  assume "ng_state n = Ng_LocalOffer \<and> ng_local_offer n = Some l \<and>
       (\<forall>p\<in>set (zip (sd_media l) (sd_media a)). same_kind p)"
  then show "\<exists>n'. process_answer a n = Ok n' \<and> ng_state n' = Ng_Done \<and> ng_answer n' = Some a"
    by (simp add: process_answer_def check_answer_calm)
qed

lemma sample_sdp_answerable:
  "\<forall>p\<in>set (zip (sd_media sample_sdp) (sd_media sample_sdp)). same_kind p"
  by (simp add: sample_sdp_def same_kind_def)

theorem negotiation_consistent_witness:
  "\<exists>n. process_answer sample_sdp (with_local sample_sdp) = Ok n \<and> ng_state n = Ng_Done \<and>
     nego_ok (with_local sample_sdp)"
proof -
  let ?n = "with_local sample_sdp"
  have n: "ng_state ?n = Ng_LocalOffer \<and> ng_local_offer ?n = Some sample_sdp" by (simp add: with_local_def)
  from negotiation_consistent [OF nego_reach.local [of sample_sdp]]
  have "nego_ok ?n" and "\<exists>n'. process_answer sample_sdp ?n = Ok n' \<and> ng_state n' = Ng_Done \<and> ng_answer n' = Some sample_sdp"
    using n sample_sdp_answerable by blast+
  then show ?thesis by blast
qed

section \<open>Offers\<close>

text \<open>Parameters whose offer the text form can express.\<close>

definition codec_ok :: "codec \<Rightarrow> bool" where
  "codec_ok c \<longleftrightarrow> (\<forall>b\<in>set (cd_name c). is_ascii b \<and> \<not> is_newline b)"

definition params_ok :: "sdp_offer_params \<Rightarrow> bool" where
  "params_ok p \<longleftrightarrow> wf_ip (op_origin_ip p) \<and>
     (\<forall>s\<in>set (op_media_streams p). ms_media_type s \<noteq> M_Application \<and> ms_codecs s \<noteq> [] \<and>
        (\<forall>c\<in>set (ms_codecs s). codec_ok c))"

lemma digits_are_tokens: "\<forall>n\<in>set [48..<58]. lookup_table [ALPHANUMERIC, SDP_TOKEN] ! n"
  by code_simp

lemma show_nat_token: "token_text (show_nat n)"
proof -
  have "sdp_is_token b" if "is_ascii_digit b" for b
  proof -
    have "byte_val b \<in> set [48..<58]"
      using that unfolding set_upt atLeastLessThan_iff by (simp add: is_ascii_digit_def)
    then show ?thesis using digits_are_tokens unfolding sdp_is_token_def by blast
  qed
  then show ?thesis using show_nat_digits [of n] by (simp add: token_text_def)
qed

lemma line_text_ascii: "\<forall>b\<in>set s. is_ascii b \<and> \<not> is_newline b \<Longrightarrow> line_text s"
  by (simp add: line_text_def valid_utf8_ascii)

lemma show_nat_line: "\<forall>b\<in>set (show_nat n). is_ascii b \<and> \<not> is_newline b"
  using show_nat_digits [of n] by (auto simp: is_ascii_def is_newline_def is_ascii_digit_def byte_val_def)

lemma attribute_texts:
  "token_text ''rtpmap''" "token_text ''fmtp''" "token_text ''ptime''" "token_text ''maxptime''"
  "token_text (show_direction dir)"
  by (simp_all add: token_text_def sdp_is_token_def lookup_table_iff ALPHANUMERIC_def)
    (cases dir; simp add: token_text_def sdp_is_token_def lookup_table_iff ALPHANUMERIC_def)

lemma static_lines:
  "line_text ''0 PCMU/8000''" "line_text ''8 PCMA/8000''" "line_text ''96 opus/48000/2''"
  "line_text ''101 telephone-event/8000''" "line_text ''101 0-16''" "line_text ''20''" "line_text ''150''"
  by (rule line_text_ascii, simp add: is_ascii_def is_newline_def byte_val_def)+

lemma codec_line:
  assumes "codec_ok c"
  shows "line_text (show_nat i @ ''/'' @ cd_name c @ ''/'' @ show_nat j @ ''/'' @ show_nat k @ ''/'')"
proof (rule line_text_ascii)
  have "is_ascii CHR ''/'' \<and> \<not> is_newline CHR ''/''" by (simp add: is_ascii_def is_newline_def byte_val_def)
  then show "\<forall>b\<in>set (show_nat i @ ''/'' @ cd_name c @ ''/'' @ show_nat j @ ''/'' @ show_nat k @ ''/'').
      is_ascii b \<and> \<not> is_newline b"
    using assms show_nat_line by (simp add: codec_ok_def ball_Un)
qed

lemma codec_attributes_ok: "codec_ok c \<Longrightarrow> \<forall>a\<in>set (codec_attributes c). attribute_ok a"
  using codec_line by (simp add: codec_attributes_def attribute_ok_def rtpmap_def opt_all_def attribute_texts static_lines)

lemma closing_attributes_ok: "\<forall>a\<in>set (closing_attributes dir). attribute_ok a"
  by (simp add: closing_attributes_def attribute_ok_def opt_all_def attribute_texts static_lines)

lemma media_of_stream_ok:
  assumes "ms_media_type s \<noteq> M_Application" and "ms_codecs s \<noteq> []" and "\<forall>c\<in>set (ms_codecs s). codec_ok c"
  shows "media_ok (media_of_stream s)"
  using assms codec_attributes_ok show_nat_token
  by (auto simp: media_ok_def media_of_stream_def opt_all_def)

lemma offer_media_ok: "params_ok p \<Longrightarrow> m \<in> set (offer_media p) \<Longrightarrow> media_ok m"
proof -
  assume p: "params_ok p" and m: "m \<in> set (offer_media p)"
  have streams: "\<forall>m\<in>set (map media_of_stream (op_media_streams p)). media_ok m"
    using p media_of_stream_ok by (auto simp: params_ok_def)
  have more: "media_ok (m\<lparr>md_attributes := md_attributes m @ closing_attributes dir\<rparr>)" if "media_ok m" for m dir
    using that closing_attributes_ok by (auto simp: media_ok_def)
  show ?thesis
  proof (cases "op_media_streams p" rule: rev_cases)
    case Nil
    then show ?thesis using m by (simp add: offer_media_def update_last_def)
  next
    case (snoc ss s)
    then show ?thesis using m streams more by (auto simp: offer_media_def)
  qed
qed

lemma dash_texts: "line_text ''-''" "word_text ''-''"
  by (simp_all add: line_text_def word_text_def is_newline_def is_ascii_whitespace_def byte_val_def is_ascii_def
      valid_utf8_ascii)

lemma create_offer_ok: "params_ok p \<Longrightarrow> create_offer sess ver p n = Ok d \<Longrightarrow> sdp_ok d"
  using offer_media_ok dash_texts
  by (auto simp: create_offer_def Let_def sdp_ok_def origin_ok_def connection_ok_def opt_all_def params_ok_def
      split: if_splits)

text \<open>An offer reaches the peer as it was made: the text of an offer made from parameters parses, on any
  host, into the offer itself, when every stream has a codec and is not of the application type, the
  codec names are ASCII without line breaks, and the origin is an address. It is made in exactly two
  states, and has one media description per stream, in order, with the payload types of its codecs.\<close>

theorem offer_survives_the_wire:
  assumes "params_ok p" and "create_offer sess ver p n = Ok d" and "encode_session d = Ok body"
  shows "sdp_parse host body = Ok d \<and> (ng_state n = Ng_Initial \<or> ng_state n = Ng_RemoteOffer) \<and>
    map md_media_formats (sd_media d) =
      map (\<lambda>s. map (\<lambda>c. show_word (cd_payload_type c)) (ms_codecs s)) (op_media_streams p) \<and>
    map md_port (sd_media d) = map ms_port (op_media_streams p)"
proof -
  have "sd_media d = offer_media p" and st: "ng_state n = Ng_Initial \<or> ng_state n = Ng_RemoteOffer"
    using assms(2) by (auto simp: create_offer_def Let_def split: if_splits)
  moreover have "map md_media_formats (offer_media p) =
      map (\<lambda>s. map (\<lambda>c. show_word (cd_payload_type c)) (ms_codecs s)) (op_media_streams p) \<and>
    map md_port (offer_media p) = map ms_port (op_media_streams p)"
    by (cases "op_media_streams p" rule: rev_cases) (simp_all add: offer_media_def update_last_def media_of_stream_def)
  moreover have "sdp_parse host body = Ok d"
    using assms(3) reads_parse [OF create_offer_ok [OF assms(1,2)]] by (simp add: encode_session_def)
  ultimately show ?thesis by simp
qed

definition sample_params :: sdp_offer_params where
  "sample_params = add_media_stream (with_codecs [ULAW, ALAW] (audio_stream 34391 RTPAVP))
     (offer_params_new (IpV4 127 0 0 1) SendRecv)"

lemma sample_params_ok: "params_ok sample_params"
  by (simp add: params_ok_def sample_params_def add_media_stream_def with_codecs_def audio_stream_def
      offer_params_new_def codec_ok_def ULAW_def ALAW_def is_ascii_def is_newline_def byte_val_def)

theorem offer_survives_the_wire_witness:
  "\<exists>d. create_offer 1 2 sample_params negotiator_new = Ok d \<and> sdp_parse (IpV4 10 0 0 1) (show_session d) = Ok d \<and>
     map md_media_formats (sd_media d) = [[''0'', ''8'']]"
proof -
  obtain d where d: "create_offer 1 2 sample_params negotiator_new = Ok d"
    by (simp add: create_offer_def negotiator_new_def Let_def)
  have "show_nat 0 = ''0''" "show_nat 8 = ''8''" by code_simp+
  then show ?thesis
    using offer_survives_the_wire [OF sample_params_ok d, of "show_session d" "IpV4 10 0 0 1"] d
    by (simp add: encode_session_def sample_params_def add_media_stream_def with_codecs_def audio_stream_def
        offer_params_new_def ULAW_def ALAW_def)
qed

section \<open>Answers\<close>

text \<open>The pairs of streams that are in use on both sides.\<close>

definition open_pairs ::
  "(media_description \<times> media_description) list \<Rightarrow> (media_description \<times> media_description) list" where
  "open_pairs ps = filter (\<lambda>(l, r). md_port l \<noteq> 0 \<and> md_port r \<noteq> 0) ps"

definition common_formats :: "media_description \<times> media_description \<Rightarrow> bytes list" where
  "common_formats p = filter (\<lambda>f. f \<in> set (md_media_formats (snd p))) (md_media_formats (fst p))"

lemma answer_formats_Ok:
  "answer_formats remote fs = Ok gs \<Longrightarrow>
     gs = filter (\<lambda>f. f \<in> set remote) fs \<and> (\<forall>f\<in>set fs. \<exists>pt. parse_u8 f = Ok pt \<and> pt < 96)"
  by (induction fs arbitrary: gs) (auto simp: bind_res_Ok_iff split: if_splits)

lemma answer_media_Ok:
  "answer_media ps = Ok ms \<Longrightarrow>
     map md_media_formats ms = map common_formats (open_pairs ps) \<and>
     map md_port ms = map (md_port \<circ> fst) (open_pairs ps) \<and>
     (\<forall>(l, r)\<in>set (open_pairs ps). \<forall>f\<in>set (md_media_formats l). \<exists>pt. parse_u8 f = Ok pt \<and> pt < 96) \<and>
     (\<forall>p\<in>set ps. md_media_type (fst p) = md_media_type (snd p) \<and> md_proto (fst p) = md_proto (snd p))"
  by (induction ps arbitrary: ms rule: answer_media.induct)
    (auto simp: open_pairs_def common_formats_def bind_res_Ok_iff split: if_splits dest: answer_formats_Ok)

text \<open>C38: What an answer is. It is the local offer, with the time lines of the remote one, whose streams are
  the pairs of corresponding streams with a port on both sides, in order: each keeps its local port
  and those of its formats that the remote side offered too, in the local order; all formats of these
  streams are payload types below 96. A stream that either side has closed is left out, so the answer
  has fewer streams than the offer then. The negotiation is done, and this is its answer.\<close>

theorem answer_meets_both_offers:
  assumes "create_answer n = (Ok a, n')"
  shows "\<exists>l r. ng_local_offer n = Some l \<and> ng_remote_offer n = Some r \<and>
    a = l\<lparr>sd_media := sd_media a, sd_time := sd_time r\<rparr> \<and>
    map md_media_formats (sd_media a) = map common_formats (open_pairs (zip (sd_media l) (sd_media r))) \<and>
    map md_port (sd_media a) = map (md_port \<circ> fst) (open_pairs (zip (sd_media l) (sd_media r))) \<and>
    (\<forall>m\<in>set (sd_media a). \<forall>f\<in>set (md_media_formats m). \<exists>pt. parse_u8 f = Ok pt \<and> pt < 96) \<and>
    ng_state n' = Ng_Done \<and> ng_answer n' = Some a"
proof -
  obtain l r ms where n: "ng_local_offer n = Some l" "ng_remote_offer n = Some r"
    and ms: "answer_media (zip (sd_media l) (sd_media r)) = Ok ms" and a: "a = l\<lparr>sd_media := ms, sd_time := sd_time r\<rparr>"
    and n': "n' = n\<lparr>ng_answer := Some a, ng_state := Ng_Done\<rparr>"
    using assms by (auto simp: create_answer_def Let_def split: if_splits option.splits res.splits)
  note spec = answer_media_Ok [OF ms]
  have "\<exists>pt. parse_u8 f = Ok pt \<and> pt < 96" if "m \<in> set ms" and f: "f \<in> set (md_media_formats m)" for m f
  proof -
    have "md_media_formats m \<in> set (map common_formats (open_pairs (zip (sd_media l) (sd_media r))))"
      using spec that(1) by (metis image_eqI image_set)
    then obtain p where "p \<in> set (open_pairs (zip (sd_media l) (sd_media r)))" and "f \<in> set (md_media_formats (fst p))"
      using f by (auto simp: common_formats_def)
    then show ?thesis using spec by fastforce
  qed
  with n n' a spec show ?thesis by simp
qed

theorem answer_meets_both_offers_witness:
  "\<exists>n a. set_local_offer sample_sdp (with_remote sample_sdp) = Ok n \<and> fst (create_answer n) = Ok a \<and>
     map md_media_formats (sd_media a) = [[''0'', ''8'']]"
proof -
  obtain n where n: "set_local_offer sample_sdp (with_remote sample_sdp) = Ok n"
    by (simp add: set_local_offer_def with_remote_def)
  have "parse_u8 ''0'' = Ok 0" "parse_u8 ''8'' = Ok 8" by code_simp+
  then obtain ms where "answer_media (zip (sd_media sample_sdp) (sd_media sample_sdp)) = Ok ms"
    by (auto simp: sample_sdp_def direction_names_def answer_direction_def)
  then obtain a n' where a: "create_answer n = (Ok a, n')"
    using n by (auto simp: create_answer_def set_local_offer_def with_remote_def Let_def)
  from answer_meets_both_offers [OF a] n a show ?thesis
    by (auto simp: set_local_offer_def with_remote_def sample_sdp_def open_pairs_def common_formats_def)
qed

text \<open>The answer's direction in RFC 3264, section 6.1: the answerer sends what it is willing to send and the
  offerer to receive, and receives what the offerer is willing to send.\<close>

definition sends :: "bytes \<Rightarrow> bool" where
  "sends d \<longleftrightarrow> d = ''sendrecv'' \<or> d = ''sendonly''"

definition receives :: "bytes \<Rightarrow> bool" where
  "receives d \<longleftrightarrow> d = ''sendrecv'' \<or> d = ''recvonly''"

definition rfc_direction :: "bytes \<Rightarrow> bytes \<Rightarrow> bytes" where
  "rfc_direction remote local =
     (if sends local \<and> receives remote
      then (if receives local \<and> sends remote then ''sendrecv'' else ''sendonly'')
      else (if receives local \<and> sends remote then ''recvonly'' else ''inactive''))"



text \<open>The formats of an offer made from parameters are the payload types of its codecs.\<close>

definition payload_text :: "codec \<Rightarrow> bytes" where
  "payload_text c = show_word (cd_payload_type c)"

lemma offered_formats:
  "answer_formats remote (map payload_text cs) =
     (if \<forall>c\<in>set cs. cd_payload_type c < 96 then Ok (filter (\<lambda>f. f \<in> set remote) (map payload_text cs)) else Panic)"
proof (induction cs)
  case (Cons c cs)
  have "parse_u8 (payload_text c) = Ok (cd_payload_type c)" by (simp add: payload_text_def)
  with Cons show ?case by auto
qed simp

lemma offered_media_no_error:
  "\<forall>p\<in>set ps. \<exists>cs. md_media_formats (fst p) = map payload_text cs \<Longrightarrow>
     answer_media ps = Panic \<or> (\<exists>ms. answer_media ps = Ok ms)"
proof (induction ps)
  case (Cons p ps)
  obtain l r where p: "p = (l, r)" by (cases p)
  obtain cs where cs: "md_media_formats l = map payload_text cs" using Cons.prems p by auto
  have rest: "answer_media ps = Panic \<or> (\<exists>ms. answer_media ps = Ok ms)" using Cons by simp
  obtain dir where dir: "answer_direction (find_direction (md_attributes r)) (find_direction (md_attributes l)) = Ok dir"
    using find_direction_cases [of "md_attributes r"]
    by (cases "find_direction (md_attributes r)") (auto simp: answer_direction_def direction_names_def)
  show ?case
    using rest by (auto simp: p cs dir offered_formats)
qed simp

lemma offered_media_dynamic:
  assumes "\<forall>p\<in>set ps. \<exists>cs. md_media_formats (fst p) = map payload_text cs"
    and "p \<in> set (open_pairs ps)" and "payload_text c \<in> set (md_media_formats (fst p))" and "96 \<le> cd_payload_type c"
  shows "answer_media ps = Panic"
proof (rule ccontr)
  assume "answer_media ps \<noteq> Panic"
  then obtain ms where "answer_media ps = Ok ms" using offered_media_no_error [OF assms(1)] by blast
  from answer_media_Ok [OF this] assms(2,3) obtain pt where "parse_u8 (payload_text c) = Ok pt" "pt < 96" by fastforce
  with assms(4) show False by (auto simp: payload_text_def)
qed

lemma offered_media: "m \<in> set (offer_media p) \<Longrightarrow> \<exists>s\<in>set (op_media_streams p). md_media_formats m = map payload_text (ms_codecs s) \<and> md_port m = ms_port s"
  by (cases "op_media_streams p" rule: rev_cases)
    (auto simp: offer_media_def update_last_def media_of_stream_def payload_text_def [abs_def])

text \<open>A side that offers a dynamic payload type on a stream in use cannot answer: the answer to a remote
  offer, made from a local offer with such a codec (the crate's own Opus and telephone-event are), panics,
  whether or not the remote side offers the codec. With static codecs only it does not.\<close>

theorem dynamic_codec_cannot_answer:
  assumes "create_offer sess ver p n0 = Ok l" and "ng_state n = Ng_Ready"
    and "ng_local_offer n = Some l" and "ng_remote_offer n = Some r"
  shows "((\<exists>(m, m')\<in>set (open_pairs (zip (sd_media l) (sd_media r))). \<exists>c. 96 \<le> cd_payload_type c \<and>
            payload_text c \<in> set (md_media_formats m)) \<longrightarrow> fst (create_answer n) = Panic) \<and>
    ((\<forall>s\<in>set (op_media_streams p). \<forall>c\<in>set (ms_codecs s). cd_payload_type c < 96) \<and>
       (\<forall>(m, m')\<in>set (zip (sd_media l) (sd_media r)). md_media_type m = md_media_type m' \<and> md_proto m = md_proto m') \<longrightarrow>
       (\<exists>a. fst (create_answer n) = Ok a))"
proof -
  let ?ps = "zip (sd_media l) (sd_media r)"
  have l: "sd_media l = offer_media p"
    using assms(1) by (auto simp: create_offer_def Let_def split: if_splits)
  have made: "\<exists>cs. md_media_formats (fst q) = map payload_text cs" if "q \<in> set ?ps" for q
    using that offered_media l by (metis prod.collapse set_zip_leftD)
  have panic: "fst (create_answer n) = Panic" if "answer_media ?ps = Panic"
    using that assms by (simp add: create_answer_def)
  have ok: "\<exists>a. fst (create_answer n) = Ok a" if "answer_media ?ps = Ok ms" for ms
    using that assms by (simp add: create_answer_def Let_def)
  have "answer_media ?ps \<noteq> Panic"
    if static: "\<forall>s\<in>set (op_media_streams p). \<forall>c\<in>set (ms_codecs s). cd_payload_type c < 96"
      and same: "\<forall>(m, m')\<in>set ?ps. md_media_type m = md_media_type m' \<and> md_proto m = md_proto m'"
  proof (rule answer_media_calm, rule ballI)
    fix q assume q: "q \<in> set ?ps"
    then obtain s where "s \<in> set (op_media_streams p)" "md_media_formats (fst q) = map payload_text (ms_codecs s)"
      using offered_media l by (metis prod.collapse set_zip_leftD)
    then have "\<forall>f\<in>set (md_media_formats (fst q)). \<forall>pt. parse_u8 f = Ok pt \<longrightarrow> pt < 96"
      using static by (auto simp: payload_text_def)
    with same q show "answerable q" by (cases q) (auto simp: answerable_def)
  qed
  then show ?thesis
    using offered_media_dynamic [of ?ps] offered_media_no_error [of ?ps] made panic ok by fastforce
qed

theorem dynamic_codec_cannot_answer_witness:
  "\<exists>l n. create_offer 1 2 (add_media_stream (with_codecs [ULAW, TELEPHONE_EVENT] (audio_stream 4000 RTPAVP))
       (offer_params_new (IpV4 127 0 0 1) SendRecv)) (with_remote sample_sdp) = Ok l \<and>
     set_local_offer l (with_remote sample_sdp) = Ok n \<and> fst (create_answer n) = Panic"
proof -
  let ?p = "add_media_stream (with_codecs [ULAW, TELEPHONE_EVENT] (audio_stream 4000 RTPAVP))
       (offer_params_new (IpV4 127 0 0 1) SendRecv)"
  obtain l where l: "create_offer 1 2 ?p (with_remote sample_sdp) = Ok l"
    by (simp add: create_offer_def with_remote_def Let_def)
  obtain n where n: "set_local_offer l (with_remote sample_sdp) = Ok n"
    by (simp add: set_local_offer_def with_remote_def)
  then have st: "ng_state n = Ng_Ready" "ng_local_offer n = Some l" "ng_remote_offer n = Some sample_sdp"
    by (auto simp: set_local_offer_def with_remote_def)
  have "sd_media l = offer_media ?p" using l by (auto simp: create_offer_def with_remote_def Let_def)
  then have "\<exists>(m, m')\<in>set (open_pairs (zip (sd_media l) (sd_media sample_sdp))). \<exists>c. 96 \<le> cd_payload_type c \<and>
            payload_text c \<in> set (md_media_formats m)"
    by (auto simp: open_pairs_def sample_sdp_def offer_media_def add_media_stream_def with_codecs_def
        audio_stream_def offer_params_new_def update_last_def media_of_stream_def payload_text_def
        TELEPHONE_EVENT_def intro: exI [of _ TELEPHONE_EVENT])
  then have "fst (create_answer n) = Panic"
    using dynamic_codec_cannot_answer [OF l st] by blast
  with l n show ?thesis by blast
qed

section \<open>End to end\<close>

definition answer_of :: "media_description \<times> media_description \<Rightarrow> media_description \<Rightarrow> bool" where
  "answer_of p m \<longleftrightarrow> (\<exists>dir. (dir = None \<or> (\<exists>d\<in>set direction_names. dir = Some d)) \<and>
     m = (fst p)\<lparr>md_media_formats := common_formats p, md_attributes := answer_attributes dir (md_attributes (fst p))\<rparr>)"

lemma answer_direction_named:
  "answer_direction r l = Ok dir \<Longrightarrow> dir = None \<or> (\<exists>d\<in>set direction_names. dir = Some d)"
  by (auto simp: answer_direction_def direction_names_def split: option.splits if_splits)

lemma answer_ofI:
  "answer_direction r l = Ok dir \<Longrightarrow> fs = common_formats (m, m') \<Longrightarrow>
     answer_of (m, m') (m\<lparr>md_media_formats := fs, md_attributes := answer_attributes dir (md_attributes m)\<rparr>)"
  using answer_direction_named [of r l dir] unfolding answer_of_def by (intro exI [of _ dir]) simp

lemma answer_media_each: "answer_media ps = Ok ms \<Longrightarrow> list_all2 answer_of (open_pairs ps) ms"
  by (induction ps arbitrary: ms rule: answer_media.induct)
    (auto simp: open_pairs_def bind_res_Ok_iff common_formats_def split: if_splits
      dest!: answer_formats_Ok intro!: answer_ofI)

lemma direction_token: "d \<in> set direction_names \<Longrightarrow> token_text d"
  using attribute_texts(5) [of SendRecv] attribute_texts(5) [of SendOnly] attribute_texts(5) [of RecvOnly]
    attribute_texts(5) [of Inactive]
  by (auto simp: direction_names_def)

lemma answer_of_ok: "answer_of (l, r) m \<Longrightarrow> media_ok l \<Longrightarrow> common_formats (l, r) \<noteq> [] \<Longrightarrow> media_ok m"
proof -
  assume m: "answer_of (l, r) m" and l: "media_ok l" and some: "common_formats (l, r) \<noteq> []"
  obtain dir where dir: "dir = None \<or> (\<exists>d\<in>set direction_names. dir = Some d)"
    and m_eq: "m = l\<lparr>md_media_formats := common_formats (l, r), md_attributes := answer_attributes dir (md_attributes l)\<rparr>"
    using m by (auto simp: answer_of_def)
  have "attribute_ok \<lparr>at_name = d, at_value = None\<rparr>" if "d \<in> set direction_names" for d
    using direction_token [OF that] by (simp add: attribute_ok_def opt_all_def)
  then have "\<forall>a\<in>set (answer_attributes dir (md_attributes l)). attribute_ok a"
    using l dir by (cases dir) (simp_all add: answer_attributes_def media_ok_def ball_Un)
  moreover have "\<forall>s\<in>set (common_formats (l, r)). token_text s"
    using l by (simp add: common_formats_def media_ok_def)
  ultimately show ?thesis using l some by (simp add: media_ok_def m_eq)
qed

text \<open>Streams that two offers can agree on: the same type and transport, both in use, with a payload type in
  common, and only static ones on the local side.\<close>

definition agreeable :: "media_description \<times> media_description \<Rightarrow> bool" where
  "agreeable p \<longleftrightarrow> same_kind p \<and> md_port (fst p) \<noteq> 0 \<and> md_port (snd p) \<noteq> 0 \<and> common_formats p \<noteq> [] \<and>
     (\<forall>f\<in>set (md_media_formats (fst p)). \<exists>pt. parse_u8 f = Ok pt \<and> pt < 96)"

lemma static_answer_formats:
  "\<forall>f\<in>set fs. \<exists>pt. parse_u8 f = Ok pt \<and> pt < 96 \<Longrightarrow> answer_formats remote fs = Ok (filter (\<lambda>f. f \<in> set remote) fs)"
  by (induction fs) auto

lemma agreeable_answer:
  assumes "\<forall>p\<in>set ps. agreeable p" shows "open_pairs ps = ps" and "\<exists>ms. answer_media ps = Ok ms"
proof -
  show "open_pairs ps = ps"
    unfolding open_pairs_def by (rule filter_True) (use assms in \<open>auto simp: agreeable_def\<close>)
  show "\<exists>ms. answer_media ps = Ok ms"
    using assms
  proof (induction ps)
    case (Cons p ps)
    obtain l r where p: "p = (l, r)" by (cases p)
    obtain dir where "answer_direction (find_direction (md_attributes r)) (find_direction (md_attributes l)) = Ok dir"
      using find_direction_cases [of "md_attributes r"]
      by (cases "find_direction (md_attributes r)") (auto simp: answer_direction_def direction_names_def)
    with Cons show ?case
      by (auto simp: p agreeable_def same_kind_def static_answer_formats)
  qed simp
qed

lemma answer_is_ok:
  assumes "\<forall>p\<in>set (zip (sd_media l) (sd_media r)). agreeable p" and "sdp_ok l" and "sdp_ok r"
    and "answer_media (zip (sd_media l) (sd_media r)) = Ok ms"
  shows "sdp_ok (l\<lparr>sd_media := ms, sd_time := sd_time r\<rparr>)"
proof -
  have "media_ok m" if m: "m \<in> set ms" for m
  proof -
    have each: "list_all2 answer_of (zip (sd_media l) (sd_media r)) ms"
      using answer_media_each [OF assms(4)] agreeable_answer(1) [OF assms(1)] by simp
    obtain i where i: "i < length ms" "m = ms ! i" using m by (auto simp: in_set_conv_nth)
    then have len: "i < length (zip (sd_media l) (sd_media r))"
      using list_all2_lengthD [OF each] by simp
    define p where "p = zip (sd_media l) (sd_media r) ! i"
    have p: "p \<in> set (zip (sd_media l) (sd_media r))" "answer_of p m"
      using nth_mem [OF len] list_all2_nthD2 [OF each, of i] i by (simp_all add: p_def)
    obtain x y where xy: "p = (x, y)" by (cases p)
    then have "x \<in> set (sd_media l)" using p(1) by (auto dest: set_zip_leftD)
    then have "media_ok x" using assms(2) by (simp add: sdp_ok_def)
    moreover have "common_formats (x, y) \<noteq> []" using assms(1) p(1) xy by (auto simp: agreeable_def)
    ultimately show ?thesis using p(2) xy answer_of_ok by blast
  qed
  then show ?thesis using assms(2,3) by (simp add: sdp_ok_def)
qed

text \<open>C35: The negotiation works from end to end, over the wire. The offerer's text is parsed by the
  other side, which sets it as the remote offer, sets an offer of its own and makes the answer; its text is parsed by the offerer, which processes
  it. When both offers are well-formed and their streams agreeable, both ends are done with the same
  answer, and it has, stream by stream, the answerer's formats that the offerer offered too.\<close>

theorem offer_answer_end_to_end:
  assumes "sdp_ok offer" and "sdp_ok own" and "length (sd_media own) = length (sd_media offer)"
    and "\<forall>p\<in>set (zip (sd_media own) (sd_media offer)). agreeable p"
  shows "\<exists>a1 b1 b2 answer b3 a2.
    set_local_offer offer negotiator_new = Ok a1 \<and>
    bind_res (sdp_parse host_b (show_session offer)) (\<lambda>o'. set_remote_offer o' negotiator_new) = Ok b1 \<and>
    set_local_offer own b1 = Ok b2 \<and> create_answer b2 = (Ok answer, b3) \<and>
    bind_res (sdp_parse host_a (show_session answer)) (\<lambda>x. process_answer x a1) = Ok a2 \<and>
    ng_state a2 = Ng_Done \<and> ng_state b3 = Ng_Done \<and> ng_answer a2 = Some answer \<and> ng_answer b3 = Some answer \<and>
    map md_media_formats (sd_media answer) = map common_formats (zip (sd_media own) (sd_media offer))"
proof -
  let ?ps = "zip (sd_media own) (sd_media offer)"
  obtain ms where ms: "answer_media ?ps = Ok ms" using agreeable_answer(2) [OF assms(4)] by blast
  let ?answer = "own\<lparr>sd_media := ms, sd_time := sd_time offer\<rparr>"
  have each: "list_all2 answer_of ?ps ms"
    using answer_media_each [OF ms] agreeable_answer(1) [OF assms(4)] by simp
  have formats: "map md_media_formats ms = map common_formats ?ps"
    using answer_media_Ok [OF ms] agreeable_answer(1) [OF assms(4)] by simp
  have kinds: "same_kind p" if p: "p \<in> set (zip (sd_media offer) ms)" for p
  proof -
    obtain i where i: "i < length (sd_media offer)" "i < length ms" "p = (sd_media offer ! i, ms ! i)"
      using p unfolding in_set_zip by (metis prod.collapse)
    have "answer_of (?ps ! i) (ms ! i)"
      using list_all2_nthD2 [OF each i(2)] .
    moreover have "?ps ! i = (sd_media own ! i, sd_media offer ! i)" using i assms(3) by simp
    moreover have "agreeable (?ps ! i)" using assms(3,4) i by (auto simp: set_zip)
    ultimately show ?thesis using i by (auto simp: answer_of_def agreeable_def same_kind_def)
  qed
  have home: "sdp_parse host_a (show_session ?answer) = Ok ?answer"
    by (rule reads_parse [OF answer_is_ok [OF assms(4,2,1) ms]])
  have there: "sdp_parse host_b (show_session offer) = Ok offer" by (rule reads_parse [OF assms(1)])
  have "check_answer (zip (sd_media offer) (sd_media ?answer)) = Ok ()"
    by (rule check_answer_calm) (use kinds in simp)
  then have process: "process_answer ?answer (with_local offer) =
      Ok ((with_local offer)\<lparr>ng_answer := Some ?answer, ng_state := Ng_Done\<rparr>)"
    by (simp add: process_answer_def with_local_def)
  have start: "set_local_offer offer negotiator_new = Ok (with_local offer)"
    "set_remote_offer offer negotiator_new = Ok (with_remote offer)"
    by (simp_all add: set_local_offer_def set_remote_offer_def negotiator_new_def with_local_def with_remote_def)
  let ?b2 = "(with_remote offer)\<lparr>ng_state := Ng_Ready, ng_local_offer := Some own\<rparr>"
  have ready: "set_local_offer own (with_remote offer) = Ok ?b2" by (simp add: set_local_offer_def with_remote_def)
  have made: "create_answer ?b2 = (Ok ?answer, ?b2\<lparr>ng_answer := Some ?answer, ng_state := Ng_Done\<rparr>)"
    by (simp add: create_answer_def with_remote_def ms Let_def)
  show ?thesis
    by (rule exI [of _ "with_local offer"], rule exI [of _ "with_remote offer"], rule exI [of _ ?b2],
        rule exI [of _ ?answer], rule exI [of _ "?b2\<lparr>ng_answer := Some ?answer, ng_state := Ng_Done\<rparr>"],
        rule exI [of _ "(with_local offer)\<lparr>ng_answer := Some ?answer, ng_state := Ng_Done\<rparr>"])
      (simp add: start ready made home there process formats)
qed

lemma sample_sdp_agreeable: "\<forall>p\<in>set (zip (sd_media sample_sdp) (sd_media sample_sdp)). agreeable p"
proof -
  have "parse_u8 ''0'' = Ok 0" "parse_u8 ''8'' = Ok 8" by code_simp+
  then show ?thesis by (simp add: sample_sdp_def agreeable_def same_kind_def common_formats_def)
qed

theorem offer_answer_end_to_end_witness:
  "\<exists>b answer b'. create_answer b = (Ok answer, b') \<and> ng_state b' = Ng_Done \<and>
     map md_media_formats (sd_media answer) = [[''0'', ''8'']]"
proof -
  have "map common_formats (zip (sd_media sample_sdp) (sd_media sample_sdp)) = [[''0'', ''8'']]"
    by (simp add: sample_sdp_def common_formats_def)
  then show ?thesis
    using offer_answer_end_to_end [OF sample_sdp_ok sample_sdp_ok refl sample_sdp_agreeable] by metis
qed

end
