(* ===== verification/Session.thy ===== *)
theory Session
  imports Dialog_Laws Negotiator_Laws
begin

text \<open>
  Sessions (\<open>rssip/src/ua/session.rs\<close>): the calling, the called and the established side of a call,
  built from a dialog, a transaction and the negotiation. A session that is consumed by a failing
  operation drops its dialog. Random values and the host's own address (\<open>host\<close>, the default of a
  parsed description) are arguments.
\<close>

section \<open>Types\<close>

record incoming_session =
  si_dialog :: dialog
  si_server_tsx :: server_tsx
  si_negotiator :: negotiator

record calling_session =
  sc_dialog :: dialog
  sc_client_tsx :: client_tsx
  sc_negotiator :: negotiator

record established_session =
  se_dialog :: dialog
  se_negotiator :: negotiator

datatype cause = ByeReceived

text \<open>The media event is left out: no operation makes one.\<close>

datatype session_event =
    SE_Terminated cause
  | SE_ReInvite incoming_request
  | SE_Options incoming_request

record invitation_params =
  iv_from_uri :: sip_uri
  iv_to_uri :: sip_uri
  iv_contact :: "sip_uri option"
  iv_sdp :: "sdp_offer_params option"

section \<open>Common parts\<close>

definition lift_media :: "(media_error, 'a) res \<Rightarrow> (error, 'a) res" where
  "lift_media r = map_err E_MediaError r"

definition session_parse_sdp :: "ip_addr \<Rightarrow> sip_body \<Rightarrow> (error, session_description) res" where
  "session_parse_sdp host body = lift_media (sdp_parse host body)"

text \<open>\<open>SessionMedia::setup\<close> is a \<open>todo!()\<close>.\<close>

definition session_media_setup :: "session_description \<Rightarrow> (error, unit) res" where
  "session_media_setup sdp = Panic"

text \<open>The negotiated description, which must be there, and the media for it.\<close>

definition establish :: "dialog \<Rightarrow> negotiator \<Rightarrow> (error, established_session) res" where
  "establish d n =
     (case ng_answer n of
        None \<Rightarrow> Panic
      | Some sdp \<Rightarrow> map_ok (\<lambda>u. \<lparr>se_dialog = d, se_negotiator = n\<rparr>) (session_media_setup sdp))"

definition make_answer :: "negotiator \<Rightarrow> (error, bytes) res \<times> negotiator" where
  "make_answer n =
     (case create_answer n of (r, n') \<Rightarrow> (bind_res (lift_media r) encode_session, n'))"

section \<open>The called side\<close>

definition from_invite ::
  "ip_addr \<Rightarrow> incoming_request \<Rightarrow> contact \<Rightarrow> bytes \<Rightarrow> nat \<Rightarrow> incoming_message receiver \<Rightarrow> nat \<Rightarrow>
   incoming_message receiver \<Rightarrow> endpoint \<Rightarrow> (error, incoming_session) res \<times> endpoint" where
  "from_invite host req contact tag chan rx tchan trx e =
     (let method = rl_method (rq_line (ir_request req)) in
      if method \<noteq> Invite then
        (Err (E_Custom (''unexpected method '' @ [CHR 0x27] @ method_str method @ [CHR 0x27] @
           '' expected INVITE'')), e)
      else
        (case create_uas req contact tag chan rx e of
           (Ok d, e1) \<Rightarrow>
             (case (case rq_body (ir_request req) of
                      None \<Rightarrow> Ok negotiator_new
                    | Some body \<Rightarrow>
                        bind_res (session_parse_sdp host body) (\<lambda>offer.
                          lift_media (set_remote_offer offer negotiator_new))) of
                Ok n \<Rightarrow>
                  (case server_from_request req tchan trx e1 of
                     (Ok s, e2) \<Rightarrow> (Ok \<lparr>si_dialog = d, si_server_tsx = s, si_negotiator = n\<rparr>, e2)
                   | (Err err, e2) \<Rightarrow> (Err err, dialog_drop d e2)
                   | (Panic, e2) \<Rightarrow> (Panic, dialog_drop d e2)
                   | (OutOfFuel, e2) \<Rightarrow> (OutOfFuel, dialog_drop d e2))
              | Err err \<Rightarrow> (Err err, dialog_drop d e1)
              | Panic \<Rightarrow> (Panic, dialog_drop d e1)
              | OutOfFuel \<Rightarrow> (OutOfFuel, dialog_drop d e1))
         | (Err err, e1) \<Rightarrow> (Err err, e1)
         | (Panic, e1) \<Rightarrow> (Panic, e1)
         | (OutOfFuel, e1) \<Rightarrow> (OutOfFuel, e1)))"

definition session_progress ::
  "network \<Rightarrow> status_code \<Rightarrow> bytes option \<Rightarrow> incoming_session \<Rightarrow> endpoint \<Rightarrow>
   (error, unit) res \<times> incoming_session \<times> endpoint" where
  "session_progress nw code rsn s e =
     (case dialog_provisional nw code rsn (si_dialog s) (si_server_tsx s) e of
        (r, d, st, e') \<Rightarrow> (r, s\<lparr>si_dialog := d, si_server_tsx := st\<rparr>, e'))"

text \<open>The body of the final response: the answer to an offer that came with the INVITE, else an offer.\<close>

definition accept_body ::
  "u64 \<Rightarrow> u64 \<Rightarrow> sdp_offer_params \<Rightarrow> negotiator \<Rightarrow> (error, bytes) res \<times> negotiator" where
  "accept_body sess ver p n =
     (case create_offer sess ver p n of
        Ok offer \<Rightarrow>
          if ng_state n = Ng_RemoteOffer then
            (case lift_media (set_local_offer offer n) of
               Ok n1 \<Rightarrow> make_answer n1
             | Err err \<Rightarrow> (Err err, n)
             | Panic \<Rightarrow> (Panic, n)
             | OutOfFuel \<Rightarrow> (OutOfFuel, n))
          else
            (case bind_res (encode_session offer) (\<lambda>body.
                    map_ok (Pair body) (lift_media (set_local_offer offer n))) of
               Ok (body, n1) \<Rightarrow> (Ok body, n1)
             | Err err \<Rightarrow> (Err err, n)
             | Panic \<Rightarrow> (Panic, n)
             | OutOfFuel \<Rightarrow> (OutOfFuel, n))
      | Err err \<Rightarrow> (Err (E_MediaError err), n)
      | Panic \<Rightarrow> (Panic, n)
      | OutOfFuel \<Rightarrow> (OutOfFuel, n))"

text \<open>What the ACK completes: the answer to an offer made in the final response.\<close>

definition answer_from_ack :: "ip_addr \<Rightarrow> incoming_request \<Rightarrow> negotiator \<Rightarrow> (error, negotiator) res" where
  "answer_from_ack host ack n =
     (if ng_state n = Ng_LocalOffer then
        (case rq_body (ir_request ack) of
           None \<Rightarrow> Err (E_Custom ''missing answer on ack'')
         | Some body \<Rightarrow>
             bind_res (session_parse_sdp host body) (\<lambda>answer. lift_media (process_answer answer n)))
      else Ok n)"

text \<open>The task that repeats a final response other than 2xx runs beside the wait for the ACK, and is
  returned.\<close>

definition session_accept ::
  "network \<Rightarrow> ip_addr \<Rightarrow> u64 \<Rightarrow> u64 \<Rightarrow> status_code \<Rightarrow> bytes option \<Rightarrow> sdp_offer_params \<Rightarrow>
   incoming_session \<Rightarrow> endpoint \<Rightarrow>
   ((error, established_session) res \<times> final_task option \<times> endpoint) run" where
  "session_accept nw host sess ver code rsn p s e =
     (let d = si_dialog s; st = si_server_tsx s;
          failed = (\<lambda>x e'. Returned (x, None, dialog_drop d (server_drop st e')))
      in case dialog_create_response d e st code rsn of
           Ok r \<Rightarrow>
             (case accept_body sess ver p (si_negotiator s) of
                (Ok body, n) \<Rightarrow>
                  (case send_final_response nw (r\<lparr>or_response := (or_response r)\<lparr>rs_body := Some body\<rparr>\<rparr>) st e of
                     (Ok u, st', k, e1) \<Rightarrow>
                       (case wait_for_ack nw d e1 of
                          Returned (Ok ack, d1, e2) \<Rightarrow>
                            (case bind_res (answer_from_ack host ack n) (establish d1) of
                               Ok est \<Rightarrow> Returned (Ok est, k, e2)
                             | x \<Rightarrow> Returned (x, k, dialog_drop d1 e2))
                        | Returned (Err err, d1, e2) \<Rightarrow> Returned (Err err, k, dialog_drop d1 e2)
                        | Returned (Panic, d1, e2) \<Rightarrow> Returned (Panic, k, dialog_drop d1 e2)
                        | Returned (OutOfFuel, d1, e2) \<Rightarrow> Returned (OutOfFuel, k, dialog_drop d1 e2)
                        | Blocked \<Rightarrow> Blocked)
                   | (Err err, st', k, e1) \<Rightarrow> Returned (Err err, k, dialog_drop d e1)
                   | (Panic, st', k, e1) \<Rightarrow> Returned (Panic, k, dialog_drop d e1)
                   | (OutOfFuel, st', k, e1) \<Rightarrow> Returned (OutOfFuel, k, dialog_drop d e1))
              | (Err err, n) \<Rightarrow> failed (Err err) e
              | (Panic, n) \<Rightarrow> failed Panic e
              | (OutOfFuel, n) \<Rightarrow> failed OutOfFuel e)
         | Err err \<Rightarrow> failed (Err err) e
         | Panic \<Rightarrow> failed Panic e
         | OutOfFuel \<Rightarrow> failed OutOfFuel e)"

section \<open>The calling side\<close>

definition invite_with_offer ::
  "u64 \<Rightarrow> u64 \<Rightarrow> sdp_offer_params option \<Rightarrow> request \<Rightarrow> (error, request \<times> negotiator) res" where
  "invite_with_offer sess ver sdp r =
     (case sdp of
        None \<Rightarrow> Ok (r, negotiator_new)
      | Some p \<Rightarrow>
          bind_res (lift_media (create_offer sess ver p negotiator_new)) (\<lambda>offer.
          bind_res (encode_session offer) (\<lambda>body.
          bind_res (lift_media (set_local_offer offer negotiator_new)) (\<lambda>n.
            Ok (r\<lparr>rq_headers := rq_headers r @ [H_ContentType content_type_new_sdp], rq_body := Some body\<rparr>, n)))))"

definition send_invite ::
  "network \<Rightarrow> invitation_params \<Rightarrow> bytes \<Rightarrow> u32 \<Rightarrow> bytes \<Rightarrow> nat \<Rightarrow> incoming_message receiver \<Rightarrow>
   u64 \<Rightarrow> u64 \<Rightarrow> bytes \<Rightarrow> nat \<Rightarrow> incoming_message receiver \<Rightarrow> endpoint \<Rightarrow>
   (error, calling_session) res \<times> endpoint" where
  "send_invite nw iv tag cseq call_id chan rx sess ver branch tchan trx e =
     (case create_uac (iv_from_uri iv) (iv_to_uri iv) (iv_contact iv) tag cseq call_id chan rx e of
        (d, e1) \<Rightarrow>
          (case dialog_create_request cseq Invite d of
             (r, d1) \<Rightarrow>
               (let r1 = (if ep_allow e \<noteq> [] then r\<lparr>rq_headers := rq_headers r @ [H_Allow (ep_allow e)]\<rparr> else r);
                    r2 = (if ep_supported e \<noteq> []
                          then r1\<lparr>rq_headers := rq_headers r1 @ [H_Supported (ep_supported e)]\<rparr> else r1)
                in case invite_with_offer sess ver (iv_sdp iv) r2 of
                     Ok (r3, n) \<Rightarrow>
                       (case client_send nw r3 None branch tchan trx e1 of
                          (Ok c, e2) \<Rightarrow> (Ok \<lparr>sc_dialog = d1, sc_client_tsx = c, sc_negotiator = n\<rparr>, e2)
                        | (Err err, e2) \<Rightarrow> (Err err, dialog_drop d1 e2)
                        | (Panic, e2) \<Rightarrow> (Panic, dialog_drop d1 e2)
                        | (OutOfFuel, e2) \<Rightarrow> (OutOfFuel, dialog_drop d1 e2))
                   | Err err \<Rightarrow> (Err err, dialog_drop d1 e1)
                   | Panic \<Rightarrow> (Panic, dialog_drop d1 e1)
                   | OutOfFuel \<Rightarrow> (OutOfFuel, dialog_drop d1 e1))))"

definition session_receive_provisional ::
  "calling_session \<Rightarrow> endpoint \<Rightarrow> ((error, incoming_response option) res \<times> calling_session \<times> endpoint) run" where
  "session_receive_provisional s e =
     (case receive_provisional_response (sc_client_tsx s) e of
        Returned (r, c, e') \<Rightarrow> Returned (r, s\<lparr>sc_client_tsx := c\<rparr>, e')
      | Blocked \<Rightarrow> Blocked)"

text \<open>What a 2xx response with or without a description does to the negotiation, and the body of the ACK.\<close>

definition answer_2xx ::
  "ip_addr \<Rightarrow> u64 \<Rightarrow> u64 \<Rightarrow> sdp_offer_params option \<Rightarrow> sip_body option \<Rightarrow> negotiator \<Rightarrow>
   (error, sip_body option \<times> negotiator) res" where
  "answer_2xx host sess ver offer body n =
     (case body of
        None \<Rightarrow> Ok (None, n)
      | Some b \<Rightarrow>
          bind_res (session_parse_sdp host b) (\<lambda>remote.
            case ng_state n of
              Ng_Initial \<Rightarrow>
                (case offer of
                   None \<Rightarrow> Err (E_Custom ''offer required to answer a delayed offer'')
                 | Some p \<Rightarrow>
                     bind_res (lift_media (create_offer sess ver p n)) (\<lambda>local.
                     bind_res (lift_media (set_local_offer local n)) (\<lambda>n1.
                     bind_res (lift_media (set_remote_offer remote n1)) (\<lambda>n2.
                       case make_answer n2 of (r, n3) \<Rightarrow> map_ok (\<lambda>a. (Some a, n3)) r))))
            | Ng_LocalOffer \<Rightarrow> map_ok (\<lambda>n1. (None, n1)) (lift_media (process_answer remote n))
            | _ \<Rightarrow> Panic))"

text \<open>Responses above 299 are not handled (\<open>todo!()\<close>).\<close>

definition receive_answer ::
  "network \<Rightarrow> ip_addr \<Rightarrow> u64 \<Rightarrow> u64 \<Rightarrow> u32 \<Rightarrow> sdp_offer_params option \<Rightarrow> calling_session \<Rightarrow> endpoint \<Rightarrow>
   ((error, established_session) res \<times> completed_task option \<times> endpoint) run" where
  "receive_answer nw host sess ver cseq offer s e =
     (let d = sc_dialog s in
      case receive_final_response (sc_client_tsx s) e of
        Returned (Ok rsp, st, k, e1) \<Rightarrow>
          (let code = as_u16 (response_code rsp) in
           if 200 \<le> code \<and> code \<le> 299 then
             (case answer_2xx host sess ver offer (rs_body (is_response rsp)) (sc_negotiator s) of
                Ok (ack_body, n) \<Rightarrow>
                  (case dialog_create_request cseq Ack d of
                     (ack, d1) \<Rightarrow>
                       (case create_outgoing_request nw (ack\<lparr>rq_body := ack_body\<rparr>) None e1 of
                          (Ok og, e2) \<Rightarrow>
                            (case send_outgoing_request og e2 of
                               (Ok u, og1, e3) \<Rightarrow>
                                 (case establish d1 n of
                                    Ok est \<Rightarrow> Returned (Ok est, k, e3)
                                  | x \<Rightarrow> Returned (x, k, dialog_drop d1 e3))
                             | (Err err, og1, e3) \<Rightarrow> Returned (Err err, k, dialog_drop d1 e3)
                             | (Panic, og1, e3) \<Rightarrow> Returned (Panic, k, dialog_drop d1 e3)
                             | (OutOfFuel, og1, e3) \<Rightarrow> Returned (OutOfFuel, k, dialog_drop d1 e3))
                        | (Err err, e2) \<Rightarrow> Returned (Err err, k, dialog_drop d1 e2)
                        | (Panic, e2) \<Rightarrow> Returned (Panic, k, dialog_drop d1 e2)
                        | (OutOfFuel, e2) \<Rightarrow> Returned (OutOfFuel, k, dialog_drop d1 e2)))
              | Err err \<Rightarrow> Returned (Err err, k, dialog_drop d e1)
              | Panic \<Rightarrow> Returned (Panic, k, dialog_drop d e1)
              | OutOfFuel \<Rightarrow> Returned (OutOfFuel, k, dialog_drop d e1))
           else Returned (Panic, k, dialog_drop d e1))
      | Returned (Err err, st, k, e1) \<Rightarrow> Returned (Err err, k, dialog_drop d e1)
      | Returned (Panic, st, k, e1) \<Rightarrow> Returned (Panic, k, dialog_drop d e1)
      | Returned (OutOfFuel, st, k, e1) \<Rightarrow> Returned (OutOfFuel, k, dialog_drop d e1)
      | Blocked \<Rightarrow> Blocked)"

section \<open>The established session\<close>

text \<open>\<open>select!\<close> polls its two branches in a random order (\<open>dialog_first\<close>). Polling the media is a
  panic (\<open>todo!()\<close>), so the event is the dialog's only when the dialog is polled first and has a
  request at that moment.\<close>

definition session_next_event ::
  "network \<Rightarrow> bool \<Rightarrow> nat \<Rightarrow> incoming_message receiver \<Rightarrow> established_session \<Rightarrow> endpoint \<Rightarrow>
   (error, session_event) res \<times> established_session \<times> final_task option \<times> endpoint" where
  "session_next_event nw dialog_first tchan trx s e =
     (let d = se_dialog s in
      if dl_state d = DialogTerminated then (Ok (SE_Terminated ByeReceived), s, None, e)
      else if \<not> dialog_first then (Panic, s, None, e)
      else
        (case receive_request nw (Some (ep_now e)) d e of
           Returned (Some (Ok req), d1, e1) \<Rightarrow>
             (if rl_method (rq_line (ir_request req)) = Invite then
                (Ok (SE_ReInvite req), s\<lparr>se_dialog := d1\<rparr>, None, e1)
              else if rl_method (rq_line (ir_request req)) = Bye then
                (case server_from_request req tchan trx e1 of
                   (Ok st, e2) \<Rightarrow>
                     (case dialog_final nw SC_Ok d1 st e2 of
                        (Ok u, k, e3) \<Rightarrow>
                          (Ok (SE_Terminated ByeReceived), s\<lparr>se_dialog := d1\<lparr>dl_state := DialogTerminated\<rparr>\<rparr>, k, e3)
                      | (Err err, k, e3) \<Rightarrow> (Err err, s\<lparr>se_dialog := d1\<rparr>, k, e3)
                      | (Panic, k, e3) \<Rightarrow> (Panic, s\<lparr>se_dialog := d1\<rparr>, k, e3)
                      | (OutOfFuel, k, e3) \<Rightarrow> (OutOfFuel, s\<lparr>se_dialog := d1\<rparr>, k, e3))
                 | (Err err, e2) \<Rightarrow> (Err err, s\<lparr>se_dialog := d1\<rparr>, None, e2)
                 | (Panic, e2) \<Rightarrow> (Panic, s\<lparr>se_dialog := d1\<rparr>, None, e2)
                 | (OutOfFuel, e2) \<Rightarrow> (OutOfFuel, s\<lparr>se_dialog := d1\<rparr>, None, e2))
              else (Panic, s\<lparr>se_dialog := d1\<rparr>, None, e1))
         | Returned (r, d1, e1) \<Rightarrow> (Panic, s\<lparr>se_dialog := d1\<rparr>, None, e1)
         | Blocked \<Rightarrow> (Panic, s, None, e)))"

end
