(* ===== verification/Session_Laws.thy ===== *)
theory Session_Laws
  imports Session
begin

text \<open>
  What sessions do: how an INVITE is taken up, how a call with an early offer is accepted, where the
  requests of a caller go, and that no session is ever established.
\<close>

section \<open>Dialogs in the table\<close>

lemma dialog_drop_fields [simp]:
  "ep_now (dialog_drop d e) = ep_now e" "sent (dialog_drop d e) = sent e"
  "ep_transactions (dialog_drop d e) = ep_transactions e"
  "get_dialog (ep_dialogs (dialog_drop d e)) (dl_id d) = None"
  by (simp_all add: dialog_drop_def ep_now_def dialogs.find_after_remove)

lemma process_keeps_id: "process_incoming_request nw req d e = (x, d', e') \<Longrightarrow> dl_id d' = dl_id d"
  by (auto simp: process_incoming_request_def Let_def split: if_splits prod.splits option.splits)

lemma dialog_receive_keeps_id: "dialog_receive nw l d e = Returned (x, d', e') \<Longrightarrow> dl_id d' = dl_id d"
  by (auto simp: dialog_receive_def Let_def
      split: option.splits if_splits prod.splits incoming_message.splits dest!: process_keeps_id)

lemma receive_request_keeps_id:
  "receive_request nw l d e = Returned (x, d', e') \<Longrightarrow> dl_id d' = dl_id d"
proof (induction nw l d e rule: receive_request.induct)
  case (1 nw l d e)
  show ?case
  proof (cases "dialog_receive nw l d e")
    case (Returned p)
    obtain y d1 e1 where p: "p = (y, d1, e1)" by (cases p) auto
    note id = dialog_receive_keeps_id [OF Returned [unfolded p]]
    show ?thesis
    proof (cases "\<exists>r. y = Some (Ok (IncomingResponse r))")
      case True
      then obtain r where y: "y = Some (Ok (IncomingResponse r))" ..
      with 1(2) Returned p have "receive_request nw l d1 e1 = Returned (x, d', e')"
        by (subst (asm) receive_request.simps) simp
      from 1(1) [OF Returned p [symmetric] y refl refl refl this] id show ?thesis by simp
    next
      case False
      with 1(2) Returned p id show ?thesis
        by (subst (asm) receive_request.simps) (auto split: option.splits res.splits incoming_message.splits)
    qed
  qed (use 1(2) in \<open>subst (asm) receive_request.simps, simp\<close>)
qed

lemma wait_for_ack_keeps_id: "wait_for_ack nw d e = Returned (x, d', e') \<Longrightarrow> dl_id d' = dl_id d"
proof (induction nw d e rule: wait_for_ack.induct)
  case (1 nw d e)
  show ?case
  proof (cases "receive_request nw (Some (ep_now e + T1 * 64)) d e")
    case (Returned p)
    obtain y d1 e1 where p: "p = (y, d1, e1)" by (cases p) auto
    note id = receive_request_keeps_id [OF Returned [unfolded p]]
    show ?thesis
    proof (cases "\<exists>r. y = Some (Ok r) \<and> rl_method (rq_line (ir_request r)) \<noteq> Ack")
      case True
      then obtain r where y: "y = Some (Ok r)" and r: "rl_method (rq_line (ir_request r)) \<noteq> Ack" by blast
      with 1(2) Returned p have "wait_for_ack nw d1 e1 = Returned (x, d', e')"
        by (subst (asm) wait_for_ack.simps) simp
      from 1(1) [OF Returned p [symmetric] y refl refl r this] id show ?thesis by simp
    next
      case False
      with 1(2) Returned p id show ?thesis
        by (subst (asm) wait_for_ack.simps) (auto split: option.splits res.splits if_splits)
    qed
  qed (use 1(2) in \<open>subst (asm) wait_for_ack.simps, simp\<close>)
qed

lemma dialog_create_request_id: "dl_id (snd (dialog_create_request n m d)) = dl_id d"
  by (simp add: dialog_create_request_def Let_def)

section \<open>No session is established\<close>

lemma establish_panics [simp]: "establish d n = Panic"
  by (simp add: establish_def session_media_setup_def split: option.split)

lemma bind_establish_not_Ok: "bind_res r (establish d) \<noteq> Ok x"
  by (cases r) simp_all


section \<open>Taking up an INVITE\<close>

definition early_negotiator :: "ip_addr \<Rightarrow> sip_body option \<Rightarrow> (media_error, negotiator) res" where
  "early_negotiator host body =
     (case body of None \<Rightarrow> Ok negotiator_new | Some b \<Rightarrow> map_ok with_remote (sdp_parse host b))"

lemma early_negotiator_code:
  "(case body of
      None \<Rightarrow> Ok negotiator_new
    | Some b \<Rightarrow> bind_res (session_parse_sdp host b) (\<lambda>offer. lift_media (set_remote_offer offer negotiator_new))) =
   lift_media (early_negotiator host body)"
proof (cases body)
  case (Some b)
  then show ?thesis
    by (cases "sdp_parse host b")
      (simp_all add: early_negotiator_def session_parse_sdp_def lift_media_def set_remote_offer_def
        negotiator_new_def with_remote_def)
qed (simp add: early_negotiator_def lift_media_def)

text \<open>C32: What becomes of an INVITE. It is taken up with its dialog and its server transaction registered,
  under which its channels receive, and with a negotiator that holds the offer parsed from its body, or
  none without a body; nothing is sent. If it is not, there is no transaction and no dialog left, and
  nothing has been sent either: in particular an INVITE whose description does not parse gets no answer at all,
  only the application an error.\<close>

theorem invite_is_taken_up:
  assumes "from_invite host req contact tag chan rx tchan trx e = (x, e')"
    and "\<forall>i. get_dialog (ep_dialogs e) i \<noteq> Some chan"
  shows "sent e' = sent e \<and>
    (case x of
       Ok s \<Rightarrow>
         req_method req = Invite \<and> st_request (si_server_tsx s) = req \<and> st_state (si_server_tsx s) = Proceeding \<and>
         dl_rx (si_dialog s) = rx \<and> get_dialog (ep_dialogs e') (dl_id (si_dialog s)) = Some chan \<and>
         get_entry (ep_transactions e') (st_key (si_server_tsx s)) = Some tchan \<and>
         early_negotiator host (rq_body (ir_request req)) = Ok (si_negotiator s)
     | _ \<Rightarrow> ep_transactions e' = ep_transactions e \<and> (\<forall>i. get_dialog (ep_dialogs e') i \<noteq> Some chan)) \<and>
    (\<forall>b err. req_method req = Invite \<and> to_tag (mh_to (ii_mandatory (ir_info req))) = None \<and>
       rq_body (ir_request req) = Some b \<and> sdp_parse host b = Err err \<longrightarrow> x = Err (E_MediaError err))"
  using assms
  by (auto simp: from_invite_def early_negotiator_code create_uas_def server_from_request_def Let_def
      dialog_drop_def dialogs.find_insert dialogs.find_remove transactions.find_insert lift_media_def map_err_Ok_iff
      can_establish_dialog_def early_negotiator_def
      split: if_splits res.splits option.splits)

definition sample_invite :: "sip_body option \<Rightarrow> incoming_request" where
  "sample_invite body =
     (let r = sample_request Invite sample_udp in r\<lparr>ir_request := (ir_request r)\<lparr>rq_body := body\<rparr>\<rparr>)"

lemma sample_invite_fields [simp]:
  "rq_body (ir_request (sample_invite body)) = body" "ir_info (sample_invite body) = ir_info (sample_request Invite sample_udp)"
  "req_method (sample_invite body) = Invite"
  by (simp_all add: sample_invite_def Let_def sample_request_def request_with_headers_def)

lemma from_invite_Ok:
  assumes "req_method req = Invite" and "create_uas req contact tag chan rx e = (Ok d, e1)"
    and "early_negotiator host (rq_body (ir_request req)) = Ok n" and "server_from_request req tchan trx e1 = (Ok s, e2)"
  shows "from_invite host req contact tag chan rx tchan trx e =
    (Ok \<lparr>si_dialog = d, si_server_tsx = s, si_negotiator = n\<rparr>, e2)"
  unfolding from_invite_def early_negotiator_code Let_def using assms by (simp add: lift_media_def)

lemma sample_invite_taken:
  "\<exists>s e. from_invite host (sample_invite (Some (show_session sample_sdp))) sample_contact ''t9'' 5 rx 3 trx sample_endpoint =
     (Ok s, e)"
proof -
  let ?req = "sample_invite (Some (show_session sample_sdp))"
  obtain d e1 where d: "create_uas ?req sample_contact ''t9'' 5 rx sample_endpoint = (Ok d, e1)"
    by (simp add: create_uas_def can_establish_dialog_def Let_def sample_request_def sample_mandatory_def)
  have n: "early_negotiator host (rq_body (ir_request ?req)) = Ok (with_remote sample_sdp)"
    using reads_parse [OF sample_sdp_ok] by (simp add: early_negotiator_def)
  obtain s e2 where s: "server_from_request ?req 3 trx e1 = (Ok s, e2)"
    by (simp add: server_from_request_def Let_def key_from_request_def from_incoming_info_def sample_request_def
        sample_mandatory_def sample_via_def via_new_udp_def via_new_with_transport_def starts_with_def
        RFC3261_BRANCH_ID_def)
  show ?thesis using from_invite_Ok [OF _ d n s] by simp
qed

theorem invite_is_taken_up_witness:
  "\<exists>s e. from_invite (sa_ip (sample_addr 1 0)) (sample_invite (Some (show_session sample_sdp))) sample_contact ''t9'' 5 (receiver_new [] None) 3
       (receiver_new [] None) sample_endpoint = (Ok s, e) \<and>
     sent e = [] \<and> get_dialog (ep_dialogs e) (dl_id (si_dialog s)) = Some 5 \<and> si_negotiator s = with_remote sample_sdp"
proof -
  obtain s e where s: "from_invite (sa_ip (sample_addr 1 0)) (sample_invite (Some (show_session sample_sdp))) sample_contact ''t9'' 5
      (receiver_new [] None) 3 (receiver_new [] None) sample_endpoint = (Ok s, e)"
    using sample_invite_taken by blast
  have "sent sample_endpoint = []" "\<forall>i. get_dialog (ep_dialogs sample_endpoint) i \<noteq> Some 5"
    by (simp_all add: sample_endpoint_def new_world_def get_dialog_def)
  with invite_is_taken_up [OF s] reads_parse [OF sample_sdp_ok] s show ?thesis
    by (simp add: early_negotiator_def)
qed

section \<open>Accepting a call\<close>

text \<open>The headers of a response to a request always have a text.\<close>

lemma show_headers_ok: "\<forall>h\<in>set hs. \<exists>b. show_header h = Ok b \<Longrightarrow> \<exists>b. show_headers hs = Ok b"
  by (induction hs) auto

lemma encode_ok:
  "\<forall>h\<in>set (rs_headers r). \<exists>b. show_header h = Ok b \<Longrightarrow> \<exists>b. encode_response r = Ok b \<and> b \<noteq> []"
  using show_headers_ok [of "rs_headers r"] by (auto simp: encode_response_def)

lemma dialog_responds: "\<exists>r. dialog_create_response d e s code rsn = Ok r"
  by (simp add: dialog_create_response_def Let_def dialog_headers_exact)

lemma dialog_response_encodes:
  assumes "dialog_create_response d e s code rsn = Ok r"
  shows "\<exists>b. encode_response ((or_response r)\<lparr>rs_body := body\<rparr>) = Ok b \<and> b \<noteq> []"
    and "or_encoded r = []" and "sl_code (rs_line (or_response r)) = code"
    and "or_dest r = or_dest (server_create_response s code rsn)"
proof -
  have r: "r = (server_create_response s code rsn)\<lparr>or_response :=
      (or_response (server_create_response s code rsn))\<lparr>rs_headers := rs_headers (or_response r)\<rparr>\<rparr>"
    and hs: "dialog_headers d e (as_u16 code) (rs_headers (or_response (server_create_response s code rsn))) =
      Ok (rs_headers (or_response r))"
    using assms by (auto simp: dialog_create_response_def Let_def map_ok_Ok_iff)
  have "\<exists>b. show_header h = Ok b" if h: "h \<in> set (rs_headers (or_response r))" for h
  proof -
    have "h \<in> set (copied_headers (st_request s)) \<or> (\<exists>x. h = H_To x) \<or> (\<exists>x. h = H_CSeq x) \<or>
        (\<exists>x. h = H_Contact x) \<or> (\<exists>x. h = H_Allow x) \<or> (\<exists>x. h = H_Supported x)"
      using h unfolding hs [unfolded dialog_headers_exact res.inject, symmetric]
      by (auto simp: offered_def split: if_splits)
    then show ?thesis using copied_header_cases [of h "st_request s"] by (elim disjE) auto
  qed
  then show "\<exists>b. encode_response ((or_response r)\<lparr>rs_body := body\<rparr>) = Ok b \<and> b \<noteq> []"
    by (intro encode_ok) simp
  show "or_encoded r = []" "sl_code (rs_line (or_response r)) = code" "or_dest r = or_dest (server_create_response s code rsn)"
    by (subst r, simp add: server_create_response_def create_outgoing_response_def create_response_def Let_def
        split: option.split)+
qed

text \<open>The description of a final response to an early offer.\<close>

lemma accept_early_offer:
  assumes "params_ok p" and "create_offer sess ver p negotiator_new = Ok own" and "sdp_ok offer"
    and "\<forall>q\<in>set (zip (sd_media own) (sd_media offer)). agreeable q"
  shows "\<exists>answer n. accept_body sess ver p (with_remote offer) = (Ok (show_session answer), n) \<and>
    sdp_ok answer \<and> ng_state n = Ng_Done \<and> ng_answer n = Some answer \<and>
    map md_media_formats (sd_media answer) = map common_formats (zip (sd_media own) (sd_media offer)) \<and>
    map md_port (sd_media answer) = map (md_port \<circ> fst) (zip (sd_media own) (sd_media offer))"
proof -
  let ?ps = "zip (sd_media own) (sd_media offer)"
  obtain ms where ms: "answer_media ?ps = Ok ms" using agreeable_answer(2) [OF assms(4)] by blast
  let ?answer = "own\<lparr>sd_media := ms, sd_time := sd_time offer\<rparr>"
  have own: "create_offer sess ver p (with_remote offer) = Ok own"
    using assms(2) by (simp add: create_offer_def negotiator_new_def with_remote_def)
  have "sdp_ok ?answer"
    by (rule answer_is_ok [OF assms(4) create_offer_ok [OF assms(1,2)] assms(3) ms])
  moreover have "accept_body sess ver p (with_remote offer) = (Ok (show_session ?answer),
      (with_remote offer)\<lparr>ng_state := Ng_Done, ng_local_offer := Some own, ng_answer := Some ?answer\<rparr>)"
    unfolding accept_body_def own
    by (simp add: with_remote_def set_local_offer_def lift_media_def make_answer_def create_answer_def ms Let_def
        encode_session_def)
  ultimately show ?thesis
    using answer_media_Ok [OF ms] agreeable_answer(1) [OF assms(4)]
    by (intro exI [of _ ?answer] exI [of _ "(with_remote offer)\<lparr>ng_state := Ng_Done, ng_local_offer := Some own,
          ng_answer := Some ?answer\<rparr>"]) simp
qed

lemma send_direct:
  assumes "encode_response (or_response r) = Ok b" and "b \<noteq> []" and "or_encoded r = []"
    and "di_transport (or_dest r) = Some ti" and "w_outcomes (ep_world e) = []"
  shows "\<exists>e'. send_outgoing_response nw r e = (Ok (), r\<lparr>or_encoded := b\<rparr>, e') \<and>
    sent e' = sent e @ [(ep_now e, ti_transport ti, b, ti_addr ti)] \<and> ep_now e' = ep_now e \<and>
    ep_dialogs e' = ep_dialogs e \<and> ep_transactions e' = ep_transactions e"
  using assms
  by (simp add: send_outgoing_response_def send_response_def ep_send_def send_msg_def ep_now_def)

lemma wait_for_ack_at:
  assumes "dl_rx d = receiver_new ((t, IncomingRequest ack) # later) None" and "req_method ack = Ack"
    and "ep_now e \<le> t" and "t \<le> ep_now e + 64 * T1"
  shows "\<exists>d'. wait_for_ack nw d e = Returned (Ok ack, d', wait_until t e) \<and> dl_id d' = dl_id d"
proof -
  have "wait_for_ack nw d e = Returned (Ok ack,
      (refreshed ack (d\<lparr>dl_rx := receiver_new later None\<rparr>))\<lparr>dl_state := DialogConfirmed\<rparr>, wait_until t e)"
    using assms
    by (subst wait_for_ack.simps) (simp add: dialog_receive_fresh [of d t ack later None e] stale_def)
  then show ?thesis using wait_for_ack_keeps_id by blast
qed

lemma created_server:
  "server_from_request req chan rx e = (Ok st, e') \<Longrightarrow>
     st_request st = req \<and> st_target st = None \<and> st_task st = None \<and> ep_world e' = ep_world e \<and>
     ep_dialogs e' = ep_dialogs e"
  by (auto simp: server_from_request_def Let_def split: if_splits res.splits)

lemma created_uas:
  "create_uas req contact tag chan rx e = (Ok d, e') \<Longrightarrow>
     dl_rx d = rx \<and> ep_world e' = ep_world e \<and> ep_transactions e' = ep_transactions e"
  by (auto simp: create_uas_def Let_def split: if_splits)

lemma from_invite_parts:
  assumes "from_invite host req contact tag chan rx tchan trx e = (Ok s, e2)"
  shows "req_method req = Invite \<and> early_negotiator host (rq_body (ir_request req)) = Ok (si_negotiator s) \<and>
    (\<exists>e1. create_uas req contact tag chan rx e = (Ok (si_dialog s), e1) \<and>
       server_from_request req tchan trx e1 = (Ok (si_server_tsx s), e2))"
  using assms unfolding from_invite_def early_negotiator_code
  by (auto simp: lift_media_def map_err_Ok_iff Let_def split: if_splits res.splits prod.splits)


lemma sample_own: "create_offer 7 8 sample_params negotiator_new = Ok own \<Longrightarrow>
    \<forall>q\<in>set (zip (sd_media own) (sd_media sample_sdp)). agreeable q"
proof -
  assume "create_offer 7 8 sample_params negotiator_new = Ok own"
  then have own: "sd_media own = offer_media sample_params" by (auto simp: create_offer_def negotiator_new_def Let_def)
  have "parse_u8 ''0'' = Ok 0" "parse_u8 ''8'' = Ok 8" by code_simp+
  moreover have "map md_media_formats (offer_media sample_params) = [[''0'', ''8'']]"
    "map md_media_type (offer_media sample_params) = [M_Audio]" "map md_proto (offer_media sample_params) = [RTPAVP]"
    "map md_port (offer_media sample_params) = [34391]"
    by code_simp+
  ultimately show ?thesis
    unfolding own by (auto simp: sample_sdp_def agreeable_def same_kind_def common_formats_def)
qed


section \<open>The caller's requests\<close>

lemma with_branch_none: "\<forall>h\<in>set hs. via_of h = None \<Longrightarrow> with_branch rnd hs = None"
proof (induction hs)
  case (Cons h hs)
  then show ?case by (cases h) simp_all
qed simp

lemma plain_route_set: "\<forall>h\<in>set (rq_headers r). strict_route h = None \<Longrightarrow> process_route_set r = (rl_uri (rq_line r), r)"
  by (simp add: process_route_set_def index_of_none)

lemma client_send_plain:
  assumes "client_send nw r None rnd chan rx e = (Ok c, e')"
    and "\<forall>h\<in>set (rq_headers r). strict_route h = None \<and> via_of h = None"
  shows "(\<exists>addrs e1. resolve_uri (nw_lookup nw) (rl_uri (rq_line r)) = Ok addrs \<and>
       first_transport nw (oom_list addrs) e = (Some (og_target (ct_request c)), e1)) \<and>
    (\<exists>v. og_request (ct_request c) = r\<lparr>rq_headers := H_Via v # rq_headers r\<rparr>)"
proof -
  have "process_route_set r = (rl_uri (rq_line r), r)" by (rule plain_route_set) (use assms(2) in simp)
  moreover have "with_branch rnd (rq_headers r) = None" by (rule with_branch_none) (use assms(2) in simp)
  ultimately show ?thesis
    using assms(1)
    by (auto simp: client_send_def create_outgoing_request_def ensure_via_def Let_def
        split: if_splits res.splits prod.splits option.splits dest!: send_request_ok)
qed

definition own_contact :: "invitation_params \<Rightarrow> sip_uri" where
  "own_contact iv = (case iv_contact iv of Some u \<Rightarrow> u | None \<Rightarrow> iv_from_uri iv)"

text \<open>The request of a caller's dialog before a Via is added.\<close>

definition caller_headers :: "invitation_params \<Rightarrow> bytes \<Rightarrow> bytes \<Rightarrow> u32 \<Rightarrow> sip_method \<Rightarrow> headers" where
  "caller_headers iv tag call_id cseq m =
     [H_From \<lparr>fr_uri = iv_from_uri iv, fr_tag = Some tag, fr_params = []\<rparr>,
      H_To \<lparr>to_uri = iv_to_uri iv, to_tag = None, to_params = []\<rparr>, H_CallId call_id,
      H_CSeq \<lparr>cs_cseq = cseq, cs_method = m\<rparr>, H_MaxForwards 70]"

text \<open>C33: Where a caller's INVITE goes: to the caller. Its request URI, which is the one that is resolved
  to find the address, is the caller's own contact, or the From URI when no contact is given; the URI of
  the callee is in the To header only. Its headers are a Via, those of the dialog, the endpoint's Allow
  and Supported when it has any, and a Content-Type exactly when there is an offer; there is no Contact header.
  With parameters the body is the text of an offer made from them, and the negotiator waits for the answer to
  this offer; without, there is no body.\<close>

theorem invite_goes_to_the_caller:
  assumes "send_invite nw iv tag cseq call_id chan rx sess ver branch tchan trx e = (Ok s, e')"
  shows "\<exists>v addrs e1 e2. let r = og_request (ct_request (sc_client_tsx s)) in
    rq_line r = \<lparr>rl_method = Invite, rl_uri = su_uri (own_contact iv)\<rparr> \<and>
    resolve_uri (nw_lookup nw) (su_uri (own_contact iv)) = Ok addrs \<and>
    first_transport nw (oom_list addrs) e1 = (Some (og_target (ct_request (sc_client_tsx s))), e2) \<and>
    rq_headers r = H_Via v # caller_headers iv tag call_id cseq Invite @
      offered (ep_allow e \<noteq> []) (H_Allow (ep_allow e)) @ offered (ep_supported e \<noteq> []) (H_Supported (ep_supported e)) @
      offered (iv_sdp iv \<noteq> None) (H_ContentType content_type_new_sdp) \<and>
    (case iv_sdp iv of
       None \<Rightarrow> rq_body r = None \<and> sc_negotiator s = negotiator_new
     | Some p \<Rightarrow> (\<exists>offer. create_offer sess ver p negotiator_new = Ok offer \<and>
         rq_body r = Some (show_session offer) \<and> sc_negotiator s = with_local offer)) \<and>
    dl_contact (sc_dialog s) = \<lparr>ct_uri = own_contact iv, ct_q = None, ct_expires = None, ct_param = []\<rparr>"
proof -
  obtain d e1 where d: "create_uac (iv_from_uri iv) (iv_to_uri iv) (iv_contact iv) tag cseq call_id chan rx e = (d, e1)"
    by fastforce
  then have d_def: "dl_contact d = \<lparr>ct_uri = own_contact iv, ct_q = None, ct_expires = None, ct_param = []\<rparr>"
    "dialog_create_request cseq Invite d = (\<lparr>rq_line = \<lparr>rl_method = Invite, rl_uri = su_uri (own_contact iv)\<rparr>,
       rq_headers = caller_headers iv tag call_id cseq Invite, rq_body = None\<rparr>, d)"
    by (auto simp: create_uac_def own_contact_def dialog_create_request_def caller_headers_def Let_def)
  define r2 where "r2 = \<lparr>rq_line = \<lparr>rl_method = Invite, rl_uri = su_uri (own_contact iv)\<rparr>,
       rq_headers = caller_headers iv tag call_id cseq Invite @ offered (ep_allow e \<noteq> []) (H_Allow (ep_allow e)) @
         offered (ep_supported e \<noteq> []) (H_Supported (ep_supported e)), rq_body = None\<rparr>"
  obtain r3 n c where r3: "invite_with_offer sess ver (iv_sdp iv) r2 = Ok (r3, n)"
    and c: "client_send nw r3 None branch tchan trx e1 = (Ok c, e')"
    and s: "s = \<lparr>sc_dialog = d, sc_client_tsx = c, sc_negotiator = n\<rparr>"
    using assms d d_def(2)
    by (auto simp: send_invite_def Let_def r2_def offered_def split: res.splits prod.splits if_splits)
  have body: "rq_line r3 = rq_line r2"
    "rq_headers r3 = rq_headers r2 @ offered (iv_sdp iv \<noteq> None) (H_ContentType content_type_new_sdp)"
    "case iv_sdp iv of
       None \<Rightarrow> rq_body r3 = None \<and> n = negotiator_new
     | Some p \<Rightarrow> (\<exists>offer. create_offer sess ver p negotiator_new = Ok offer \<and>
         rq_body r3 = Some (show_session offer) \<and> n = with_local offer)"
    using r3
    by (auto simp: invite_with_offer_def lift_media_def encode_session_def set_local_offer_def
        bind_res_Ok_iff map_err_Ok_iff offered_def r2_def with_local_def negotiator_new_def split: option.splits)
  have "\<forall>h\<in>set (rq_headers r3). strict_route h = None \<and> via_of h = None"
    by (auto simp: body r2_def caller_headers_def offered_def)
  from client_send_plain [OF c this] body d_def(1) s show ?thesis
    by (auto simp: Let_def r2_def split: option.splits)
qed

definition sample_caller :: "sdp_offer_params option \<Rightarrow> invitation_params" where
  "sample_caller p =
     \<lparr>iv_from_uri = PlainUri sample_uri, iv_to_uri = PlainUri default_uri, iv_contact = None, iv_sdp = p\<rparr>"

definition sample_online :: endpoint where
  "sample_online = sample_endpoint\<lparr>ep_registry := [(key_of_transport sample_udp, sample_udp)]\<rparr>"

text \<open>The caller has the address 10.0.0.2, and so does the target of its INVITE.\<close>

lemma sample_target:
  "resolve_uri lookup sample_uri = Ok (One \<lparr>la_addr = sample_addr 2 5060, la_protocol = Udp\<rparr>)"
  "ep_registry e = [(key_of_transport sample_udp, sample_udp)] \<Longrightarrow>
     ep_select nw (sample_addr 2 5060) Udp e = (Ok sample_udp, e)"
  by (simp_all add: resolve_uri_def resolve_def sip_host_of_uri_def sample_uri_def default_uri_def
      host_port_of_addr_def sample_addr_def from_scheme_def Let_def ep_select_def select_transport_def
      get_transport_def key_of_transport_def sample_udp_def udp_transport_def)

lemma sends_to_sample:
  assumes "rl_uri (rq_line r) = sample_uri" and "rl_method (rq_line r) \<noteq> Ack"
    and "\<forall>h\<in>set (rq_headers r). strict_route h = None \<and> via_of h = None \<and> (\<exists>b. show_header h = Ok b)"
    and "ep_registry e = [(key_of_transport sample_udp, sample_udp)]"
  shows "\<exists>c e'. client_send sample_network r None rnd chan rx e = (Ok c, e') \<and>
    og_target (ct_request c) = \<lparr>ti_addr = sample_addr 2 5060, ti_transport = sample_udp\<rparr> \<and>
    ct_rx c = rx \<and> (rl_method (rq_line r) = Invite \<longrightarrow> ct_state c = Calling) \<and> rl_method (rq_line (og_request (ct_request c))) = rl_method (rq_line r) \<and>
    ep_now e' = ep_now e \<and> ep_registry e' = ep_registry e"
proof -
  have "create_outgoing_request sample_network r None e =
      (Ok \<lparr>og_request = r, og_target = \<lparr>ti_addr = sample_addr 2 5060, ti_transport = sample_udp\<rparr>, og_encoded = []\<rparr>, e)"
    using assms by (simp add: create_outgoing_request_def plain_route_set sample_target)
  moreover have "with_branch rnd (rq_headers r) = None" by (rule with_branch_none) (use assms(3) in simp)
  moreover obtain b where "show_headers (rq_headers r) = Ok b" using show_headers_ok assms(3) by blast
  ultimately show ?thesis
    using assms(2)
    by (simp add: client_send_def ensure_via_def send_outgoing_request_def encode_request_def Let_def ep_send_def
        send_msg_def ct_fresh_def ep_now_def show_request_line_def)
qed

lemma sample_invite_sent:
  "\<exists>s e. send_invite sample_network (sample_caller (Some sample_params)) ''a1'' 7 ''c1@10.0.0.2'' 4 (receiver_new [] None)
       7 8 ''abcdefgh'' 3 rx sample_online = (Ok s, e) \<and>
     og_target (ct_request (sc_client_tsx s)) = \<lparr>ti_addr = sample_addr 2 5060, ti_transport = sample_udp\<rparr> \<and>
     ct_rx (sc_client_tsx s) = rx \<and> ct_state (sc_client_tsx s) = Calling \<and> ct_method (sc_client_tsx s) = Invite \<and>
     ep_now e = 0 \<and> ep_registry e = [(key_of_transport sample_udp, sample_udp)]"
proof -
  obtain own where own: "create_offer 7 8 sample_params negotiator_new = Ok own"
    by (simp add: create_offer_def negotiator_new_def Let_def)
  define r :: request where "r = \<lparr>rq_line = \<lparr>rl_method = Invite, rl_uri = sample_uri\<rparr>,
       rq_headers = caller_headers (sample_caller None) ''a1'' ''c1@10.0.0.2'' 7 Invite @
         [H_Allow (ep_allow sample_online), H_ContentType content_type_new_sdp],
       rq_body = Some (show_session own)\<rparr>"
  obtain d e1 where d: "create_uac (PlainUri sample_uri) (PlainUri default_uri) None ''a1'' 7 ''c1@10.0.0.2'' 4
      (receiver_new [] None) sample_online = (d, e1)" by fastforce
  then have d': "dialog_create_request 7 Invite d = (\<lparr>rq_line = rq_line r,
       rq_headers = caller_headers (sample_caller None) ''a1'' ''c1@10.0.0.2'' 7 Invite, rq_body = None\<rparr>, d)"
    and reg: "ep_registry e1 = [(key_of_transport sample_udp, sample_udp)]" and now: "ep_now e1 = 0"
    by (auto simp: ep_now_def sample_endpoint_def new_world_def create_uac_def dialog_create_request_def caller_headers_def sample_caller_def Let_def r_def sample_online_def)
  obtain c e2 where c: "client_send sample_network r None ''abcdefgh'' 3 rx e1 = (Ok c, e2)"
    "og_target (ct_request c) = \<lparr>ti_addr = sample_addr 2 5060, ti_transport = sample_udp\<rparr>"
    "ct_rx c = rx" "ct_state c = Calling" "ct_method c = Invite" "ep_now e2 = 0" "ep_registry e2 = [(key_of_transport sample_udp, sample_udp)]"
    using sends_to_sample [OF _ _ _ reg, of r "''abcdefgh''" 3 rx] now reg by (auto simp: r_def caller_headers_def ct_method_def)
  then show ?thesis
    using d d' own c
    by (simp add: send_invite_def sample_caller_def sample_online_def sample_endpoint_def invite_with_offer_def
        lift_media_def encode_session_def set_local_offer_def negotiator_new_def r_def)
qed

theorem invite_goes_to_the_caller_witness:
  "\<exists>s e offer. send_invite sample_network (sample_caller (Some sample_params)) ''a1'' 7 ''c1@10.0.0.2'' 4 (receiver_new [] None)
       7 8 ''abcdefgh'' 3 (receiver_new [] None) sample_online = (Ok s, e) \<and>
     rl_uri (rq_line (og_request (ct_request (sc_client_tsx s)))) = sample_uri \<and>
     ti_addr (og_target (ct_request (sc_client_tsx s))) = sample_addr 2 5060 \<and> sc_negotiator s = with_local offer"
proof -
  obtain s e where s: "send_invite sample_network (sample_caller (Some sample_params)) ''a1'' 7 ''c1@10.0.0.2'' 4
      (receiver_new [] None) 7 8 ''abcdefgh'' 3 (receiver_new [] None) sample_online = (Ok s, e)"
    and "og_target (ct_request (sc_client_tsx s)) = \<lparr>ti_addr = sample_addr 2 5060, ti_transport = sample_udp\<rparr>"
    using sample_invite_sent by meson
  with invite_goes_to_the_caller [OF s] show ?thesis
    by (auto simp: own_contact_def sample_caller_def Let_def)
qed

lemma sent_invite_dialog:
  assumes "send_invite nw iv tag cseq call_id chan rx sess ver branch tchan trx e = (Ok c, e')"
  shows "dl_local_cseq (sc_dialog c) = Some cseq"
    and "dialog_create_request rnd m (sc_dialog c) = (\<lparr>rq_line = \<lparr>rl_method = m, rl_uri = su_uri (own_contact iv)\<rparr>,
       rq_headers = caller_headers iv tag call_id cseq m, rq_body = None\<rparr>, sc_dialog c)"
    and "iv_sdp iv \<noteq> None \<Longrightarrow> ng_state (sc_negotiator c) = Ng_LocalOffer"
proof -
  have d: "sc_dialog c = fst (create_uac (iv_from_uri iv) (iv_to_uri iv) (iv_contact iv) tag cseq call_id chan rx e)"
    using assms
    by (auto simp: send_invite_def create_uac_def dialog_create_request_def Let_def split: prod.splits res.splits)
  then show "dl_local_cseq (sc_dialog c) = Some cseq"
    and "dialog_create_request rnd m (sc_dialog c) = (\<lparr>rq_line = \<lparr>rl_method = m, rl_uri = su_uri (own_contact iv)\<rparr>,
       rq_headers = caller_headers iv tag call_id cseq m, rq_body = None\<rparr>, sc_dialog c)"
    by (auto simp: create_uac_def own_contact_def dialog_create_request_def caller_headers_def Let_def)
  obtain r r' where n: "invite_with_offer sess ver (iv_sdp iv) r = Ok (r', sc_negotiator c)"
    using assms by (auto simp: send_invite_def Let_def split: prod.splits res.splits)
  then show "iv_sdp iv \<noteq> None \<Longrightarrow> ng_state (sc_negotiator c) = Ng_LocalOffer"
    by (auto simp: invite_with_offer_def lift_media_def bind_res_Ok_iff map_err_Ok_iff set_local_offer_def
        negotiator_new_def split: option.splits dest!: sym [of _ "sc_negotiator c"])
qed

text \<open>C34: What acknowledges a 2xx. When the 2xx is taken, its description, if any, parses and fits
  the negotiation, and the caller's own contact resolves to an address that a transport can reach, an ACK is
  sent there, to the caller itself: its request URI is the caller's contact again, it has no Via, and no tag in the To header
  although the 2xx had one. It has a body only when the INVITE came without an offer, and then without a
  Content-Type. Then comes the panic of the media setup (or of the missing answer).\<close>

theorem ack_of_2xx:
  assumes "send_invite nw iv tag cseq call_id chan rx sess ver branch tchan trx e0 = (Ok c, e0')"
    and "receive_final_response (sc_client_tsx c) e = Returned (Ok rsp, st, k, e1)"
    and "200 \<le> as_u16 (response_code rsp)" and "as_u16 (response_code rsp) \<le> 299"
    and "answer_2xx host sess' ver' offer (rs_body (is_response rsp)) (sc_negotiator c) = Ok (body, n)"
    and "resolve_uri (nw_lookup nw) (su_uri (own_contact iv)) = Ok addrs"
    and "first_transport nw (oom_list addrs) e1 = (Some ti, e2)"
  shows "\<exists>bytes e3. receive_answer nw host sess' ver' rnd offer c e = Returned (Panic, k, e3) \<and>
    encode_request \<lparr>rq_line = \<lparr>rl_method = Ack, rl_uri = su_uri (own_contact iv)\<rparr>,
        rq_headers = caller_headers iv tag call_id cseq Ack, rq_body = body\<rparr> = Ok bytes \<and>
    sent e3 = sent e2 @ [(ep_now e2, ti_transport ti, bytes, ti_addr ti)] \<and>
    (iv_sdp iv \<noteq> None \<longrightarrow> body = None)"
proof -
  let ?ack = "\<lparr>rq_line = \<lparr>rl_method = Ack, rl_uri = su_uri (own_contact iv)\<rparr>,
        rq_headers = caller_headers iv tag call_id cseq Ack, rq_body = body\<rparr>"
  note dialog = sent_invite_dialog [OF assms(1)]
  obtain b where b: "show_headers (caller_headers iv tag call_id cseq Ack) = Ok b"
    by (simp add: caller_headers_def)
  then obtain bytes where bytes: "encode_request ?ack = Ok bytes" by (simp add: encode_request_def)
  have "create_outgoing_request nw ?ack None e1 = (Ok \<lparr>og_request = ?ack, og_target = ti, og_encoded = []\<rparr>, e2)"
    using assms(6,7) by (simp add: create_outgoing_request_def plain_route_set caller_headers_def)
  then have "receive_answer nw host sess' ver' rnd offer c e = Returned (Panic, k,
      dialog_drop (sc_dialog c) (snd (ep_send (ti_transport ti) bytes (ti_addr ti) e2)))"
    using assms(2-5) dialog(2) bytes
    by (simp add: receive_answer_def Let_def send_outgoing_request_def)
  moreover have "iv_sdp iv \<noteq> None \<longrightarrow> body = None"
    using assms(5) dialog(3) by (auto simp: answer_2xx_def bind_res_Ok_iff map_ok_Ok_iff split: option.splits)
  ultimately show ?thesis
    using bytes by (simp add: ep_send_def send_msg_def ep_now_def)
qed

theorem ack_of_2xx_witness:
  "\<exists>c e k e' bytes. send_invite sample_network (sample_caller (Some sample_params)) ''a1'' 7 ''c1@10.0.0.2'' 4
       (receiver_new [] None) 7 8 ''abcdefgh'' 3
       (receiver_new [(0, IncomingResponse (sample_response Invite SC_Ok sample_udp))] None) sample_online = (Ok c, e) \<and>
     receive_answer sample_network (IpV4 10 0 0 2) 9 9 9 None c e = Returned (Panic, k, e') \<and>
     last (sent e') = (0, sample_udp, bytes, sample_addr 2 5060)"
proof -
  let ?r = "sample_response Invite SC_Ok sample_udp"
  let ?rx = "receiver_new [(0, IncomingResponse ?r)] None"
  obtain c e where c: "send_invite sample_network (sample_caller (Some sample_params)) ''a1'' 7 ''c1@10.0.0.2'' 4
       (receiver_new [] None) 7 8 ''abcdefgh'' 3 ?rx sample_online = (Ok c, e)"
    and target: "og_target (ct_request (sc_client_tsx c)) = \<lparr>ti_addr = sample_addr 2 5060, ti_transport = sample_udp\<rparr>"
    and tsx: "ct_rx (sc_client_tsx c) = ?rx" "ct_state (sc_client_tsx c) = Calling" "ct_method (sc_client_tsx c) = Invite"
    and e: "ep_now e = 0" "ep_registry e = [(key_of_transport sample_udp, sample_udp)]"
    using sample_invite_sent by meson
  have "\<not> ct_reliable (sc_client_tsx c)"
    by (simp add: ct_reliable_def target sample_udp_def udp_transport_def)
  then have "receive_final (sc_client_tsx c) e =
      Returned (Ok ?r, (sc_client_tsx c)\<lparr>ct_rx := receiver_new [] None\<rparr>, wait_until 0 e)"
    using tsx e(1)
    by (simp add: receive_final_def receive_response_if_def, subst retransmit_until.simps)
      (simp add: ready_by_def rx_ready_def receiver_new_def ct_receive_def ct_recv_if_def rx_recv_if_def rx_peek_def
        ok_or_def is_final_def is_provisional_def Let_def)
  then obtain st e2 where final: "receive_final_response (sc_client_tsx c) e = Returned (Ok ?r, st, None, e2)"
    and e2: "ep_now e2 = 0" "ep_registry e2 = [(key_of_transport sample_udp, sample_udp)]"
    using tsx e
    by (simp add: receive_final_response_def final_without_task_def ct_method_def client_drop_def ep_now_def wait_until_def)
  have "answer_2xx (IpV4 10 0 0 2) 9 9 None (rs_body (is_response ?r)) (sc_negotiator c) = Ok (None, sc_negotiator c)"
    by (simp add: answer_2xx_def sample_response_def create_response_def Let_def)
  moreover have "resolve_uri (nw_lookup sample_network) (su_uri (own_contact (sample_caller (Some sample_params)))) =
      Ok (One \<lparr>la_addr = sample_addr 2 5060, la_protocol = Udp\<rparr>)"
    using sample_target(1) by (simp add: own_contact_def sample_caller_def)
  moreover have "first_transport sample_network (oom_list (One \<lparr>la_addr = sample_addr 2 5060, la_protocol = Udp\<rparr>)) e2 =
      (Some \<lparr>ti_addr = sample_addr 2 5060, ti_transport = sample_udp\<rparr>, e2)"
    using e2(2) by (simp add: sample_target)
  ultimately show ?thesis
    using ack_of_2xx [OF c final, of "IpV4 10 0 0 2" 9 9 None, where rnd = 9] c e2(1) by fastforce
qed

section \<open>The end of a session\<close>

lemma receive_waiting:
  assumes "dl_rx d = receiver_new ((t, IncomingRequest q) # rest) c" and "\<not> stale q d" and "t \<le> ep_now e"
  shows "receive_request nw (Some (ep_now e)) d e =
    Returned (Some (Ok q), refreshed q (d\<lparr>dl_rx := receiver_new rest c\<rparr>), e)"
proof -
  have "max (ep_now e) t = ep_now e" using assms(3) by (rule max_absorb1)
  then have "wait_until t e = e" by (simp add: wait_until_def ep_now_def)
  with assms \<open>max (ep_now e) t = ep_now e\<close> have "dialog_receive nw (Some (ep_now e)) d e =
    Returned (Some (Ok (IncomingRequest q)), refreshed q (d\<lparr>dl_rx := receiver_new rest c\<rparr>), e)"
    by (simp add: dialog_receive_def rx_ready_def rx_recv_def receiver_new_def process_fresh)
  then show ?thesis by (subst receive_request.simps) simp
qed


end
