(* ===== verification/Uri_Laws.thy ===== *)
theory Uri_Laws
  imports Uri_Parser Parses Ip_Laws
begin

text \<open>
  What the address level of the SIP parser reads from the text the printers write: parameters,
  hosts and ports, URIs, name-addrs and the two forms of an address. Each rule says which text
  may follow.
\<close>

section \<open>Scanner operations of the parser\<close>

lemma parses_read_unchecked:
  "\<forall>b\<in>set xs. f b \<Longrightarrow> stops f rest \<Longrightarrow> parses (read_while_unchecked f) (xs @ rest) xs rest"
  unfolding read_while_unchecked_def scan_while_as_str_unchecked_def by (rule parses_scan_while)

lemma parses_take_yes: "parses (take_if_eq b) (b # rest) (Some b) rest"
  unfolding take_if_eq_def scan_if_eq_def by (rule parses_scan_if) simp

lemma parses_take_no: "stops (\<lambda>c. c = b) inp \<Longrightarrow> parses (take_if_eq b) inp None inp"
  unfolding take_if_eq_def scan_if_eq_def by (rule parses_scan_if_not) (auto simp: stops_def)

lemma parses_must: "parses (must_readP b) (b # rest) () rest"
  unfolding must_readP_def scanP_def by (intro parses_map_errP parses_must_read)

lemma parses_advance_one: "parses advance (b # rest) b rest"
  unfolding advance_def scanP_def by (intro parses_map_errP parses_next_byte)

lemma stops_dropWhile: "stops p (dropWhile p xs)"
  by (induction xs) (auto simp: stops_def)

lemma parses_skip_ws: "parses skip_ws inp () (dropWhile is_space inp)"
  using parses_skip [of "takeWhile is_space inp" is_space "dropWhile is_space inp"]
  by (auto simp: skip_ws_def stops_dropWhile dest: set_takeWhileD)

lemma dropWhile_stops: "stops p xs \<Longrightarrow> dropWhile p xs = xs"
  by (cases xs) auto

lemma parses_skip_none: "stops is_space inp \<Longrightarrow> parses skip_ws inp () inp"
  using parses_skip_ws [of inp] by (simp add: dropWhile_stops)

lemma parses_utf8: "valid_utf8 s \<Longrightarrow> parses (utf8P s) inp s inp"
  unfolding utf8P_def by (rule parses_resP) (simp add: from_utf8_Ok_iff)

lemma parses_word: "stops is_ascii_digit rest \<Longrightarrow> parses p_parse_u32 (show_word w @ rest) w rest"
  unfolding p_parse_u32_def scanP_def by (intro parses_map_errP parses_uints)

lemma parses_line: "line_text s \<Longrightarrow> stops (\<lambda>b. \<not> is_newline b) rest \<Longrightarrow> parses read_line (s @ rest) s rest"
  unfolding read_line_def scan_line_def scanP_def line_text_def by (intro parses_map_errP parses_as_str) auto

text \<open>The classes exclude the bytes that separate the parts of an address.\<close>

definition separates :: "(byte \<Rightarrow> bool) \<Rightarrow> bool" where
  "separates f \<longleftrightarrow> (\<forall>b\<in>{CHR '' '', CHR 0x09, CHR 0x0D, CHR 0x0A, CHR '';'', CHR ''='', CHR '','', CHR ''<'',
     CHR ''>'', CHR ''@'', quote}. \<not> f b)"

lemma class_separates [simp]:
  "separates is_token" "separates is_via_param" "separates is_hdr_uri" "separates is_param"
  by (simp_all add: separates_def class_iffs class_bytes quote_def)

lemma separates_space: "separates f \<Longrightarrow> f b \<Longrightarrow> \<not> is_space b"
  by (auto simp: separates_def is_space_def)

section \<open>Parameters\<close>

definition ref_text :: "param_ref \<Rightarrow> bytes" where
  "ref_text r = fst r @ show_opt ''='' id (snd r)"

definition ref_ok :: "(byte \<Rightarrow> bool) \<Rightarrow> param_ref \<Rightarrow> bool" where
  "ref_ok f r \<longleftrightarrow> fst r \<noteq> [] \<and> (\<forall>b\<in>set (fst r). f b) \<and> opt_all (\<lambda>v. \<forall>b\<in>set v. f b) (snd r)"

text \<open>What may follow a parameter.\<close>

definition ends_param :: "(byte \<Rightarrow> bool) \<Rightarrow> bytes \<Rightarrow> bool" where
  "ends_param f rest \<longleftrightarrow> stops (\<lambda>b. f b \<or> b = CHR ''='' \<or> b = quote) rest"

lemma read_ref:
  assumes "separates f" and "ref_ok f r" and "ends_param f rest"
  shows "parses (param_ref_unchecked f) (ref_text r @ rest) r rest"
proof -
  obtain n v where r: "r = (n, v)" by fastforce
  have n: "\<forall>b\<in>set n. f b" "n \<noteq> []" using assms(2) by (auto simp: ref_ok_def r)
  have ws: "stops is_space (n @ xs)" for xs
    using n assms(1) by (cases n) (auto dest: separates_space)
  have f: "stops f rest" "stops (\<lambda>c. c = CHR ''='') rest" "stops (\<lambda>c. c = quote) rest" "\<not> f (CHR ''='')"
    "\<not> f quote"
    using assms(1,3) by (auto simp: ends_param_def stops_def separates_def)
  show ?thesis
  proof (cases v)
    case None
    show ?thesis
      unfolding param_ref_unchecked_def ref_text_def r None
      by (rule parses_thenP [OF parses_skip_none], simp add: show_opt_def ws)
        (rule parses_bindP [OF parses_read_unchecked], use n f in \<open>auto simp: show_opt_def intro!: parses_bindP
          [OF parses_take_no] parses_retP\<close>)
  next
    case (Some w)
    have w: "\<forall>b\<in>set w. f b" "stops (\<lambda>c. c = quote) (w @ rest)"
      using assms(2) f by (cases w; auto simp: ref_ok_def r Some opt_all_def)+
    show ?thesis
      unfolding param_ref_unchecked_def ref_text_def r Some
      using n f w ws
      by (auto simp: show_opt_def intro!: parses_thenP [OF parses_skip_none] parses_bindP [OF parses_read_unchecked]
          parses_bindP [OF parses_take_yes] parses_bindP [OF parses_take_no] parses_retP)
  qed
qed

text \<open>A list of parameters: how the block of the list takes each of them.\<close>

fun param_steps :: "('st \<Rightarrow> ('st \<times> param option) parser) \<Rightarrow> (byte \<Rightarrow> bool) \<Rightarrow> param_ref list \<Rightarrow> 'st \<times> params \<Rightarrow>
  'st \<times> params \<Rightarrow> bool" where
  "param_steps func f [] z z' \<longleftrightarrow> z' = z"
| "param_steps func f (r # rs) z z' \<longleftrightarrow>
     (\<exists>st' p. (\<forall>suf. ends_param f suf \<longrightarrow> parses (func (fst z)) (ref_text r @ suf) (st', p) suf) \<and>
        param_steps func f rs (st', case p of Some p \<Rightarrow> params_push (snd z) p | None \<Rightarrow> snd z) z')"

lemma param_steps_append:
  "param_steps func f (xs @ ys) z z' \<longleftrightarrow> (\<exists>y. param_steps func f xs z y \<and> param_steps func f ys y z')"
  by (induction xs arbitrary: z) auto

definition refs_text :: "param_ref list \<Rightarrow> bytes" where
  "refs_text rs = concat (map (\<lambda>r. CHR '';'' # ref_text r) rs)"

lemma refs_text_simps [simp]:
  "refs_text [] = []" "refs_text (r # rs) = CHR '';'' # ref_text r @ refs_text rs"
  "refs_text (xs @ ys) = refs_text xs @ refs_text ys"
  by (simp_all add: refs_text_def)

lemma refs_ends:
  "separates f \<Longrightarrow> ends_param f rest \<Longrightarrow> ends_param f (refs_text rs @ rest)"
  by (cases rs) (auto simp: ends_param_def separates_def quote_def)

lemma read_param_loop:
  assumes "separates f" and "ends_param f rest" and "stops (\<lambda>b. b = CHR '';'') (dropWhile is_space rest)"
  shows "param_steps func f rs z z' \<Longrightarrow>
    parses (loopP (parse_params_body func) z) (refs_text rs @ (if rs = [] then dropWhile is_space rest else rest)) z'
      (dropWhile is_space rest)"
proof (induction rs arbitrary: z)
  case Nil
  then show ?case
    using assms(3) by (auto simp: parse_params_body_def intro!: parses_loop_break parses_bindP [OF parses_take_no]
        parses_retP)
next
  case (Cons r rs)
  then obtain st' p where r: "\<And>suf. ends_param f suf \<Longrightarrow> parses (func (fst z)) (ref_text r @ suf) (st', p) suf"
    and rs: "param_steps func f rs (st', case p of Some p \<Rightarrow> params_push (snd z) p | None \<Rightarrow> snd z) z'"
    by auto
  let ?z = "(st', case p of Some p \<Rightarrow> params_push (snd z) p | None \<Rightarrow> snd z)"
  let ?mid = "refs_text rs @ (if rs = [] then dropWhile is_space rest else rest)"
  have mid: "dropWhile is_space (refs_text rs @ rest) = ?mid"
    by (cases rs) (simp_all add: is_space_def byte_val_def)
  have "parses (parse_params_body func z) (CHR '';'' # ref_text r @ refs_text rs @ rest) (Continue ?z)
      (dropWhile is_space (refs_text rs @ rest))"
    unfolding parse_params_body_def
    by (intro parses_bindP [OF parses_take_yes])
      (simp, intro parses_bindP [OF r [OF refs_ends [OF assms(1,2)]]] parses_thenP [OF parses_skip_ws] parses_ret,
        simp)
  then have "parses (parse_params_body func z) (CHR '';'' # ref_text r @ refs_text rs @ rest) (Continue ?z) ?mid"
    by (simp only: mid)
  moreover have "length ?mid < length (CHR '';'' # ref_text r @ refs_text rs @ rest)"
    using length_dropWhile_le [of is_space rest] by auto
  ultimately show ?case
    using parses_loop_continue Cons.IH [OF rs] by fastforce
qed

lemma read_params:
  assumes "separates f" and "param_steps func f rs (st, []) z" and "ends_param f rest"
    and "stops (\<lambda>b. b = CHR '';'') (dropWhile is_space rest)"
  shows "parses (parse_params_with func st) (refs_text rs @ rest) z (dropWhile is_space rest)"
proof -
  have "dropWhile is_space (refs_text rs @ rest) = refs_text rs @ (if rs = [] then dropWhile is_space rest else rest)"
    by (cases rs) (simp_all add: is_space_def byte_val_def)
  with parses_skip_ws [of "refs_text rs @ rest"] show ?thesis
    unfolding parse_params_with_def by (intro parses_thenP [OF _ read_param_loop [OF assms(1,3,4,2)]]) simp
qed

section \<open>Hosts and ports\<close>

definition ip_byte :: "byte \<Rightarrow> bool" where
  "ip_byte b \<longleftrightarrow> b \<in> set ''0123456789abcdef.:''"

lemma inj_byte_val: "inj byte_val"
  by (simp add: inj_def byte_val_eq_iff)

lemma ip_bytes_val: "byte_val ` set ''0123456789abcdef.:'' =
  {48, 49, 50, 51, 52, 53, 54, 55, 56, 57, 97, 98, 99, 100, 101, 102, 46, 58}"
  by (simp add: byte_val_def)

lemma ip_byte_val: "ip_byte b \<longleftrightarrow>
  byte_val b \<in> {48, 49, 50, 51, 52, 53, 54, 55, 56, 57, 97, 98, 99, 100, 101, 102, 46, 58}"
  unfolding ip_byte_def ip_bytes_val [symmetric] by (simp only: inj_image_mem_iff [OF inj_byte_val])

lemma digit_ip_byte: "is_ascii_digit b \<Longrightarrow> ip_byte b"
  unfolding ip_byte_val is_ascii_digit_def insert_iff empty_iff by presburger

lemma hex_ip_byte: "d < 16 \<Longrightarrow> ip_byte (hex_char d)"
  unfolding ip_byte_val hex_char_def insert_iff empty_iff by (simp add: byte_val_char_of) presburger

lemma ip_byte_marks [simp]: "ip_byte CHR ''.''" "ip_byte CHR '':''" "ip_byte CHR ''f''"
  by (simp_all add: ip_byte_def)

lemma show_hex_ip: "\<forall>b\<in>set (show_hex n). ip_byte b"
proof (induction n rule: show_hex.induct)
  case (1 n)
  then show ?case using hex_ip_byte by (subst show_hex.simps) auto
qed

lemma show_nat_ip: "b \<in> set (show_nat n) \<Longrightarrow> ip_byte b"
  using show_nat_digits digit_ip_byte by blast

lemma show_segments_ip: "b \<in> set (show_segments gs) \<Longrightarrow> ip_byte b"
proof (induction gs)
  case (Cons g gs)
  then show ?case using show_hex_ip by (auto simp: show_segments_Cons split: if_splits)
qed (simp add: show_segments_def)

lemma show_ip_byte: "b \<in> set (show_ip a) \<Longrightarrow> ip_byte b"
  by (cases a) (auto simp: show_ipv4_def show_ipv6_def Let_def split: if_splits
      dest: show_nat_ip show_segments_ip)

lemma ip_classes:
  "\<forall>b\<in>set ''0123456789abcdef.:''. is_param b \<and> is_via_param b \<and> (b \<noteq> CHR '':'' \<longrightarrow> is_host b)"
  "\<forall>b\<in>set ''0123456789abcdef''. is_token b"
  by (simp_all add: class_iffs class_bytes)

lemma ip_byte_class:
  "ip_byte b \<Longrightarrow> is_param b" "ip_byte b \<Longrightarrow> is_via_param b" "ip_byte b \<Longrightarrow> b \<noteq> CHR '':'' \<Longrightarrow> is_host b"
  using ip_classes(1) by (auto simp only: ip_byte_def)

lemma digit_not_colon: "\<not> is_ascii_digit CHR '':''"
  by (simp add: is_ascii_digit_def byte_val_def)

lemma digit_class:
  "is_ascii_digit b \<Longrightarrow> is_param b" "is_ascii_digit b \<Longrightarrow> is_via_param b" "is_ascii_digit b \<Longrightarrow> is_host b"
  using digit_ip_byte [of b] ip_byte_class [of b] digit_not_colon by auto

fun host_ok :: "host \<Rightarrow> bool" where
  "host_ok (HostName d) \<longleftrightarrow> d \<noteq> [] \<and> (\<forall>b\<in>set d. is_host b) \<and> parse_ip d = None"
| "host_ok (HostIp ip) \<longleftrightarrow> (\<exists>a b c d. ip = IpV4 a b c d)"

text \<open>A host in a parameter may be an IPv6 address, since a parameter may contain colons.\<close>

fun param_host_ok :: "(byte \<Rightarrow> bool) \<Rightarrow> host \<Rightarrow> bool" where
  "param_host_ok f (HostName d) \<longleftrightarrow> (\<forall>b\<in>set d. f b) \<and> parse_ip d = None"
| "param_host_ok f (HostIp ip) \<longleftrightarrow> wf_ip ip"

lemma host_of_show_host: "param_host_ok f h \<Longrightarrow> host_of_str (show_host h) = h"
  by (cases h) (simp_all add: host_of_str_def parse_show_ip)

lemma param_host_bytes:
  "param_host_ok f h \<Longrightarrow> (\<And>b. ip_byte b \<Longrightarrow> f b) \<Longrightarrow> \<forall>b\<in>set (show_host h). f b"
  by (cases h) (auto dest: show_ip_byte)

lemmas param_host_texts = bspec [OF param_host_bytes [of is_param, OF _ ip_byte_class(1)]]
  bspec [OF param_host_bytes [of is_via_param, OF _ ip_byte_class(2)]]

definition host_port_ok :: "host_port \<Rightarrow> bool" where
  "host_port_ok hp \<longleftrightarrow> host_ok (hp_host hp)"

definition ends_host :: "bytes \<Rightarrow> bool" where
  "ends_host rest \<longleftrightarrow> stops (\<lambda>b. is_host b \<or> b = CHR '':'') rest"

lemma ends_host_digits: "ends_host rest \<Longrightarrow> stops is_ascii_digit rest"
  using digit_class by (auto simp: ends_host_def stops_def)

lemma read_port: "ends_host rest \<Longrightarrow> parses parse_port (show_opt '':'' show_word port @ rest) port rest"
proof (cases port)
  case (Some w)
  assume "ends_host rest"
  then have "parses (or_elseP scan_u16 (errP K_Host)) (show_word w @ rest) w rest"
    by (intro parses_or_elseP parses_uints ends_host_digits)
  moreover have "is_valid_port w"
    using unsigned_less [of w, where 'a = nat] by (simp add: is_valid_port_def word_le_nat_alt)
  ultimately show ?thesis
    unfolding parse_port_def Some show_opt_def
    by (auto intro!: parses_bindP [OF parses_take_yes] parses_bindP parses_ret)
qed (auto simp: parse_port_def show_opt_def ends_host_def stops_def intro!: parses_bindP [OF parses_take_no] parses_ret)

lemma show_ipv4_host: "b \<in> set (show_ip (IpV4 a1 a2 a3 a4)) \<Longrightarrow> is_host b" and show_ipv4_Nil: "show_ip (IpV4 a1 a2 a3 a4) \<noteq> []"
proof -
  have n: "CHR '':'' \<notin> set (show_nat n)" for n
    using show_nat_digits [of n] by (auto simp: is_ascii_digit_def byte_val_def)
  show "is_host b" if b: "b \<in> set (show_ip (IpV4 a1 a2 a3 a4))"
  proof (rule ip_byte_class(3) [OF show_ip_byte [OF b]])
    show "b \<noteq> CHR '':''" using b n by (auto simp: show_ipv4_def)
  qed
qed (simp add: show_ipv4_def)

lemma host_text:
  assumes "host_ok h"
  shows "show_host h \<noteq> []" and "\<forall>b\<in>set (show_host h). is_host b"
    and "parse_ip (show_host h) = (case h of HostName d \<Rightarrow> None | HostIp ip \<Rightarrow> Some ip)"
proof -
  have "show_host h \<noteq> [] \<and> (\<forall>b\<in>set (show_host h). is_host b) \<and>
    parse_ip (show_host h) = (case h of HostName d \<Rightarrow> None | HostIp ip \<Rightarrow> Some ip)"
  proof (cases h)
    case (HostIp ip)
    then obtain a1 a2 a3 a4 where ip: "ip = IpV4 a1 a2 a3 a4" using assms by auto
    show ?thesis
      using show_ipv4_host [of _ a1 a2 a3 a4] show_ipv4_Nil [of a1 a2 a3 a4] parse_show_ipv4 [of a1 a2 a3 a4]
      unfolding HostIp ip by simp
  qed (use assms in simp)
  then show "show_host h \<noteq> []" "\<forall>b\<in>set (show_host h). is_host b"
    "parse_ip (show_host h) = (case h of HostName d \<Rightarrow> None | HostIp ip \<Rightarrow> Some ip)"
    by blast+
qed

lemma show_host_port_text: "show_host_port hp = show_host (hp_host hp) @ show_opt '':'' show_word (hp_port hp)"
  by (cases "hp_host hp") (simp_all add: show_host_port_def)

lemma read_host_port:
  assumes "host_port_ok hp" and "ends_host rest"
  shows "parses parse_host_port (show_host_port hp @ rest) hp rest"
proof -
  note h = host_text [OF assms(1) [unfolded host_port_ok_def]]
  let ?port = "show_opt '':'' show_word (hp_port hp) @ rest"
  have "stops is_host ?port"
    using assms(2) by (cases "hp_port hp") (auto simp: show_opt_def ends_host_def stops_def class_iffs class_bytes)
  then have r: "parses read_host (show_host (hp_host hp) @ ?port) (show_host (hp_host hp)) ?port"
    unfolding read_host_def using h by (intro parses_read_unchecked) auto
  obtain b bs where b: "show_host (hp_host hp) = b # bs" "is_host b" using h by (cases "show_host (hp_host hp)") auto
  then have "b \<noteq> CHR ''[''" by (auto simp: class_iffs class_bytes)
  then have k: "parses parse_name_host (show_host (hp_host hp) @ ?port) (hp_host hp) ?port"
    unfolding parse_name_host_def
    using h by (intro parses_bindP [OF r]) (auto intro!: parses_ret split: host.split)
  have "parses (askP peek) (show_host (hp_host hp) @ ?port) (Some b) (show_host (hp_host hp) @ ?port)"
    using parses_peek [of id "show_host (hp_host hp) @ ?port"] b by simp
  moreover have "parses (if Some b = Some (CHR ''['') then parse_ipv6_host else parse_name_host)
      (show_host (hp_host hp) @ ?port) (hp_host hp) ?port"
    using k \<open>b \<noteq> CHR ''[''\<close> by simp
  ultimately show ?thesis
    unfolding parse_host_port_def show_host_port_text append_assoc
    by (rule parses_bindP [OF _ parses_bindP [OF _ parses_bindP [OF read_port [OF assms(2)] parses_ret]]]) simp
qed

section \<open>Scheme and user part\<close>

lemma read_scheme: "parses parse_scheme (show_scheme sch @ CHR '':'' # rest) sch rest"
proof -
  have tok: "takeWhile is_token (show_scheme sch @ CHR '':'' # rest) = show_scheme sch"
    by (cases sch) (simp_all add: class_iffs class_bytes)
  have "parses (askP (peek_while is_token)) (show_scheme sch @ CHR '':'' # rest) (show_scheme sch)
      (show_scheme sch @ CHR '':'' # rest)"
    by (rule parses_askP) (simp add: peek_while_def tok)
  moreover have "parses (if show_scheme sch = ''sip'' then retP Sip else if show_scheme sch = ''sips'' then retP Sips
      else errP K_Scheme) inp sch inp" for inp
    by (cases sch) (simp_all add: parses_retP)
  ultimately show ?thesis
    unfolding parse_scheme_def
    by (intro parses_bindP [OF _ parses_bindP [OF _ parses_thenP [OF parses_advance
        parses_thenP [OF parses_must parses_retP]]]]) auto
qed

definition user_ok :: "user_info \<Rightarrow> bool" where
  "user_ok i \<longleftrightarrow> (\<forall>b\<in>set (ui_user i). is_user b) \<and> opt_all (\<lambda>p. \<forall>b\<in>set p. is_pass b) (ui_pass i)"

text \<open>How far the parser looks for an \<open>@\<close>.\<close>

definition in_address :: "byte \<Rightarrow> bool" where
  "in_address b \<longleftrightarrow> \<not> is_space b \<and> \<not> is_newline b \<and> b \<noteq> CHR ''>''"

definition no_user :: "bytes \<Rightarrow> bool" where
  "no_user inp \<longleftrightarrow> CHR ''@'' \<notin> set (takeWhile in_address inp)"

lemma no_user_append: "CHR ''@'' \<notin> set xs \<Longrightarrow> no_user rest \<Longrightarrow> no_user (xs @ rest)"
  by (induction xs) (auto simp: no_user_def)

lemma no_user_simps [simp]:
  "no_user []" "no_user (CHR ''>'' # rest)" "no_user (CHR '' '' # rest)" "no_user (CHR 0x0D # rest)"
  by (simp_all add: no_user_def in_address_def is_space_def is_newline_def)

lemma parses_user_test: "parses (askP exists_user_part) inp (\<not> no_user inp) inp"
  by (rule parses_askP) (simp add: exists_user_part_def no_user_def in_address_def [abs_def])

lemma user_bytes: "is_user b \<Longrightarrow> in_address b" "is_pass b \<Longrightarrow> in_address b"
  by (auto simp: in_address_def is_space_def is_newline_def class_iffs class_bytes)

lemma user_text_seen: "user_ok i \<Longrightarrow> \<not> no_user (show_user_info i @ rest)"
proof -
  assume i: "user_ok i"
  have "\<forall>b\<in>set (show_user_info i). in_address b"
    using i by (auto simp: user_ok_def opt_all_def show_user_info_def show_opt_def split: option.splits
        intro: user_bytes) (simp_all add: in_address_def is_space_def is_newline_def)
  then have "takeWhile in_address (show_user_info i @ rest) = show_user_info i @ takeWhile in_address rest"
    by simp
  then show ?thesis by (simp add: no_user_def show_user_info_def)
qed

lemma read_user_info:
  assumes "opt_all user_ok v" and "v = None \<Longrightarrow> no_user rest"
  shows "parses parse_user_info (show_opt '''' show_user_info v @ rest) v rest"
proof (cases v)
  case None
  then show ?thesis
    using assms(2) parses_user_test [of rest]
    by (auto simp: parse_user_info_def show_opt_def intro!: parses_ret elim!: parses_bindP)
next
  case (Some i)
  let ?pass = "show_opt '':'' id (ui_pass i) @ CHR ''@'' # rest"
  have i: "user_ok i" using assms(1) by (simp add: Some opt_all_def)
  have t: "parses (askP exists_user_part) (ui_user i @ ?pass) True (ui_user i @ ?pass)"
    using parses_user_test [of "show_user_info i @ rest"] user_text_seen [OF i, of rest]
    by (simp add: show_user_info_def)
  have u: "parses read_user (ui_user i @ ?pass) (ui_user i) ?pass"
    unfolding read_user_def using i
    by (intro parses_read_unchecked)
      (auto simp: user_ok_def show_opt_def class_iffs class_bytes split: option.split)
  have at: "parses (or_elseP (must_read (CHR ''@'')) (errP K_Uri)) (CHR ''@'' # rest) () rest"
    by (intro parses_or_elseP parses_must_read)
  have shown: "show_opt [] show_user_info (Some i) @ rest = ui_user i @ ?pass"
    by (simp add: show_user_info_def show_opt_def)
  have "parses (bindP (take_if_eq (CHR '':'')) (\<lambda>colon. bindP (case colon of
      Some _ \<Rightarrow> bindP read_pass (\<lambda>p. retP (Some p)) | None \<Rightarrow> retP None) (\<lambda>pass.
      thenP (or_elseP (must_read (CHR ''@'')) (errP K_Uri)) (retP (Some \<lparr>ui_user = ui_user i, ui_pass = pass\<rparr>)))))
      ?pass (Some i) rest"
  proof (cases "ui_pass i")
    case None
    then show ?thesis
      by (auto simp: show_opt_def intro!: parses_bindP [OF parses_take_no] parses_bindP [OF parses_retP]
          parses_thenP [OF at] parses_ret)
  next
    case pass: (Some p)
    have "parses read_pass (p @ CHR ''@'' # rest) p (CHR ''@'' # rest)"
      unfolding read_pass_def using i
      by (intro parses_read_unchecked) (auto simp: user_ok_def opt_all_def pass class_iffs class_bytes)
    then show ?thesis
      by (auto simp: show_opt_def pass intro!: parses_bindP [OF parses_take_yes] parses_bindP [OF parses_bindP]
          parses_thenP [OF at] parses_ret)
  qed
  then show ?thesis
    unfolding parse_user_info_def Some shown
    by (intro parses_bindP [OF t]) (simp add: parses_bindP [OF u])
qed

section \<open>URI parameters and headers\<close>

definition ref_of :: "param \<Rightarrow> param_ref" where
  "ref_of p = (p_name p, p_value p)"

definition opt_ref :: "bytes \<Rightarrow> ('a \<Rightarrow> bytes) \<Rightarrow> 'a option \<Rightarrow> param_ref list" where
  "opt_ref n f v = (case v of None \<Rightarrow> [] | Some x \<Rightarrow> [(n, Some (f x))])"

definition plain_params_ok :: "(byte \<Rightarrow> bool) \<Rightarrow> bytes set \<Rightarrow> params \<Rightarrow> bool" where
  "plain_params_ok f taken ps \<longleftrightarrow> (\<forall>p\<in>set ps. ref_ok f (ref_of p) \<and> p_name p \<notin> taken)"

lemma param_of_ref_of [simp]: "param_of_ref (ref_of p) = p"
  by (simp add: ref_of_def param_of_ref_def)

lemma refs_text_opt: "refs_text (opt_ref n f v) = show_opt (CHR '';'' # n @ ''='') f v"
  by (cases v) (simp_all add: opt_ref_def ref_text_def show_opt_def)

lemma refs_text_params: "refs_text (map ref_of ps) = show_params ps"
  by (induction ps) (simp_all add: ref_text_def ref_of_def show_param_def)

text \<open>The generic parameters of a list are kept in order.\<close>

lemma generic_steps:
  assumes "\<And>st p suf. p \<in> set ps \<Longrightarrow> ends_param f suf \<Longrightarrow> parses (func st) (ref_text (ref_of p) @ suf) (st, Some p) suf"
  shows "param_steps func f (map ref_of ps) (st, qs) (st, qs @ ps)"
  using assms
proof (induction ps arbitrary: qs)
  case (Cons p ps)
  have "param_steps func f (map ref_of ps) (st, qs @ [p]) (st, (qs @ [p]) @ ps)"
    using Cons.prems by (intro Cons.IH) auto
  with Cons.prems show ?case by (auto simp: params_push_def intro!: exI [where x = st] exI [where x = "Some p"])
qed simp

lemma one_step:
  assumes "\<And>suf. ends_param f suf \<Longrightarrow> parses (func st) (ref_text r @ suf) (st', None) suf"
  shows "param_steps func f [r] (st, ps) (st', ps)"
  using assms by (auto intro!: exI [where x = st'] exI [where x = None])

lemma opt_step:
  assumes "\<And>x suf. v = Some x \<Longrightarrow> ends_param f suf \<Longrightarrow>
      parses (func st) (ref_text (n, Some (g x)) @ suf) (st', None) suf"
    and "v = None \<Longrightarrow> st' = st"
  shows "param_steps func f (opt_ref n g v) (st, ps) (st', ps)"
  using assms by (cases v) (auto simp: opt_ref_def intro!: exI [where x = st'] exI [where x = None])

abbreviation uri_param_names :: "bytes set" where
  "uri_param_names \<equiv> {''user'', ''method'', ''transport'', ''ttl'', ''lr'', ''maddr''}"

lemmas read_uri_param = parses_bindP [OF read_ref [OF class_separates(4), folded parse_uri_param_def]]

lemma uri_names_ok: "n \<in> uri_param_names \<Longrightarrow> n \<noteq> [] \<and> (\<forall>b\<in>set n. is_param b)"
  by (elim insertE) (simp_all add: class_iffs class_bytes)

lemma uri_ref_ok: "n \<in> uri_param_names \<Longrightarrow> \<forall>b\<in>set v. is_param b \<Longrightarrow> ref_ok is_param (n, Some v)"
  using uri_names_ok by (simp add: ref_ok_def opt_all_def)

lemma uri_text_values:
  "\<forall>b\<in>set (method_str m). is_param b" "\<forall>b\<in>set (as_lower_case t). is_param b"
  "\<forall>b\<in>set (show_word w). is_param b"
proof -
  show "\<forall>b\<in>set (method_str m). is_param b" by (cases m) (simp_all add: class_iffs class_bytes)
  show "\<forall>b\<in>set (as_lower_case t). is_param b" by (cases t) (simp_all add: class_iffs class_bytes)
  show "\<forall>b\<in>set (show_word w). is_param b" using show_nat_digits digit_class(1) by blast
qed

lemma uri_steps:
  "u_user_param u = None \<Longrightarrow> opt_all (\<lambda>v. \<forall>b\<in>set v. is_param b) us \<Longrightarrow>
     param_steps uri_param_step is_param (opt_ref ''user'' id us) (u, ps) (u\<lparr>u_user_param := us\<rparr>, ps)"
  "u_method_param u = None \<Longrightarrow>
     param_steps uri_param_step is_param (opt_ref ''method'' method_str m) (u, ps) (u\<lparr>u_method_param := m\<rparr>, ps)"
  "u_maddr_param u = None \<Longrightarrow> opt_all (param_host_ok is_param) h \<Longrightarrow>
     param_steps uri_param_step is_param (opt_ref ''maddr'' show_host h) (u, ps) (u\<lparr>u_maddr_param := h\<rparr>, ps)"
  "u_transport_param u = None \<Longrightarrow>
     param_steps uri_param_step is_param (opt_ref ''transport'' as_lower_case t) (u, ps) (u\<lparr>u_transport_param := t\<rparr>, ps)"
  "u_ttl_param u = None \<Longrightarrow>
     param_steps uri_param_step is_param (opt_ref ''ttl'' show_word w) (u, ps) (u\<lparr>u_ttl_param := w\<rparr>, ps)"
  "\<not> u_lr_param u \<Longrightarrow>
     param_steps uri_param_step is_param (if lr then [(''lr'', None)] else []) (u, ps) (u\<lparr>u_lr_param := lr\<rparr>, ps)"
proof -
  show "opt_all (\<lambda>v. \<forall>b\<in>set v. is_param b) us \<Longrightarrow> u_user_param u = None \<Longrightarrow>
     param_steps uri_param_step is_param (opt_ref ''user'' id us) (u, ps) (u\<lparr>u_user_param := us\<rparr>, ps)"
    unfolding uri_param_step_def
    by (rule opt_step, rule read_uri_param) (auto simp: opt_all_def intro!: uri_ref_ok parses_ret)
  show "u_method_param u = None \<Longrightarrow>
     param_steps uri_param_step is_param (opt_ref ''method'' method_str m) (u, ps) (u\<lparr>u_method_param := m\<rparr>, ps)"
    unfolding uri_param_step_def
    by (rule opt_step, rule read_uri_param)
      (auto simp: method_of_method_str intro!: uri_ref_ok uri_text_values parses_ret)
  show "u_maddr_param u = None \<Longrightarrow> opt_all (param_host_ok is_param) h \<Longrightarrow>
     param_steps uri_param_step is_param (opt_ref ''maddr'' show_host h) (u, ps) (u\<lparr>u_maddr_param := h\<rparr>, ps)"
    unfolding uri_param_step_def
    by (rule opt_step, rule read_uri_param)
      (auto simp: opt_all_def host_of_show_host intro!: uri_ref_ok param_host_texts(1) parses_ret)
  show "u_transport_param u = None \<Longrightarrow>
     param_steps uri_param_step is_param (opt_ref ''transport'' as_lower_case t) (u, ps) (u\<lparr>u_transport_param := t\<rparr>, ps)"
    unfolding uri_param_step_def
    by (rule opt_step, rule read_uri_param)
      (auto simp: parse_protocol_as_lower_case intro!: uri_ref_ok uri_text_values parses_bindP
        parses_or_elseP parses_resP parses_ret)
  show "u_ttl_param u = None \<Longrightarrow>
     param_steps uri_param_step is_param (opt_ref ''ttl'' show_word w) (u, ps) (u\<lparr>u_ttl_param := w\<rparr>, ps)"
    unfolding uri_param_step_def
    by (rule opt_step, rule read_uri_param)
      (auto intro!: uri_ref_ok uri_text_values parses_bindP parses_or_elseP parses_resP parses_ret)
  show "\<not> u_lr_param u \<Longrightarrow>
     param_steps uri_param_step is_param (if lr then [(''lr'', None)] else []) (u, ps) (u\<lparr>u_lr_param := lr\<rparr>, ps)"
    unfolding uri_param_step_def
    using uri_names_ok [of "''lr''"]
    by (cases lr) (auto simp: ref_ok_def opt_all_def intro!: one_step [unfolded uri_param_step_def] read_uri_param
        parses_ret)
qed

definition uri_refs :: "uri \<Rightarrow> param_ref list" where
  "uri_refs u =
     opt_ref ''user'' id (u_user_param u) @ opt_ref ''method'' method_str (u_method_param u) @
     opt_ref ''maddr'' show_host (u_maddr_param u) @ opt_ref ''transport'' as_lower_case (u_transport_param u) @
     opt_ref ''ttl'' show_word (u_ttl_param u) @ (if u_lr_param u then [(''lr'', None)] else []) @
     map ref_of (u_params u)"

lemma uri_refs_text: "refs_text (uri_refs u) = show_uri_params u"
  by (simp add: uri_refs_def show_uri_params_def refs_text_opt refs_text_params) (simp add: ref_text_def show_opt_def)

definition uri_params_ok :: "uri \<Rightarrow> bool" where
  "uri_params_ok u \<longleftrightarrow> opt_all (\<lambda>v. \<forall>b\<in>set v. is_param b) (u_user_param u) \<and>
     opt_all (param_host_ok is_param) (u_maddr_param u) \<and> plain_params_ok is_param uri_param_names (u_params u)"

lemma uri_generic_step:
  "ref_ok is_param (ref_of p) \<Longrightarrow> p_name p \<notin> uri_param_names \<Longrightarrow> ends_param is_param suf \<Longrightarrow>
     parses (uri_param_step u) (ref_text (ref_of p) @ suf) (u, Some p) suf"
  unfolding uri_param_step_def
  by (rule read_uri_param) (auto simp: ref_of_def param_of_ref_def intro!: parses_ret)

lemma uri_param_steps:
  assumes "uri_params_ok u"
  shows "param_steps uri_param_step is_param (uri_refs u)
    (default_uri\<lparr>u_scheme := u_scheme u, u_user := u_user u, u_host_port := u_host_port u\<rparr>, [])
    (u\<lparr>u_params := [], u_headers := None\<rparr>, u_params u)"
proof -
  let ?u = "default_uri\<lparr>u_scheme := u_scheme u, u_user := u_user u, u_host_port := u_host_port u,
    u_user_param := u_user_param u, u_method_param := u_method_param u, u_maddr_param := u_maddr_param u,
    u_transport_param := u_transport_param u, u_ttl_param := u_ttl_param u, u_lr_param := u_lr_param u\<rparr>"
  have "param_steps uri_param_step is_param (map ref_of (u_params u)) (?u, []) (?u, [] @ u_params u)"
    using assms by (intro generic_steps uri_generic_step) (auto simp: uri_params_ok_def plain_params_ok_def)
  moreover have "?u = u\<lparr>u_params := [], u_headers := None\<rparr>"
    by (cases u) (simp add: default_uri_def)
  ultimately have generic: "param_steps uri_param_step is_param (map ref_of (u_params u)) (?u, [])
      (u\<lparr>u_params := [], u_headers := None\<rparr>, u_params u)"
    by simp
  show ?thesis
    unfolding uri_refs_def param_steps_append
    by (intro exI conjI; (rule generic | rule uri_steps; use assms in \<open>simp add: default_uri_def uri_params_ok_def\<close>))
qed

text \<open>The headers of a URI: a value that is missing is printed as an empty one.\<close>

definition header_param_ok :: "param \<Rightarrow> bool" where
  "header_param_ok p \<longleftrightarrow> ref_ok is_hdr_uri (ref_of p) \<and> p_value p \<noteq> None"

definition uri_headers_ok :: "uri_headers \<Rightarrow> bool" where
  "uri_headers_ok hs \<longleftrightarrow> hs \<noteq> [] \<and> (\<forall>p\<in>set hs. header_param_ok p)"

lemma header_param_text: "header_param_ok p \<Longrightarrow> show_uri_header p = ref_text (ref_of p)"
  by (auto simp: show_uri_header_def ref_text_def ref_of_def header_param_ok_def show_opt_def)

lemma read_uri_header:
  "header_param_ok p \<Longrightarrow> ends_param is_hdr_uri rest \<Longrightarrow> parses parse_uri_header (show_uri_header p @ rest) p rest"
proof -
  assume p: "header_param_ok p" and rest: "ends_param is_hdr_uri rest"
  then have "show_uri_header p = ref_text (ref_of p)" by (intro header_param_text)
  moreover have "ref_ok is_hdr_uri (ref_of p)" using p by (simp add: header_param_ok_def)
  ultimately show ?thesis
    using read_ref [OF class_separates(3) _ rest] unfolding parse_uri_header_def
    by (simp only:) (rule parses_bindP [OF _ parses_ret], assumption, simp)
qed

lemma read_uri_headers:
  assumes "uri_headers_ok hs" and "ends_param is_hdr_uri rest" and "stops (\<lambda>b. b = CHR ''&'') rest"
  shows "parses parse_uri_headers (show_uri_headers hs @ rest) hs rest"
proof -
  have "parses (loopP uri_headers_body acc) (show_uri_headers hs @ rest) (acc @ hs) rest" for acc
    using assms(1)
  proof (induction hs arbitrary: acc)
    case (Cons p hs)
    then have p: "header_param_ok p" by (simp add: uri_headers_ok_def)
    show ?case
    proof (cases hs)
      case Nil
      then show ?thesis
        using read_uri_header [OF p assms(2)] assms(3)
        by (auto simp: uri_headers_body_def show_uri_headers_def params_push_def
            intro!: parses_loop_break parses_bindP parses_take_no parses_ret elim!: parses_bindP)
    next
      case (Cons q qs)
      let ?mid = "show_uri_headers hs @ rest"
      have "ends_param is_hdr_uri (CHR ''&'' # ?mid)"
        by (simp add: ends_param_def quote_def class_iffs class_bytes)
      then have "parses (uri_headers_body acc) (show_uri_header p @ CHR ''&'' # ?mid) (Continue (acc @ [p])) ?mid"
        unfolding uri_headers_body_def
        by (intro parses_bindP [OF read_uri_header [OF p]] parses_bindP [OF parses_take_yes])
          (auto simp: params_push_def intro: parses_ret)
      moreover have "parses (loopP uri_headers_body (acc @ [p])) ?mid ((acc @ [p]) @ hs) rest"
        using Cons.IH [of "acc @ [p]"] Cons.prems Cons by (simp add: uri_headers_ok_def)
      ultimately show ?thesis
        using parses_loop_continue Cons by (fastforce simp: show_uri_headers_def)
    qed
  qed (simp add: uri_headers_ok_def)
  from this [of "[]"] show ?thesis by (simp add: parse_uri_headers_def)
qed

section \<open>URIs\<close>

definition uri_ok :: "uri \<Rightarrow> bool" where
  "uri_ok u \<longleftrightarrow> opt_all user_ok (u_user u) \<and> host_port_ok (u_host_port u) \<and> uri_params_ok u \<and>
     opt_all uri_headers_ok (u_headers u)"

text \<open>A URI stands before a closing angle bracket, or before the version of a request line.\<close>

definition ends_uri :: "bytes \<Rightarrow> bool" where
  "ends_uri rest \<longleftrightarrow> (\<exists>r. rest = CHR ''>'' # r \<or> rest = CHR '' '' # CHR ''S'' # r)"

definition after_uri :: "uri \<Rightarrow> bytes \<Rightarrow> bytes" where
  "after_uri u rest = (if u_headers u = None then dropWhile is_space rest else rest)"

lemma ends_uri_facts:
  assumes "ends_uri rest"
  shows "ends_param is_param rest" and "ends_param is_hdr_uri rest" and "stops (\<lambda>b. b = CHR ''&'') rest"
    and "ends_host rest" and "no_user rest" and "stops (\<lambda>b. b = CHR '';'') (dropWhile is_space rest)"
    and "stops (\<lambda>b. b = CHR ''?'') (dropWhile is_space rest)"
  using assms
  by (auto simp: ends_uri_def ends_param_def ends_host_def class_iffs class_bytes quote_def is_space_def)

lemma uri_refs_ok: "uri_params_ok u \<Longrightarrow> \<forall>r\<in>set (uri_refs u). ref_ok is_param r"
proof -
  assume u: "uri_params_ok u"
  have lr: "ref_ok is_param (''lr'', None)" using uri_names_ok [of "''lr''"] by (simp add: ref_ok_def opt_all_def)
  have opt: "\<forall>r\<in>set (opt_ref n f v). ref_ok is_param r"
    if "n \<in> uri_param_names" "\<And>x. v = Some x \<Longrightarrow> \<forall>b\<in>set (f x). is_param b" for n v and f :: "'b \<Rightarrow> bytes"
    using uri_ref_ok [OF that(1)] that(2) by (cases v) (auto simp: opt_ref_def)
  have us: "\<forall>r\<in>set (opt_ref ''user'' id (u_user_param u)). ref_ok is_param r"
    by (rule opt) (use u in \<open>simp_all add: uri_params_ok_def opt_all_def\<close>)
  have ma: "\<forall>r\<in>set (opt_ref ''maddr'' show_host (u_maddr_param u)). ref_ok is_param r"
    by (rule opt) (use u param_host_texts(1) in \<open>auto simp: uri_params_ok_def opt_all_def\<close>)
  have me: "\<forall>r\<in>set (opt_ref ''method'' method_str (u_method_param u)). ref_ok is_param r"
    by (rule opt, simp, rule uri_text_values)
  have tr: "\<forall>r\<in>set (opt_ref ''transport'' as_lower_case (u_transport_param u)). ref_ok is_param r"
    by (rule opt, simp, rule uri_text_values)
  have tt: "\<forall>r\<in>set (opt_ref ''ttl'' show_word (u_ttl_param u)). ref_ok is_param r"
    by (rule opt, simp, rule uri_text_values)
  have "\<forall>r\<in>set (map ref_of (u_params u)). ref_ok is_param r"
    using u by (simp add: uri_params_ok_def plain_params_ok_def)
  with us ma me tr tt lr show ?thesis
    unfolding uri_refs_def set_append ball_Un by simp
qed

lemma ref_text_no_at: "separates f \<Longrightarrow> ref_ok f r \<Longrightarrow> CHR ''@'' \<notin> set (ref_text r)"
  by (auto simp: separates_def ref_ok_def ref_text_def opt_all_def show_opt_def split: option.splits)

lemma refs_text_no_at: "separates f \<Longrightarrow> \<forall>r\<in>set rs. ref_ok f r \<Longrightarrow> CHR ''@'' \<notin> set (refs_text rs)"
  using ref_text_no_at by (induction rs) auto

lemma host_port_no_at: "host_port_ok hp \<Longrightarrow> CHR ''@'' \<notin> set (show_host_port hp)"
proof -
  assume "host_port_ok hp"
  then have "\<forall>b\<in>set (show_host (hp_host hp)). is_host b" by (intro host_text(2)) (simp add: host_port_ok_def)
  moreover have "\<not> is_host (CHR ''@'')" by (simp add: class_iffs class_bytes)
  moreover have "CHR ''@'' \<notin> set (show_nat n)" for n
    using show_nat_digits [of n] by (auto simp: is_ascii_digit_def byte_val_def)
  ultimately show ?thesis by (auto simp: show_host_port_text show_opt_def split: option.splits)
qed

lemma join_bytes: "c \<notin> set sep \<Longrightarrow> \<forall>s\<in>set xs. c \<notin> set s \<Longrightarrow> c \<notin> set (join sep xs)"
  by (induction sep xs rule: join.induct) auto

lemma uri_headers_no_at: "uri_headers_ok hs \<Longrightarrow> CHR ''@'' \<notin> set (show_uri_headers hs)"
  unfolding show_uri_headers_def uri_headers_ok_def
  by (rule join_bytes) (auto simp: header_param_text dest!: ref_text_no_at [OF class_separates(3)]
      simp: header_param_ok_def)

lemma headers_part:
  assumes "uri_ok u" and "ends_uri rest"
  defines "hs \<equiv> show_opt ''?'' show_uri_headers (u_headers u)"
  shows "ends_param is_param (hs @ rest)" and "ends_host (hs @ rest)"
    and "stops (\<lambda>b. b = CHR '';'') (dropWhile is_space (hs @ rest))"
    and "dropWhile is_space (hs @ rest) = hs @ after_uri u rest" and "no_user (hs @ rest)"
proof -
  note e = ends_uri_facts [OF assms(2)]
  have q: "\<not> is_param (CHR ''?'')" "\<not> is_host (CHR ''?'')" "\<not> is_space (CHR ''?'')" "CHR ''?'' \<noteq> quote"
    by (simp_all add: class_iffs class_bytes is_space_def quote_def)
  have at: "CHR ''@'' \<notin> set (show_uri_headers h)" if "u_headers u = Some h" for h
    using assms(1) that by (intro uri_headers_no_at) (simp add: uri_ok_def opt_all_def)
  show "ends_param is_param (hs @ rest)" "ends_host (hs @ rest)"
    "stops (\<lambda>b. b = CHR '';'') (dropWhile is_space (hs @ rest))"
    "dropWhile is_space (hs @ rest) = hs @ after_uri u rest"
    using e q unfolding hs_def
    by (cases "u_headers u"; simp add: show_opt_def after_uri_def ends_param_def ends_host_def)+
  show "no_user (hs @ rest)"
    using e at no_user_append [of "CHR ''?'' # show_uri_headers (the (u_headers u))" rest] unfolding hs_def
    by (cases "u_headers u") (simp_all add: show_opt_def)
qed

lemma read_uri:
  assumes "uri_ok u" and "ends_uri rest"
  shows "parses (parse_uri True) (show_uri u @ rest) u (after_uri u rest)"
proof -
  let ?hs = "show_opt ''?'' show_uri_headers (u_headers u)"
  let ?ps = "refs_text (uri_refs u) @ ?hs @ rest"
  note e = ends_uri_facts [OF assms(2)]
  note hs = headers_part [OF assms]
  have ps: "ends_host ?ps"
    using hs(2) by (cases "uri_refs u") (auto simp: ends_host_def class_iffs class_bytes)
  have "no_user (show_host_port (u_host_port u) @ ?ps)"
    using assms(1) by (intro no_user_append [OF host_port_no_at] no_user_append [OF refs_text_no_at
      [OF class_separates(4) uri_refs_ok] hs(5)]) (auto simp: uri_ok_def)
  then have user: "parses parse_user_info (show_opt [] show_user_info (u_user u) @ show_host_port (u_host_port u) @ ?ps)
      (u_user u) (show_host_port (u_host_port u) @ ?ps)"
    using assms(1) by (intro read_user_info) (auto simp: uri_ok_def)
  have hp: "parses parse_host_port (show_host_port (u_host_port u) @ ?ps) (u_host_port u) ?ps"
    using assms(1) ps by (intro read_host_port) (auto simp: uri_ok_def)
  have params: "parses (parse_params_with uri_param_step
      (default_uri\<lparr>u_scheme := u_scheme u, u_user := u_user u, u_host_port := u_host_port u\<rparr>)) ?ps
      (u\<lparr>u_params := [], u_headers := None\<rparr>, u_params u) (?hs @ after_uri u rest)"
    using read_params [OF class_separates(4) uri_param_steps hs(1,3)] assms(1) hs(4) by (simp add: uri_ok_def)
  have headers: "parses (bindP (take_if_eq (CHR ''?'')) (\<lambda>q. bindP (case q of
      Some _ \<Rightarrow> bindP parse_uri_headers (\<lambda>h. retP (Some h)) | None \<Rightarrow> retP None) g)) (?hs @ after_uri u rest) x r"
    if "parses (g (u_headers u)) (after_uri u rest) x r" for g :: "params option \<Rightarrow> 'z parser" and x r
  proof (cases "u_headers u")
    case None
    then show ?thesis
      using that e(7) by (auto simp: show_opt_def after_uri_def intro!: parses_bindP [OF parses_take_no]
          parses_bindP [OF parses_retP])
  next
    case (Some h)
    then have "parses parse_uri_headers (show_uri_headers h @ rest) h rest"
      using assms(1) e by (intro read_uri_headers) (auto simp: uri_ok_def opt_all_def)
    then show ?thesis
      using that Some by (auto simp: show_opt_def after_uri_def intro!: parses_bindP [OF parses_take_yes]
          parses_bindP [OF parses_bindP [OF _ parses_retP]])
  qed
  have "show_uri u @ rest = show_scheme (u_scheme u) @ CHR '':'' # show_opt [] show_user_info (u_user u) @
      show_host_port (u_host_port u) @ ?ps"
    by (simp add: show_uri_def uri_refs_text)
  then show ?thesis
    unfolding parse_uri_def
    by (simp only: Let_def not_True_eq_False if_False)
      (intro parses_bindP [OF read_scheme] parses_bindP [OF user] parses_bindP [OF hp] parses_bindP [OF params],
        simp only: case_prod_conv, intro headers parses_ret, simp)
qed

text \<open>Without brackets the parameters belong to the header, so only a URI without any reads back.\<close>

definition bare_uri :: "uri \<Rightarrow> bool" where
  "bare_uri u \<longleftrightarrow> opt_all user_ok (u_user u) \<and> host_port_ok (u_host_port u) \<and>
     u = default_uri\<lparr>u_scheme := u_scheme u, u_user := u_user u, u_host_port := u_host_port u\<rparr>"

lemma bare_uri_text: "bare_uri u \<Longrightarrow> show_uri u = show_scheme (u_scheme u) @ CHR '':'' #
    show_opt [] show_user_info (u_user u) @ show_host_port (u_host_port u)"
proof -
  assume "bare_uri u"
  then obtain sch us hp where "u = default_uri\<lparr>u_scheme := sch, u_user := us, u_host_port := hp\<rparr>"
    unfolding bare_uri_def by blast
  then show ?thesis by (simp add: show_uri_def show_uri_params_def show_opt_def default_uri_def)
qed

lemma read_bare_uri:
  assumes "bare_uri u" and "ends_host rest" and "no_user rest"
  shows "parses (parse_uri False) (show_uri u @ rest) u rest"
proof -
  have ok: "opt_all user_ok (u_user u)" "host_port_ok (u_host_port u)" using assms(1) by (auto simp: bare_uri_def)
  have "parses parse_user_info (show_opt [] show_user_info (u_user u) @ show_host_port (u_host_port u) @ rest)
      (u_user u) (show_host_port (u_host_port u) @ rest)"
    using assms ok by (intro read_user_info no_user_append host_port_no_at) auto
  moreover have "parses parse_host_port (show_host_port (u_host_port u) @ rest) (u_host_port u) rest"
    using assms ok by (intro read_host_port) auto
  moreover have "default_uri\<lparr>u_scheme := u_scheme u, u_user := u_user u, u_host_port := u_host_port u\<rparr> = u"
    using assms(1) by (simp add: bare_uri_def)
  ultimately show ?thesis
    unfolding parse_uri_def bare_uri_text [OF assms(1)]
    by (auto simp: Let_def intro!: parses_bindP [OF read_scheme] intro: parses_bindP parses_ret)
qed

section \<open>Name-addrs and the two forms of an address\<close>

definition name_addr_ok :: "name_addr \<Rightarrow> bool" where
  "name_addr_ok a \<longleftrightarrow> opt_all (\<lambda>d. valid_utf8 d \<and> quote \<notin> set d) (na_display a) \<and> uri_ok (na_uri a)"

fun sip_uri_ok :: "sip_uri \<Rightarrow> bool" where
  "sip_uri_ok (PlainUri u) \<longleftrightarrow> bare_uri u"
| "sip_uri_ok (NamedUri a) \<longleftrightarrow> name_addr_ok a"

lemma read_quoted: "quote \<notin> set d \<Longrightarrow> valid_utf8 d \<Longrightarrow> parses quoted_rest (d @ quote # rest) d rest"
  unfolding quoted_rest_def scan_whileP_def
  by (intro parses_bindP [OF parses_scan_while] parses_thenP [OF parses_advance_one] parses_utf8) auto

lemma quote_marks: "\<not> is_space quote" "CHR ''<'' \<noteq> quote" "\<not> is_space CHR ''<''" "is_space CHR '' ''"
  by (simp_all add: quote_def is_space_def)

lemma read_display:
  assumes "opt_all (\<lambda>d. valid_utf8 d \<and> quote \<notin> set d) v" and f: "parses (f v) (CHR ''<'' # rest) x r"
  shows "parses (bindP parse_display_name (\<lambda>display. thenP skip_ws (f display)))
    ((case v of Some d \<Rightarrow> [quote] @ d @ [quote] @ '' '' | None \<Rightarrow> []) @ CHR ''<'' # rest) x r"
proof (cases v)
    case None
    have "parses parse_display_name (CHR ''<'' # rest) None (CHR ''<'' # rest)"
      unfolding parse_display_name_def
      by (rule parses_bindP [OF parses_peek [of id, unfolded id_apply]]) (simp add: quote_marks parses_retP)
    moreover have "parses skip_ws (CHR ''<'' # rest) () (CHR ''<'' # rest)"
      by (intro parses_skip_none) (simp add: quote_marks)
    ultimately show ?thesis
      using f unfolding None by (auto intro: parses_bindP parses_thenP)
  next
    case (Some d)
    then have d: "quote \<notin> set d" "valid_utf8 d" using assms(1) by (auto simp: opt_all_def)
    have "parses parse_display_name (quote # d @ quote # CHR '' '' # CHR ''<'' # rest) (Some d) (CHR '' '' # CHR ''<'' # rest)"
      unfolding parse_display_name_def
      by (rule parses_bindP [OF parses_peek [of id, unfolded id_apply]])
        (simp, intro parses_thenP [OF parses_advance_one] parses_bindP [OF read_quoted [OF d]] parses_retP)
    moreover have "parses skip_ws (CHR '' '' # CHR ''<'' # rest) () (CHR ''<'' # rest)"
      using parses_skip_ws [of "CHR '' '' # CHR ''<'' # rest"] by (simp add: quote_marks)
    ultimately show ?thesis
      using f unfolding Some by (auto intro: parses_bindP parses_thenP)
qed

lemma name_addr_text: "show_name_addr a @ rest =
  (case na_display a of Some d \<Rightarrow> [quote] @ d @ [quote] @ '' '' | None \<Rightarrow> []) @ CHR ''<'' # show_uri (na_uri a) @ CHR ''>'' # rest"
  by (simp add: show_name_addr_def)

lemma name_addr_first: "\<exists>b bs. show_name_addr a @ rest = b # bs \<and> (b = quote \<or> b = CHR ''<'')"
  by (cases "na_display a") (auto simp: show_name_addr_def)

lemma read_name_addr:
  assumes "name_addr_ok a"
  shows "parses parse_name_addr (show_name_addr a @ rest) a rest"
proof -
  have "parses (parse_uri True) (show_uri (na_uri a) @ CHR ''>'' # rest) (na_uri a) (CHR ''>'' # rest)"
    using assms read_uri [of "na_uri a" "CHR ''>'' # rest"]
    by (simp add: name_addr_ok_def ends_uri_def after_uri_def is_space_def split: if_splits)
  then have "parses (thenP (must_readP (CHR ''<'')) (bindP (parse_uri True) (\<lambda>u. thenP (must_readP (CHR ''>''))
      (retP \<lparr>na_display = na_display a, na_uri = u\<rparr>)))) (CHR ''<'' # show_uri (na_uri a) @ CHR ''>'' # rest) a rest"
    by (intro parses_thenP [OF parses_must] parses_bindP [OF _ parses_thenP [OF parses_must parses_ret]]) auto
  moreover have "stops is_space (show_name_addr a @ rest)"
    using name_addr_first [of a rest] by (auto simp: quote_marks)
  ultimately show ?thesis
    using assms unfolding parse_name_addr_def name_addr_text
    by (intro parses_thenP [OF parses_skip_none] read_display) (auto simp: name_addr_ok_def)
qed

lemma read_sip_uri:
  assumes "sip_uri_ok x" and "x = PlainUri (su_uri x) \<Longrightarrow> ends_host rest \<and> no_user rest"
  shows "parses (parse_sip_uri False) (show_sip_uri x @ rest) x rest"
proof (cases x)
  case (NamedUri a)
  obtain b bs where b: "show_name_addr a @ rest = b # bs" "b = quote \<or> b = CHR ''<''"
    using name_addr_first [of a rest] by blast
  have "parses (bindP parse_name_addr (\<lambda>a. retP (NamedUri a))) (show_name_addr a @ rest) (NamedUri a) rest"
    using assms(1) NamedUri by (auto intro: parses_bindP read_name_addr parses_retP)
  then show ?thesis
    unfolding parse_sip_uri_def NamedUri show_sip_uri.simps b(1)
    using b(2) by (intro parses_thenP [OF parses_skip_none] parses_bindP [OF parses_peek [of id, unfolded id_apply]])
      (auto simp: quote_marks)
next
  case (PlainUri u)
  then have u: "bare_uri u" and e: "ends_host rest" "no_user rest" using assms by auto
  obtain bs where s: "show_uri u @ rest = show_scheme (u_scheme u) @ CHR '':'' # bs"
    using bare_uri_text [OF u] by simp
  obtain cs where c: "show_uri u @ rest = CHR ''s'' # cs" using s by (cases "u_scheme u") auto
  have head: "takeWhile (\<lambda>b. b \<notin> set [CHR '':'', CHR 0x0D, CHR 0x0A, CHR ''<'']) (show_uri u @ rest) = show_scheme (u_scheme u)"
    unfolding s by (cases "u_scheme u") simp_all
  define f where "f = (\<lambda>head. if head = ''sip'' \<or> head = ''sips'' then bindP (parse_uri False) (\<lambda>u. retP (PlainUri u))
      else bindP parse_name_addr (\<lambda>a. retP (NamedUri a)))"
  have "parses (askP (peek_while (\<lambda>b. b \<notin> set [CHR '':'', CHR 0x0D, CHR 0x0A, CHR ''<'']))) (show_uri u @ rest)
      (show_scheme (u_scheme u)) (show_uri u @ rest)"
    by (rule parses_askP) (simp only: peek_while_def head)
  moreover have "parses (f (show_scheme (u_scheme u))) (show_uri u @ rest) (PlainUri u) rest"
    using parses_bindP [OF read_bare_uri [OF u e] parses_retP] by (cases "u_scheme u") (simp_all add: f_def)
  ultimately have body: "parses (bindP (askP (peek_while (\<lambda>b. b \<notin> set [CHR '':'', CHR 0x0D, CHR 0x0A, CHR ''<'']))) f)
      (show_uri u @ rest) (PlainUri u) rest"
    by (rule parses_bindP)
  have first: "\<not> (Some (CHR ''s'') = Some quote \<or> Some (CHR ''s'') = Some (CHR ''<''))" "stops is_space (CHR ''s'' # cs)"
    by (simp_all add: is_space_def quote_def)
  have "parses (askP peek) (CHR ''s'' # cs) (Some (CHR ''s'')) (CHR ''s'' # cs)"
    using parses_peek [of id "CHR ''s'' # cs"] by simp
  then show ?thesis
    unfolding parse_sip_uri_def PlainUri show_sip_uri.simps c
    by (intro parses_thenP [OF parses_skip_none [OF first(2)]])
      (erule parses_bindP, simp only: if_not_P [OF first(1)], rule body [unfolded c f_def])
qed

end
