(* ===== verification/Header_Roundtrip.thy ===== *)
theory Header_Roundtrip
  imports Uri_Laws Framing
begin

text \<open>
  The text of a header reads back as the header: what the parser of each header reads from the
  text its printer writes, up to the end of the line.
\<close>

section \<open>Parameters and lists of a header\<close>

abbreviation cr_text :: "bytes \<Rightarrow> bytes" where
  "cr_text r \<equiv> CHR 0x0D # r"

lemma cr_text_facts [simp]:
  "ends_param is_token (cr_text r)" "ends_param is_via_param (cr_text r)" "dropWhile is_space (cr_text r) = cr_text r"
  "ends_host (cr_text r)" "stops is_space (cr_text r)" "stops is_token (cr_text r)" "stops (\<lambda>b. \<not> is_newline b) (cr_text r)"
  by (simp_all add: ends_param_def ends_host_def class_iffs class_bytes is_space_def quote_def is_newline_def)

lemma cr_facts [simp]: "\<not> is_space CHR 0x0D" "is_newline CHR 0x0D" "\<not> is_token CHR 0x0D"
  by (simp_all add: class_iffs class_bytes is_space_def is_newline_def)

lemma cr_text_digit [simp]: "stops is_ascii_digit (cr_text r)"
  by (simp add: is_ascii_digit_def byte_val_def)

lemmas read_token_param = parses_bindP [OF read_ref [OF class_separates(1), folded p_param_ref_def]]
lemmas read_via_param = parses_bindP [OF read_ref [OF class_separates(2), folded via_param_def]]

text \<open>What may follow the parameters of a header: the end of the line or a comma.\<close>

definition ends_value :: "bytes \<Rightarrow> bool" where
  "ends_value rest \<longleftrightarrow> (\<exists>r. rest = cr_text r \<or> rest = CHR '','' # r)"

lemma ends_value_facts:
  assumes "ends_value rest"
  shows "ends_param is_token rest" and "ends_param is_via_param rest" and "dropWhile is_space rest = rest"
    and "stops (\<lambda>b. b = CHR '';'') rest" and "stops is_token rest" and "stops (\<lambda>b. b = CHR ''('') rest"
    and "stops is_space rest" and "stops is_ascii_alphabetic rest" and "ends_host rest"
  using assms
  by (auto simp: ends_value_def ends_param_def ends_host_def class_iffs class_bytes is_space_def quote_def
      is_ascii_alphabetic_def is_ascii_uppercase_def is_ascii_lowercase_def)
    (simp_all add: byte_val_def)

lemma ends_value_cr [simp]: "ends_value (cr_text r)"
  by (simp add: ends_value_def)

lemma read_value_params:
  assumes "separates f" and "ends_param f rest" and "ends_value rest" and "param_steps func f rs (st, []) z"
  shows "parses (parse_params_with func st) (refs_text rs @ rest) z rest"
  using read_params [OF assms(1,4,2)] ends_value_facts [OF assms(3)] by simp

lemma read_plain_params:
  assumes "plain_params_ok is_token {} ps" and "ends_value rest"
  shows "parses parse_params (show_params ps @ rest) ps rest"
proof -
  have "param_steps (\<lambda>_. bindP parse_param (\<lambda>p. retP ((), Some p))) is_token (map ref_of ps) ((), []) ((), [] @ ps)"
    using assms(1) unfolding parse_param_def
    by (intro generic_steps parses_bindP [OF read_token_param [OF _ _ parses_retP]])
      (auto simp: plain_params_ok_def intro: parses_ret)
  from read_value_params [OF class_separates(1) ends_value_facts(1) [OF assms(2)] assms(2) this] show ?thesis
    unfolding parse_params_def refs_text_params [symmetric] by (rule parses_bindP) (simp add: parses_retP)
qed

lemma read_tagged_params:
  assumes "opt_all (\<lambda>v. \<forall>b\<in>set v. is_token b) tag" and "plain_params_ok is_token {''tag''} ps" and "ends_value rest"
  shows "parses (parse_params_with tag_step None) (show_opt '';tag='' id tag @ show_params ps @ rest) (tag, ps) rest"
proof -
  have "param_steps tag_step is_token (opt_ref ''tag'' id tag) (None, []) (tag, [])"
    using assms(1) unfolding tag_step_def
    by (intro opt_step read_token_param)
      (auto simp: ref_ok_def opt_all_def class_iffs class_bytes intro!: parses_ret)
  moreover have "param_steps tag_step is_token (map ref_of ps) (tag, []) (tag, [] @ ps)"
    using assms(2) unfolding tag_step_def
    by (intro generic_steps read_token_param)
      (auto simp: plain_params_ok_def ref_of_def param_of_ref_def intro!: parses_ret)
  ultimately have "param_steps tag_step is_token (opt_ref ''tag'' id tag @ map ref_of ps) (None, []) (tag, ps)"
    unfolding param_steps_append by auto
  from read_value_params [OF class_separates(1) ends_value_facts(1) [OF assms(3)] assms(3) this]
  show ?thesis by (simp add: refs_text_opt refs_text_params)
qed

text \<open>Comma-separated values.\<close>

lemma read_comma_list:
  assumes "\<And>x rest. x \<in> set xs \<Longrightarrow> ends_value rest \<Longrightarrow> parses func (txt x @ rest) x rest \<and> stops is_space (txt x @ rest)"
    and "xs \<noteq> []"
  shows "parses (collect_comma func) (show_list txt xs @ cr_text r) xs (cr_text r)"
proof -
  have step: "parses skip_ws (sp @ txt x @ rest) () (txt x @ rest)"
    if "x \<in> set xs" "ends_value rest" "set sp \<subseteq> {CHR '' ''}" for sp x rest
    using parses_skip_ws [of "sp @ txt x @ rest"] assms(1) [OF that(1,2)] that(3)
    by (simp add: dropWhile_append2 subset_iff is_space_def dropWhile_stops)
  have "parses (loopP (comma_body func) acc) (sp @ show_list txt ys @ cr_text r) (acc @ ys) (cr_text r)"
    if "set ys \<subseteq> set xs" "ys \<noteq> []" "set sp \<subseteq> {CHR '' ''}" for acc sp ys
    using that
  proof (induction ys arbitrary: acc sp)
    case (Cons y ys)
    note y = assms(1) [of y, THEN conjunct1]
    show ?case
    proof (cases ys)
      case Nil
      then show ?thesis
        using Cons.prems step [of y "cr_text r" sp] y [of "cr_text r"]
        by (auto simp: comma_body_def show_list_def intro!: parses_loop_break parses_thenP parses_bindP
            parses_take_no parses_ret)
    next
      case (Cons z zs)
      let ?mid = "'' '' @ show_list txt ys @ cr_text r"
      have e: "ends_value (CHR '','' # ?mid)" by (simp add: ends_value_def)
      have "parses (comma_body func acc) (sp @ txt y @ CHR '','' # ?mid) (Continue (acc @ [y])) ?mid"
        unfolding comma_body_def
        using Cons.prems step [OF _ e, of y sp] y [OF _ e]
        by (intro parses_thenP parses_bindP [OF _ parses_bindP [OF parses_take_yes]]) (auto intro: parses_ret)
      moreover have "parses (loopP (comma_body func) (acc @ [y])) ?mid ((acc @ [y]) @ ys) (cr_text r)"
        using Cons.prems Cons by (intro Cons.IH) auto
      ultimately show ?thesis
        using parses_loop_continue [of "comma_body func" acc] Cons by (fastforce simp: show_list_def)
    qed
  qed simp
  from this [of xs "[]" "[]"] assms(2) show ?thesis by (simp add: collect_comma_def)
qed

section \<open>Values of the headers\<close>

text \<open>A text that stands in a header as it is.\<close>

definition value_text :: "bytes \<Rightarrow> bool" where
  "value_text s \<longleftrightarrow> line_text s \<and> stops is_space s"

definition token_ok :: "bytes \<Rightarrow> bool" where
  "token_ok s \<longleftrightarrow> (\<forall>b\<in>set s. is_token b)"

definition media_type_ok :: "media_type \<Rightarrow> bool" where
  "media_type_ok m \<longleftrightarrow> token_ok (mt_type (md_mimetype m)) \<and> token_ok (mt_subtype (md_mimetype m)) \<and>
     plain_params_ok is_token {} (md_params m)"

lemma token_stops: "token_ok s \<Longrightarrow> stops is_space rest \<Longrightarrow> stops is_space (s @ rest)"
  using separates_space [OF class_separates(1)] by (cases s) (auto simp: token_ok_def)

lemma not_quote: "is_token b \<Longrightarrow> b \<noteq> quote"
  by (auto simp: class_iffs class_bytes quote_def)

lemma read_plain_token:
  assumes "token_ok s" and "stops is_token rest" and "stops (\<lambda>b. b = quote) rest"
  shows "parses token (s @ rest) s rest"
proof -
  have "stops (\<lambda>c. c = quote) (s @ rest)" using assms not_quote by (cases s) (auto simp: token_ok_def)
  then show ?thesis
    using assms unfolding token_def read_token_def
    by (intro parses_bindP [OF parses_take_no]) (auto simp: token_ok_def intro: parses_read_unchecked)
qed

lemma value_not_quote: "ends_value rest \<Longrightarrow> stops (\<lambda>b. b = quote) rest"
  by (auto simp: ends_value_def quote_def)

lemma ends_value_params: "ends_value rest \<Longrightarrow> stops is_token (show_params ps @ rest) \<and>
    stops (\<lambda>b. b = quote) (show_params ps @ rest) \<and> stops is_space (show_params ps @ rest) \<and>
    ends_host (show_params ps @ rest)"
  using ends_value_facts [of rest] value_not_quote [of rest]
  by (cases ps) (simp_all add: show_param_def ends_host_def class_iffs class_bytes quote_def is_space_def)

lemma read_media_type:
  assumes "media_type_ok m" and "ends_value rest"
  shows "parses parse_media_type (show_media_type m @ rest) m rest" and "stops is_space (show_media_type m @ rest)"
proof -
  have slash: "stops is_token (CHR ''/'' # xs)" "stops (\<lambda>b. b = quote) (CHR ''/'' # xs)" "stops is_space (CHR ''/'' # xs)" for xs
    by (simp_all add: class_iffs class_bytes quote_def is_space_def)
  have m: "token_ok (mt_type (md_mimetype m))" "token_ok (mt_subtype (md_mimetype m))" "plain_params_ok is_token {} (md_params m)"
    using assms(1) by (auto simp: media_type_ok_def)
  note e = ends_value_params [OF assms(2), of "md_params m"]
  have made: "parses (retP (media_type_from_parts (mt_type (md_mimetype m)) (mt_subtype (md_mimetype m)) (md_params m)))
      inp m inp" for inp
    by (simp add: media_type_from_parts_def parses_ret)
  show "parses parse_media_type (show_media_type m @ rest) m rest"
    unfolding parse_media_type_def show_media_type_def
    using read_plain_token [OF m(1) slash(1,2)] read_plain_token [OF m(2)] e read_plain_params [OF m(3) assms(2)]
    by (auto intro!: parses_bindP parses_thenP [OF parses_advance_one] made)
  show "stops is_space (show_media_type m @ rest)"
    using token_stops [OF m(1) slash(3)] by (simp add: show_media_type_def)
qed

text \<open>A list of option tags, and a list of methods.\<close>

lemma read_tokens:
  assumes "ts \<noteq> []" and "\<forall>t\<in>set ts. token_ok t"
  shows "parses (collect_comma token) (show_list id ts @ cr_text r) ts (cr_text r)"
  using assms ends_value_facts value_not_quote
  by (intro read_comma_list) (auto intro!: read_plain_token token_stops)

lemma method_alphabetic: "m \<noteq> Unknown \<Longrightarrow> \<forall>b\<in>set (method_str m). is_ascii_alphabetic b \<and> \<not> is_space b"
  by (cases m) (simp_all add: is_ascii_alphabetic_def is_ascii_uppercase_def is_ascii_lowercase_def
      is_space_def byte_val_def)

lemma read_method:
  assumes "m \<noteq> Unknown" and "ends_value rest"
  shows "parses (bindP take_alphabetic (\<lambda>m. retP (method_of_bytes m))) (method_str m @ rest) m rest"
    and "stops is_space (method_str m @ rest)"
proof -
  show "parses (bindP take_alphabetic (\<lambda>m. retP (method_of_bytes m))) (method_str m @ rest) m rest"
    unfolding take_alphabetic_def
    using method_alphabetic [OF assms(1)] ends_value_facts(8) [OF assms(2)]
    by (intro parses_bindP [OF parses_scan_while]) (auto simp: method_of_method_str intro: parses_ret)
  show "stops is_space (method_str m @ rest)"
    using method_alphabetic [OF assms(1)] by (cases m) simp_all
qed

lemma read_methods:
  assumes "ms \<noteq> []" and "\<forall>m\<in>set ms. m \<noteq> Unknown"
  shows "parses parse_allow (show_list method_str ms @ cr_text r) ms (cr_text r)"
  unfolding parse_allow_def
  using assms by (intro read_comma_list conjI read_method) auto

definition cseq_ok :: "cseq \<Rightarrow> bool" where
  "cseq_ok c \<longleftrightarrow> cs_method c \<noteq> Unknown"

lemma read_cseq:
  assumes "cseq_ok c"
  shows "parses parse_cseq (show_word (cs_cseq c) @ CHR '' '' # method_str (cs_method c) @ cr_text r) c (cr_text r)"
proof -
  have m: "cs_method c \<noteq> Unknown" using assms by (simp add: cseq_ok_def)
  have "stops is_ascii_digit (CHR '' '' # xs)" for xs by (simp add: is_ascii_digit_def byte_val_def)
  note n = parses_word [OF this]
  have "parses skip_ws (CHR '' '' # method_str (cs_method c) @ cr_text r) () (method_str (cs_method c) @ cr_text r)"
    using parses_skip_ws [of "CHR '' '' # method_str (cs_method c) @ cr_text r"] read_method(2) [OF m ends_value_cr]
    by (simp add: is_space_def dropWhile_stops)
  moreover have "parses take_alphabetic (method_str (cs_method c) @ cr_text r) (method_str (cs_method c)) (cr_text r)"
    unfolding take_alphabetic_def
    using method_alphabetic [OF m] ends_value_facts(8) [OF ends_value_cr] by (intro parses_scan_while) auto
  ultimately show ?thesis
    unfolding parse_cseq_def
    by (intro parses_bindP [OF n] parses_thenP) (auto simp: method_of_method_str intro!: parses_bindP parses_ret)
qed

section \<open>Addresses\<close>

definition tag_ok :: "bytes option \<Rightarrow> bool" where
  "tag_ok tag \<longleftrightarrow> opt_all token_ok tag"

definition from_ok :: "from_header \<Rightarrow> bool" where
  "from_ok f \<longleftrightarrow> sip_uri_ok (fr_uri f) \<and> tag_ok (fr_tag f) \<and> plain_params_ok is_token {''tag''} (fr_params f)"

definition to_ok :: "to_header \<Rightarrow> bool" where
  "to_ok t \<longleftrightarrow> sip_uri_ok (to_uri t) \<and> tag_ok (to_tag t) \<and> plain_params_ok is_token {''tag''} (to_params t)"

text \<open>The printer writes the expiry of a contact without the name of its parameter.\<close>

definition contact_ok :: "contact \<Rightarrow> bool" where
  "contact_ok c \<longleftrightarrow> sip_uri_ok (ct_uri c) \<and> ct_expires c = None \<and> plain_params_ok is_token {''q'', ''expires''} (ct_param c)"

lemma token_params_no_at:
  "plain_params_ok is_token taken ps \<Longrightarrow> CHR ''@'' \<notin> set (show_params ps)"
  unfolding refs_text_params [symmetric]
  by (rule refs_text_no_at [OF class_separates(1)]) (auto simp: plain_params_ok_def)

lemma starts_param: "ends_host (CHR '';'' # xs)" "ends_param is_token (CHR '';'' # xs)"
  by (simp_all add: ends_host_def ends_param_def class_iffs class_bytes quote_def)

text \<open>An address followed by parameters.\<close>

lemma read_address:
  assumes "sip_uri_ok u" and "\<forall>r\<in>set rs. ref_ok is_token r"
  shows "parses (parse_sip_uri False) (show_sip_uri u @ refs_text rs @ cr_text r) u (refs_text rs @ cr_text r)"
    and "stops is_space (show_sip_uri u @ refs_text rs @ cr_text r)"
proof -
  show "parses (parse_sip_uri False) (show_sip_uri u @ refs_text rs @ cr_text r) u (refs_text rs @ cr_text r)"
    using assms refs_text_no_at [OF class_separates(1)] starts_param
    by (intro read_sip_uri conjI no_user_append) (auto intro: no_user_append, cases rs, auto)
  show "stops is_space (show_sip_uri u @ refs_text rs @ cr_text r)"
  proof (cases u)
    case (NamedUri a)
    then show ?thesis using name_addr_first [of a "refs_text rs @ cr_text r"] by (auto simp: quote_marks)
  next
    case (PlainUri v)
    then show ?thesis by (cases "u_scheme v") (simp_all add: show_uri_def is_space_def)
  qed
qed

lemma tag_refs_ok:
  "tag_ok tag \<Longrightarrow> plain_params_ok is_token taken ps \<Longrightarrow> \<forall>r\<in>set (opt_ref ''tag'' id tag @ map ref_of ps). ref_ok is_token r"
  by (cases tag) (auto simp: tag_ok_def token_ok_def opt_all_def opt_ref_def plain_params_ok_def ref_ok_def
      class_iffs class_bytes)

lemma tagged_text: "show_opt '';tag='' id tag @ show_params ps @ cr_text r = refs_text (opt_ref ''tag'' id tag @ map ref_of ps) @ cr_text r"
  by (simp add: refs_text_opt refs_text_params)

lemma tagged_stops:
  assumes "sip_uri_ok u" and "tag_ok tag" and "plain_params_ok is_token {''tag''} ps"
  shows "stops is_space (show_sip_uri u @ show_opt '';tag='' id tag @ show_params ps @ cr_text r)"
  unfolding tagged_text by (rule read_address(2) [OF assms(1) tag_refs_ok [OF assms(2,3)]])

lemma read_tagged:
  assumes "sip_uri_ok u" and "tag_ok tag" and "plain_params_ok is_token {''tag''} ps"
    and "\<And>inp. parses (g u tag ps) inp x inp"
  shows "parses (bindP (parse_sip_uri False) (\<lambda>u. bindP (parse_params_with tag_step None) (\<lambda>(tag, ps). g u tag ps)))
      (show_sip_uri u @ show_opt '';tag='' id tag @ show_params ps @ cr_text r) x (cr_text r)"
proof -
  note a = read_address(1) [where r = r, OF assms(1) tag_refs_ok [OF assms(2,3)], folded tagged_text]
  have "parses (parse_params_with tag_step None) (show_opt '';tag='' id tag @ show_params ps @ cr_text r) (tag, ps) (cr_text r)"
    using assms by (intro read_tagged_params) (auto simp: tag_ok_def token_ok_def [abs_def])
  then have "parses (bindP (parse_params_with tag_step None) (\<lambda>(tag, ps). g u tag ps))
      (show_opt '';tag='' id tag @ show_params ps @ cr_text r) x (cr_text r)"
    by (rule parses_bindP) (simp add: assms(4))
  then show ?thesis by (rule parses_bindP [OF a])
qed

lemma read_from:
  assumes "from_ok f"
  shows "parses parse_from (show_sip_uri (fr_uri f) @ show_opt '';tag='' id (fr_tag f) @ show_params (fr_params f) @ cr_text r)
    f (cr_text r)"
  using assms unfolding parse_from_def from_ok_def
  by (intro read_tagged) (auto intro: parses_ret)

lemma read_to:
  assumes "to_ok t"
  shows "parses parse_to (show_sip_uri (to_uri t) @ show_opt '';tag='' id (to_tag t) @ show_params (to_params t) @ cr_text r)
    t (cr_text r)"
  using assms unfolding parse_to_def to_ok_def
  by (intro read_tagged) (auto intro: parses_ret)

definition q_text :: "qvalue \<Rightarrow> bytes" where
  "q_text q = show_word (q_int q) @ CHR ''.'' # show_word (q_frac q)"

lemma parse_q_text: "parse_q (q_text q) = Ok q"
  using parse_q_show [of q] by (simp add: show_q_def q_text_def)

lemma digit_token: "is_ascii_digit b \<Longrightarrow> is_token b"
proof -
  assume d: "is_ascii_digit b"
  have "\<not> is_ascii_digit (CHR ''.'')" by (simp add: is_ascii_digit_def byte_val_def)
  with d digit_not_colon have "b \<noteq> CHR ''.''" "b \<noteq> CHR '':''" by auto
  then have "b \<in> set ''0123456789abcdef''" using digit_ip_byte [OF d] by (auto simp: ip_byte_def)
  then show ?thesis using ip_classes(2) by blast
qed

lemma q_text_token: "\<forall>b\<in>set (q_text q). is_token b"
proof -
  have "is_token (CHR ''.'')" by (simp add: class_iffs class_bytes)
  then show ?thesis using show_nat_digits digit_token unfolding q_text_def by auto
qed

lemma contact_refs_text: "show_opt [] show_q q = refs_text (opt_ref ''q'' q_text q)"
  by (cases q) (simp_all add: refs_text_opt show_opt_def show_q_def q_text_def)

lemma contact_refs_ok:
  "plain_params_ok is_token taken ps \<Longrightarrow> \<forall>r\<in>set (opt_ref ''q'' q_text q @ map ref_of ps). ref_ok is_token r"
  using q_text_token by (cases q) (auto simp: opt_all_def opt_ref_def plain_params_ok_def ref_ok_def class_iffs class_bytes)

lemma contact_steps:
  assumes "plain_params_ok is_token {''q'', ''expires''} ps"
  shows "param_steps contact_step is_token (opt_ref ''q'' q_text q @ map ref_of ps) ((None, None), []) ((q, None), ps)"
proof -
  have "param_steps contact_step is_token (opt_ref ''q'' q_text q) ((None, None), []) ((q, None), [])"
    using contact_refs_ok [of "{}" "[]" q] unfolding contact_step_def
    by (intro opt_step read_token_param)
      (auto simp: opt_ref_def parse_q_text plain_params_ok_def intro!: parses_bindP parses_resP parses_ret)
  moreover have "param_steps contact_step is_token (map ref_of ps) ((q, None), []) ((q, None), [] @ ps)"
    using assms unfolding contact_step_def
    by (intro generic_steps read_token_param)
      (auto simp: plain_params_ok_def ref_of_def param_of_ref_def intro!: parses_ret)
  ultimately show ?thesis unfolding param_steps_append by auto
qed

lemma read_contact:
  fixes r :: bytes
  assumes "contact_ok c"
  defines "shown \<equiv> show_sip_uri (ct_uri c) @ show_opt [] show_q (ct_q c) @ show_params (ct_param c) @ cr_text r"
  shows "parses parse_contact shown c (cr_text r)" and "stops is_space shown"
proof -
  let ?rs = "opt_ref ''q'' q_text (ct_q c) @ map ref_of (ct_param c)"
  have c: "sip_uri_ok (ct_uri c)" "ct_expires c = None" "plain_params_ok is_token {''q'', ''expires''} (ct_param c)"
    using assms(1) by (auto simp: contact_ok_def)
  have t: "shown = show_sip_uri (ct_uri c) @ refs_text ?rs @ cr_text r"
    by (simp add: shown_def contact_refs_text refs_text_params)
  note a = read_address [OF c(1) contact_refs_ok [OF c(3)], of "ct_q c" r]
  have "parses (parse_params_with contact_step (None, None)) (refs_text ?rs @ cr_text r) ((ct_q c, None), ct_param c) (cr_text r)"
    using read_value_params [OF class_separates(1) _ ends_value_cr contact_steps [OF c(3)]] by simp
  then have "parses (bindP (parse_params_with contact_step (None, None)) (\<lambda>(z, ps).
      retP \<lparr>ct_uri = ct_uri c, ct_q = fst z, ct_expires = snd z, ct_param = ps\<rparr>)) (refs_text ?rs @ cr_text r) c (cr_text r)"
    using c(2) by (auto intro!: parses_bindP parses_ret)
  then show "parses parse_contact shown c (cr_text r)"
    unfolding parse_contact_def t by (rule parses_bindP [OF a(1)])
  show "stops is_space shown" unfolding t by (rule a(2))
qed

definition reply_to_ok :: "reply_to \<Rightarrow> bool" where
  "reply_to_ok p \<longleftrightarrow> sip_uri_ok (rp_uri p) \<and> plain_params_ok is_token {} (rp_param p)"

lemma read_reply_to:
  assumes "reply_to_ok p"
  shows "parses parse_reply_to (show_sip_uri (rp_uri p) @ show_params (rp_param p) @ cr_text r) p (cr_text r)"
    and "stops is_space (show_sip_uri (rp_uri p) @ show_params (rp_param p) @ cr_text r)"
proof -
  have p: "sip_uri_ok (rp_uri p)" "plain_params_ok is_token {} (rp_param p)" using assms by (auto simp: reply_to_ok_def)
  then have "\<forall>r\<in>set (map ref_of (rp_param p)). ref_ok is_token r" by (auto simp: plain_params_ok_def)
  note a = read_address [OF p(1) this, unfolded refs_text_params]
  show "parses parse_reply_to (show_sip_uri (rp_uri p) @ show_params (rp_param p) @ cr_text r) p (cr_text r)"
    unfolding parse_reply_to_def
    by (rule parses_bindP [OF a(1) parses_bindP [OF read_plain_params [OF p(2) ends_value_cr] parses_ret]]) simp
  show "stops is_space (show_sip_uri (rp_uri p) @ show_params (rp_param p) @ cr_text r)" by (rule a(2))
qed

definition route_ok :: "name_addr \<Rightarrow> params \<Rightarrow> bool" where
  "route_ok a ps \<longleftrightarrow> name_addr_ok a \<and> plain_params_ok is_token {} ps"

lemma read_routes:
  assumes "route_ok a ps"
  shows "parses parse_route (show_name_addr a @ show_params ps @ cr_text r) \<lparr>rt_name_addr = a, rt_params = ps\<rparr> (cr_text r)"
    and "parses parse_record_route (show_name_addr a @ show_params ps @ cr_text r) \<lparr>rr_addr = a, rr_params = ps\<rparr> (cr_text r)"
    and "stops is_space (show_name_addr a @ show_params ps @ cr_text r)"
proof -
  have p: "name_addr_ok a" "plain_params_ok is_token {} ps" using assms by (auto simp: route_ok_def)
  note ps = read_plain_params [OF p(2) ends_value_cr]
  show "parses parse_route (show_name_addr a @ show_params ps @ cr_text r) \<lparr>rt_name_addr = a, rt_params = ps\<rparr> (cr_text r)"
    unfolding parse_route_def by (rule parses_bindP [OF read_name_addr [OF p(1)] parses_bindP [OF ps parses_retP]])
  show "parses parse_record_route (show_name_addr a @ show_params ps @ cr_text r) \<lparr>rr_addr = a, rr_params = ps\<rparr> (cr_text r)"
    unfolding parse_record_route_def by (rule parses_bindP [OF read_name_addr [OF p(1)] parses_bindP [OF ps parses_retP]])
  show "stops is_space (show_name_addr a @ show_params ps @ cr_text r)"
    using name_addr_first [of a "show_params ps @ cr_text r"] by (auto simp: quote_marks)
qed

section \<open>Via\<close>

abbreviation via_param_names :: "bytes set" where
  "via_param_names \<equiv> {''branch'', ''ttl'', ''maddr'', ''received'', ''rport''}"

definition via_ok :: "via \<Rightarrow> bool" where
  "via_ok v \<longleftrightarrow> host_port_ok (v_sent_by v) \<and> opt_all (param_host_ok is_via_param) (v_maddr v) \<and>
     opt_all wf_ip (v_received v) \<and> opt_all (\<lambda>b. \<forall>x\<in>set b. is_via_param x) (v_branch v) \<and>
     plain_params_ok is_via_param via_param_names (v_params v) \<and>
     opt_all (\<lambda>c. valid_utf8 c \<and> CHR '')'' \<notin> set c) (v_comment v)"

fun rport_value :: "rport \<Rightarrow> bytes option" where
  "rport_value (Rport port) = map_option show_word port"

definition rport_ref :: "rport option \<Rightarrow> param_ref list" where
  "rport_ref p = (case p of None \<Rightarrow> [] | Some x \<Rightarrow> [(''rport'', rport_value x)])"

definition via_refs :: "via \<Rightarrow> param_ref list" where
  "via_refs v =
     rport_ref (v_rport v) @ opt_ref ''received'' show_ip (v_received v) @ opt_ref ''ttl'' show_word (v_ttl v) @
     opt_ref ''maddr'' show_host (v_maddr v) @ opt_ref ''branch'' id (v_branch v) @ map ref_of (v_params v)"

lemma via_refs_text: "refs_text (via_refs v) =
  show_opt [] show_rport (v_rport v) @ show_opt '';received='' show_ip (v_received v) @
  show_opt '';ttl='' show_word (v_ttl v) @ show_opt '';maddr='' show_host (v_maddr v) @
  show_opt '';branch='' id (v_branch v) @ show_params (v_params v)"
proof -
  have "refs_text (rport_ref p) = show_opt [] show_rport p" for p
  proof (cases p)
    case (Some x)
    then show ?thesis by (cases x; cases "rport_value x") (auto simp: rport_ref_def ref_text_def show_opt_def)
  qed (simp add: rport_ref_def show_opt_def)
  then show ?thesis by (simp add: via_refs_def refs_text_opt refs_text_params)
qed

lemma via_names_ok: "n \<in> via_param_names \<Longrightarrow> n \<noteq> [] \<and> (\<forall>b\<in>set n. is_via_param b)"
  by (elim insertE) (simp_all add: class_iffs class_bytes)

lemma via_ref_ok: "n \<in> via_param_names \<Longrightarrow> \<forall>b\<in>set v. is_via_param b \<Longrightarrow> ref_ok is_via_param (n, Some v)"
  using via_names_ok by (simp add: ref_ok_def opt_all_def)

lemma show_word_via: "\<forall>b\<in>set (show_word w). is_via_param b" and show_ip_via: "\<forall>b\<in>set (show_ip a). is_via_param b"
  using show_nat_digits digit_class(2) show_ip_byte ip_byte_class(2) by blast+

lemma rport_ref_ok: "ref_ok is_via_param (''rport'', rport_value x)"
proof (cases "rport_value x")
  case (Some y)
  then have "\<forall>b\<in>set y. is_via_param b" using show_word_via by (cases x) auto
  then show ?thesis using via_ref_ok [of "''rport''"] Some by simp
qed (use via_names_ok [of "''rport''"] in \<open>simp add: ref_ok_def opt_all_def\<close>)

lemma port_not_blank [simp]:
  "(case show_word (w :: u16) of [] \<Rightarrow> None | b # bs \<Rightarrow> Some (show_word w)) = Some (show_word w)"
  using show_nat_not_Nil [of "unat w"] by (cases "show_word w") simp_all

lemma valid_port: "is_valid_port w"
  using unsigned_less [of w, where 'a = nat] by (simp add: is_valid_port_def word_le_nat_alt)

lemma via_steps:
  "v_rport v = None \<Longrightarrow>
     param_steps via_step is_via_param (rport_ref p) (v, ps) (v\<lparr>v_rport := p\<rparr>, ps)"
  "v_received v = None \<Longrightarrow> opt_all wf_ip a \<Longrightarrow>
     param_steps via_step is_via_param (opt_ref ''received'' show_ip a) (v, ps) (v\<lparr>v_received := a\<rparr>, ps)"
  "v_ttl v = None \<Longrightarrow>
     param_steps via_step is_via_param (opt_ref ''ttl'' show_word w) (v, ps) (v\<lparr>v_ttl := w\<rparr>, ps)"
  "v_maddr v = None \<Longrightarrow> opt_all (param_host_ok is_via_param) h \<Longrightarrow>
     param_steps via_step is_via_param (opt_ref ''maddr'' show_host h) (v, ps) (v\<lparr>v_maddr := h\<rparr>, ps)"
  "v_branch v = None \<Longrightarrow> opt_all (\<lambda>b. \<forall>x\<in>set b. is_via_param x) b \<Longrightarrow>
     param_steps via_step is_via_param (opt_ref ''branch'' id b) (v, ps) (v\<lparr>v_branch := b\<rparr>, ps)"
proof -
  show "v_received v = None \<Longrightarrow> opt_all wf_ip a \<Longrightarrow>
     param_steps via_step is_via_param (opt_ref ''received'' show_ip a) (v, ps) (v\<lparr>v_received := a\<rparr>, ps)"
    unfolding via_step_def
    by (rule opt_step, rule read_via_param)
      (auto simp: opt_all_def ip_res_def parse_show_ip intro!: via_ref_ok show_ip_via parses_bindP
        parses_or_elseP parses_resP parses_ret)
  show "v_ttl v = None \<Longrightarrow>
     param_steps via_step is_via_param (opt_ref ''ttl'' show_word w) (v, ps) (v\<lparr>v_ttl := w\<rparr>, ps)"
    unfolding via_step_def
    by (rule opt_step, rule read_via_param)
      (auto intro!: via_ref_ok show_word_via parses_bindP parses_or_elseP parses_resP parses_ret)
  show "v_maddr v = None \<Longrightarrow> opt_all (param_host_ok is_via_param) h \<Longrightarrow>
     param_steps via_step is_via_param (opt_ref ''maddr'' show_host h) (v, ps) (v\<lparr>v_maddr := h\<rparr>, ps)"
    unfolding via_step_def
    by (rule opt_step, rule read_via_param)
      (auto simp: opt_all_def host_of_show_host intro!: via_ref_ok param_host_texts(2) parses_ret)
  show "v_branch v = None \<Longrightarrow> opt_all (\<lambda>b. \<forall>x\<in>set b. is_via_param x) b \<Longrightarrow>
     param_steps via_step is_via_param (opt_ref ''branch'' id b) (v, ps) (v\<lparr>v_branch := b\<rparr>, ps)"
    unfolding via_step_def
    by (rule opt_step, rule read_via_param) (auto simp: opt_all_def intro!: via_ref_ok parses_ret)
  show "param_steps via_step is_via_param (rport_ref p) (v, ps) (v\<lparr>v_rport := p\<rparr>, ps)" if "v_rport v = None"
  proof (cases p)
    case None
    then show ?thesis using that by (cases v) (simp add: rport_ref_def)
  next
    case (Some x)
    obtain port where x: "x = Rport port" by (cases x)
    have "parses (via_step v) (ref_text (''rport'', rport_value x) @ suf) (v\<lparr>v_rport := Some x\<rparr>, None) suf"
      if "ends_param is_via_param suf" for suf
      unfolding via_step_def
      by (rule read_via_param [OF rport_ref_ok that])
        (cases port; auto simp: x valid_port intro!: parses_bindP [OF parses_or_elseP [OF parses_resP]] parses_ret)
    then show ?thesis
      unfolding Some rport_ref_def option.case by (rule one_step)
  qed
qed

lemma via_refs_steps:
  assumes "via_ok v"
  shows "param_steps via_step is_via_param (via_refs v)
    (default_via\<lparr>v_transport := v_transport v, v_sent_by := v_sent_by v\<rparr>, [])
    (v\<lparr>v_params := [], v_comment := None\<rparr>, v_params v)"
proof -
  let ?v = "default_via\<lparr>v_transport := v_transport v, v_sent_by := v_sent_by v, v_rport := v_rport v,
    v_received := v_received v, v_ttl := v_ttl v, v_maddr := v_maddr v, v_branch := v_branch v\<rparr>"
  have "parses (via_step st) (ref_text (ref_of p) @ suf) (st, Some p) suf"
    if "p \<in> set (v_params v)" "ends_param is_via_param suf" for st p suf
    using assms that unfolding via_step_def
    by (intro read_via_param)
      (auto simp: via_ok_def plain_params_ok_def ref_of_def param_of_ref_def intro!: parses_ret)
  then have "param_steps via_step is_via_param (map ref_of (v_params v)) (?v, []) (?v, [] @ v_params v)"
    by (intro generic_steps) auto
  moreover have "?v = v\<lparr>v_params := [], v_comment := None\<rparr>"
    by (cases v) (simp add: default_via_def via_new_with_transport_def)
  ultimately have generic: "param_steps via_step is_via_param (map ref_of (v_params v)) (?v, [])
      (v\<lparr>v_params := [], v_comment := None\<rparr>, v_params v)"
    by simp
  show ?thesis
    unfolding via_refs_def param_steps_append
    by (intro exI conjI; (rule generic | rule via_steps;
      use assms in \<open>simp add: via_ok_def default_via_def via_new_with_transport_def\<close>))
qed

definition via_text :: "via \<Rightarrow> bytes" where
  "via_text v =
     SIPV2 @ CHR ''/'' # as_upper_case (v_transport v) @ CHR '' '' # show_host_port (v_sent_by v) @
     refs_text (via_refs v) @ (case v_comment v of Some c \<Rightarrow> '' ('' @ c @ '')'' | None \<Rightarrow> [])"

lemma show_via_text: "show_via v = ''Via: '' @ via_text v"
  by (simp add: show_via_def via_text_def via_refs_text)

lemma read_version: "parses parse_sip_version (SIPV2 @ rest) () rest"
proof -
  have "parses (must_scan_slice SIPV2) (SIPV2 @ rest) () rest"
  proof (rule parsesI)
    fix s assume s: "wf_scanner s" "remaining s = SIPV2 @ rest"
    have "common_prefix (remaining s) SIPV2 = SIPV2" by (rule common_prefix_whole) (simp add: s)
    then have "consumes s SIPV2 (snd (must_scan_slice SIPV2 s))" "fst (must_scan_slice SIPV2 s) = Ok ()"
      using must_scan_slice_spec [OF s(1), of SIPV2] s(2) by simp_all
    then show "\<exists>s'. must_scan_slice SIPV2 s = (Ok (), s') \<and> wf_scanner s' \<and> remaining s' = rest"
      using s consumes_wf consumes_remaining by (cases "must_scan_slice SIPV2 s") fastforce
  qed
  then show ?thesis unfolding parse_sip_version_def by (rule parses_or_elseP)
qed

lemma read_protocol:
  "parses (bindP read_token (\<lambda>t. or_elseP (resP (parse_protocol t)) (errP K_Transport)))
     (as_upper_case t @ CHR '' '' # rest) t (CHR '' '' # rest)"
proof -
  have "parses read_token (as_upper_case t @ CHR '' '' # rest) (as_upper_case t) (CHR '' '' # rest)"
    unfolding read_token_def by (intro parses_read_unchecked; cases t; simp add: class_iffs class_bytes)
  then show ?thesis
    by (auto simp: parse_protocol_as_upper_case intro!: parses_bindP parses_or_elseP parses_resP)
qed

lemma read_comment:
  assumes "opt_all (\<lambda>c. valid_utf8 c \<and> CHR '')'' \<notin> set c) v" and "parses (g v) (cr_text r) x (cr_text r)"
  shows "parses (bindP (take_if_eq (CHR ''('')) (\<lambda>paren. bindP (case paren of
      Some _ \<Rightarrow> bindP (until_utf8 (CHR '')'')) (\<lambda>c. retP (Some c)) | None \<Rightarrow> retP None) g))
    (dropWhile is_space ((case v of Some c \<Rightarrow> '' ('' @ c @ '')'' | None \<Rightarrow> []) @ cr_text r)) x (cr_text r)"
proof (cases v)
  case None
  then show ?thesis
    using assms(2) by (auto simp: is_space_def intro!: parses_bindP [OF parses_take_no] parses_bindP [OF parses_retP])
next
  case (Some c)
  then have "parses (until_utf8 (CHR '')'')) (c @ CHR '')'' # cr_text r) c (cr_text r)"
    using assms(1) unfolding until_utf8_def take_until_def scan_until_def
    by (intro parses_bindP [OF parses_scan_while] parses_thenP [OF parses_advance_one] parses_utf8)
      (auto simp: opt_all_def)
  then show ?thesis
    using assms(2) Some
    by (auto simp: is_space_def intro!: parses_bindP [OF parses_take_yes] parses_bindP [OF parses_bindP [OF _ parses_retP]])
qed

lemma read_via:
  assumes "via_ok v"
  shows "parses parse_via (via_text v @ cr_text r) v (cr_text r)" and "stops is_space (via_text v @ cr_text r)"
proof -
  let ?c = "case v_comment v of Some c \<Rightarrow> '' ('' @ c @ '')'' | None \<Rightarrow> []"
  let ?rest = "refs_text (via_refs v) @ ?c @ cr_text r"
  have v: "host_port_ok (v_sent_by v)" "opt_all (\<lambda>c. valid_utf8 c \<and> CHR '')'' \<notin> set c) (v_comment v)"
    using assms by (auto simp: via_ok_def)
  have c: "ends_param is_via_param (?c @ cr_text r)" "ends_host (?c @ cr_text r)" "stops (\<lambda>b. b = CHR '';'') (dropWhile is_space (?c @ cr_text r))"
    by (cases "v_comment v"; simp add: ends_param_def ends_host_def class_iffs class_bytes quote_def is_space_def)+
  have hp: "parses parse_host_port (show_host_port (v_sent_by v) @ ?rest) (v_sent_by v) ?rest"
    using c(2) starts_param(1) by (intro read_host_port v) (cases "via_refs v", auto)
  have ps: "parses (parse_params_with via_step (default_via\<lparr>v_transport := v_transport v, v_sent_by := v_sent_by v\<rparr>)) ?rest
      (v\<lparr>v_params := [], v_comment := None\<rparr>, v_params v) (dropWhile is_space (?c @ cr_text r))"
    by (rule read_params [OF class_separates(2) via_refs_steps [OF assms] c(1,3)])
  obtain b bs where b: "show_host (hp_host (v_sent_by v)) = b # bs" "is_host b"
    using host_text [of "hp_host (v_sent_by v)"] v(1)
    by (cases "show_host (hp_host (v_sent_by v))") (auto simp: host_port_ok_def)
  then have "\<not> is_space b" by (auto simp: is_space_def class_iffs class_bytes)
  then have ws: "parses skip_ws (CHR '' '' # show_host_port (v_sent_by v) @ ?rest) () (show_host_port (v_sent_by v) @ ?rest)"
    using parses_skip_ws [of "CHR '' '' # show_host_port (v_sent_by v) @ ?rest"] b
    by (simp add: show_host_port_text is_space_def)
  have "parses (retP (v\<lparr>v_params := v_params v, v_comment := v_comment v\<rparr>)) (cr_text r) v (cr_text r)"
    by (simp add: parses_ret)
  then have "parses parse_via (SIPV2 @ CHR ''/'' # as_upper_case (v_transport v) @ CHR '' '' #
      show_host_port (v_sent_by v) @ ?rest) v (cr_text r)"
    unfolding parse_via_def
    by (intro parses_thenP [OF read_version] parses_thenP [OF parses_advance_one] parses_bindP [OF read_protocol]
        parses_thenP [OF ws] parses_bindP [OF hp] parses_bindP [OF ps])
      (simp only: case_prod_conv, intro read_comment v(2), simp)
  then show "parses parse_via (via_text v @ cr_text r) v (cr_text r)" by (simp add: via_text_def)
  show "stops is_space (via_text v @ cr_text r)" by (simp add: via_text_def SIPV2_def is_space_def)
qed

section \<open>One header\<close>

text \<open>The header names of the parser, which a header it does not know must not have.\<close>

definition known_names :: "bytes set" where
  "known_names = set [''Error-Info'', ''Route'', ''Via'', ''v'', ''Max-Forwards'', ''From'', ''f'', ''To'', ''t'',
     ''Call-ID'', ''i'', ''CSeq'', ''Authorization'', ''Contact'', ''m'', ''Expires'', ''In-Reply-To'',
     ''MIME-Version'', ''Min-Expires'', ''User-Agent'', ''Date'', ''Server'', ''Subject'', ''s'', ''Priority'',
     ''Proxy-Authenticate'', ''Proxy-Authorization'', ''Proxy-Require'', ''Reply-To'', ''Content-Length'', ''l'',
     ''Content-Encoding'', ''e'', ''Content-Type'', ''c'', ''Content-Disposition'', ''Record-Route'', ''Require'',
     ''Retry-After'', ''Organization'', ''Accept-Encoding'', ''Accept'', ''Accept-Language'', ''Alert-Info'',
     ''Allow'', ''Authentication-Info'', ''Supported'', ''k'', ''Timestamp'', ''Unsupported'', ''WWW-Authenticate'',
     ''Warning'']"

text \<open>
  The headers whose text reads back. Left out are the headers whose printers write something
  their parsers do not read, and those of authentication.
\<close>

fun header_ok :: "header \<Rightarrow> bool" where
  "header_ok (H_Via v) \<longleftrightarrow> via_ok v"
| "header_ok (H_From f) \<longleftrightarrow> from_ok f"
| "header_ok (H_To t) \<longleftrightarrow> to_ok t"
| "header_ok (H_CallId i) \<longleftrightarrow> value_text i"
| "header_ok (H_CSeq c) \<longleftrightarrow> cseq_ok c"
| "header_ok (H_MaxForwards n) \<longleftrightarrow> True"
| "header_ok (H_Contact c) \<longleftrightarrow> contact_ok c"
| "header_ok (H_Route r) \<longleftrightarrow> route_ok (rt_name_addr r) (rt_params r)"
| "header_ok (H_RecordRoute r) \<longleftrightarrow> route_ok (rr_addr r) (rr_params r)"
| "header_ok (H_ReplyTo p) \<longleftrightarrow> reply_to_ok p"
| "header_ok (H_Allow ms) \<longleftrightarrow> ms \<noteq> [] \<and> (\<forall>m\<in>set ms. m \<noteq> Unknown)"
| "header_ok (H_Accept ms) \<longleftrightarrow> ms \<noteq> [] \<and> (\<forall>m\<in>set ms. media_type_ok m)"
| "header_ok (H_Supported ts) \<longleftrightarrow> ts \<noteq> [] \<and> (\<forall>t\<in>set ts. token_ok t)"
| "header_ok (H_Require ts) \<longleftrightarrow> ts \<noteq> [] \<and> (\<forall>t\<in>set ts. token_ok t)"
| "header_ok (H_ProxyRequire ts) \<longleftrightarrow> ts \<noteq> [] \<and> (\<forall>t\<in>set ts. token_ok t)"
| "header_ok (H_Unsupported ts) \<longleftrightarrow> ts \<noteq> [] \<and> (\<forall>t\<in>set ts. token_ok t)"
| "header_ok (H_ContentEncoding ts) \<longleftrightarrow> ts \<noteq> [] \<and> (\<forall>t\<in>set ts. token_ok t)"
| "header_ok (H_ContentType m) \<longleftrightarrow> media_type_ok m"
| "header_ok (H_ContentLength n) \<longleftrightarrow> True"
| "header_ok (H_Expires n) \<longleftrightarrow> True"
| "header_ok (H_MinExpires n) \<longleftrightarrow> True"
| "header_ok (H_Priority s) \<longleftrightarrow> token_ok s"
| "header_ok (H_Date s) \<longleftrightarrow> value_text s"
| "header_ok (H_Organization s) \<longleftrightarrow> value_text s"
| "header_ok (H_Server s) \<longleftrightarrow> value_text s"
| "header_ok (H_Subject s) \<longleftrightarrow> value_text s"
| "header_ok (H_UserAgent s) \<longleftrightarrow> value_text s"
| "header_ok (H_RawHeader r) \<longleftrightarrow> token_ok (rh_name r) \<and> rh_name r \<notin> known_names \<and> value_text (rh_data r)"
| "header_ok _ \<longleftrightarrow> False"

text \<open>A header is a name and a value: the printer writes them, the parser reads the value.\<close>

definition is_field :: "bytes \<Rightarrow> bytes \<Rightarrow> header \<Rightarrow> bool" where
  "is_field n v h \<longleftrightarrow>
     show_header h = Ok (n @ '': '' @ v) \<and> token_ok n \<and> (\<forall>r. stops is_space (v @ cr_text r)) \<and>
     (\<forall>hs r. parses (header_value n hs) (v @ cr_text r) (hs @ [h]) (cr_text r)) \<and>
     ((n = ''Content-Type'' \<or> n = ''c'') \<longleftrightarrow> (\<exists>m. h = H_ContentType m))"

lemma read_single: "parses p inp x rest \<Longrightarrow> parses (single p H hs) inp (hs @ [H x]) rest"
  unfolding single_def by (rule parses_bindP, assumption, rule parses_retP)

lemma read_repeated: "parses p inp x (cr_text r) \<Longrightarrow> parses (repeated p H hs) inp (hs @ [H x]) (cr_text r)"
  unfolding repeated_def repeat_body_def
  by (rule parses_loop_break, erule parses_bindP) (auto intro!: parses_bindP [OF parses_take_no] parses_ret)

lemma read_value_line: "value_text s \<Longrightarrow> parses read_line (s @ cr_text r) s (cr_text r) \<and> stops is_space (s @ cr_text r)"
  using parses_line [of s "cr_text r"] by (cases s) (simp_all add: value_text_def)

lemma number_stops: "stops is_space (show_word (w :: 'a :: len word) @ rest)"
  using show_nat_digits [of "unat w"] show_nat_not_Nil [of "unat w"]
  by (cases "show_word w") (auto simp: is_space_def is_ascii_digit_def byte_val_def)

lemma single_field:
  assumes "show_header (H x) = Ok (n @ '': '' @ v)" and "token_ok n"
    and "\<And>r. parses p (v @ cr_text r) x (cr_text r) \<and> stops is_space (v @ cr_text r)"
    and "\<And>hs. header_value n hs = single p H hs"
    and "(n = ''Content-Type'' \<or> n = ''c'') \<longleftrightarrow> (\<exists>m. H x = H_ContentType m)"
  shows "is_field n v (H x)"
  using assms read_single [of p _ x _ H] by (simp add: is_field_def)

lemma repeated_field:
  assumes "show_header (H x) = Ok (n @ '': '' @ v)" and "token_ok n"
    and "\<And>r. parses p (v @ cr_text r) x (cr_text r) \<and> stops is_space (v @ cr_text r)"
    and "\<And>hs. header_value n hs = repeated p H hs"
    and "(n = ''Content-Type'' \<or> n = ''c'') \<longleftrightarrow> (\<exists>m. H x = H_ContentType m)"
  shows "is_field n v (H x)"
  using assms read_repeated [of p _ x _ H] by (simp add: is_field_def)

lemma name_tokens:
  "\<forall>n\<in>set [''Via'', ''From'', ''To'', ''Call-ID'', ''CSeq'', ''Max-Forwards'', ''Contact'', ''Route'', ''Record-Route'',
     ''Reply-To'', ''Allow'', ''Accept'', ''Supported'', ''Require'', ''Proxy-Require'', ''Unsupported'',
     ''Content-Encoding'', ''Content-Type'', ''Content-Length'', ''Expires'', ''Min-Expires'', ''Priority'', ''Date'',
     ''Organization'', ''Server'', ''Subject'', ''User-Agent'']. token_ok n"
  by (simp add: token_ok_def class_iffs class_bytes)

lemma name_branches:
  "header_value ''Via'' hs = repeated parse_via H_Via hs"
  "header_value ''From'' hs = single parse_from H_From hs"
  "header_value ''To'' hs = single parse_to H_To hs"
  "header_value ''Call-ID'' hs = single parse_call_id H_CallId hs"
  "header_value ''CSeq'' hs = single parse_cseq H_CSeq hs"
  "header_value ''Max-Forwards'' hs = single parse_max_forwards H_MaxForwards hs"
  "header_value ''Contact'' hs = repeated parse_contact H_Contact hs"
  "header_value ''Route'' hs = repeated parse_route H_Route hs"
  "header_value ''Record-Route'' hs = repeated parse_record_route H_RecordRoute hs"
  "header_value ''Reply-To'' hs = single parse_reply_to H_ReplyTo hs"
  "header_value ''Allow'' hs = single parse_allow H_Allow hs"
  "header_value ''Accept'' hs = single parse_accept H_Accept hs"
  "header_value ''Supported'' hs = single parse_supported H_Supported hs"
  "header_value ''Require'' hs = single parse_require H_Require hs"
  "header_value ''Proxy-Require'' hs = single parse_proxy_require H_ProxyRequire hs"
  "header_value ''Unsupported'' hs = single parse_unsupported H_Unsupported hs"
  "header_value ''Content-Encoding'' hs = single parse_content_encoding H_ContentEncoding hs"
  "header_value ''Content-Type'' hs = single parse_content_type H_ContentType hs"
  "header_value ''Content-Length'' hs = single parse_content_length H_ContentLength hs"
  "header_value ''Expires'' hs = single parse_expires H_Expires hs"
  "header_value ''Min-Expires'' hs = single parse_min_expires H_MinExpires hs"
  "header_value ''Priority'' hs = single parse_priority H_Priority hs"
  "header_value ''Date'' hs = single parse_date H_Date hs"
  "header_value ''Organization'' hs = single parse_organization H_Organization hs"
  "header_value ''Server'' hs = single parse_server H_Server hs"
  "header_value ''Subject'' hs = single parse_subject H_Subject hs"
  "header_value ''User-Agent'' hs = single parse_user_agent H_UserAgent hs"
  "name \<notin> known_names \<Longrightarrow>
     header_value name hs = single read_line (\<lambda>d. H_RawHeader \<lparr>rh_name = name, rh_data = d\<rparr>) hs"
  unfolding header_value_def late_header_value_def known_names_def by simp_all

lemma read_value_token: "token_ok s \<Longrightarrow> parses token (s @ cr_text r) s (cr_text r) \<and> stops is_space (s @ cr_text r)"
  using read_plain_token [of s "cr_text r"] value_not_quote [OF ends_value_cr, of r] token_stops [of s "cr_text r"] by simp

lemma read_value_tokens:
  "ts \<noteq> [] \<Longrightarrow> \<forall>t\<in>set ts. token_ok t \<Longrightarrow>
     parses (collect_comma token) (show_list id ts @ cr_text r) ts (cr_text r) \<and> stops is_space (show_list id ts @ cr_text r)"
proof -
  assume ts: "ts \<noteq> []" "\<forall>t\<in>set ts. token_ok t"
  then obtain t rest where "show_list id ts @ cr_text r = t @ rest" "token_ok t" "stops is_space rest"
    by (cases ts; cases "tl ts") (auto simp: show_list_def is_space_def)
  then show ?thesis using read_tokens [OF ts, of r] token_stops [of t rest] by simp
qed

lemma read_value_number:
  "parses p_parse_u32 (show_word w @ cr_text r) w (cr_text r) \<and> stops is_space (show_word (w :: u32) @ cr_text r)"
  using parses_word [OF cr_text_digit] number_stops by blast

lemma read_value_media_types:
  assumes "ms \<noteq> []" and "\<forall>m\<in>set ms. media_type_ok m"
  shows "parses parse_accept (show_list show_media_type ms @ cr_text r) ms (cr_text r) \<and>
    stops is_space (show_list show_media_type ms @ cr_text r)"
proof
  show "parses parse_accept (show_list show_media_type ms @ cr_text r) ms (cr_text r)"
    unfolding parse_accept_def using assms by (intro read_comma_list conjI read_media_type) auto
  obtain m rest where "show_list show_media_type ms @ cr_text r = show_media_type m @ rest" "media_type_ok m" "ends_value rest"
    using assms by (cases ms; cases "tl ms") (auto simp: show_list_def ends_value_def)
  then show "stops is_space (show_list show_media_type ms @ cr_text r)" using read_media_type(2) by simp
qed

lemma read_value_methods:
  assumes "ms \<noteq> []" and "\<forall>m\<in>set ms. m \<noteq> Unknown"
  shows "parses parse_allow (show_list method_str ms @ cr_text r) ms (cr_text r) \<and> stops is_space (show_list method_str ms @ cr_text r)"
proof
  obtain m rest where "show_list method_str ms @ cr_text r = method_str m @ rest" "m \<noteq> Unknown" "ends_value rest"
    using assms by (cases ms; cases "tl ms") (auto simp: show_list_def ends_value_def)
  then show "stops is_space (show_list method_str ms @ cr_text r)" using read_method(2) by simp
qed (rule read_methods [OF assms])

lemmas value_rules = read_value_line read_value_token read_value_tokens read_value_number read_value_methods
  read_value_media_types

lemmas value_parsers = parse_call_id_def parse_date_def parse_organization_def parse_server_def parse_subject_def
  parse_user_agent_def parse_content_length_def parse_expires_def parse_max_forwards_def parse_min_expires_def
  parse_content_encoding_def parse_proxy_require_def parse_require_def parse_supported_def parse_unsupported_def
  parse_priority_def parse_content_type_def

lemmas value_printers = show_call_id_def show_date_def show_organization_def show_server_def show_subject_def
  show_user_agent_def show_content_length_def show_expires_def show_max_forwards_def show_min_expires_def
  show_content_encoding_def show_proxy_require_def show_require_def show_supported_def show_unsupported_def
  show_priority_def show_content_type_def show_allow_def show_accept_def

lemma text_fields:
  "value_text s \<Longrightarrow> is_field ''Call-ID'' s (H_CallId s)" "value_text s \<Longrightarrow> is_field ''Date'' s (H_Date s)"
  "value_text s \<Longrightarrow> is_field ''Organization'' s (H_Organization s)" "value_text s \<Longrightarrow> is_field ''Server'' s (H_Server s)"
  "value_text s \<Longrightarrow> is_field ''Subject'' s (H_Subject s)" "value_text s \<Longrightarrow> is_field ''User-Agent'' s (H_UserAgent s)"
  "token_ok s \<Longrightarrow> is_field ''Priority'' s (H_Priority s)"
  using name_tokens
  by (intro single_field [OF _ _ _ name_branches(4)] single_field [OF _ _ _ name_branches(23)]
      single_field [OF _ _ _ name_branches(24)] single_field [OF _ _ _ name_branches(25)]
      single_field [OF _ _ _ name_branches(26)] single_field [OF _ _ _ name_branches(27)]
      single_field [OF _ _ _ name_branches(22)];
      simp add: value_printers value_parsers value_rules)+

lemma number_fields:
  "is_field ''Max-Forwards'' (show_word n) (H_MaxForwards n)" "is_field ''Content-Length'' (show_word n) (H_ContentLength n)"
  "is_field ''Expires'' (show_word n) (H_Expires n)" "is_field ''Min-Expires'' (show_word n) (H_MinExpires n)"
  using name_tokens
  by (intro single_field [OF _ _ _ name_branches(6)] single_field [OF _ _ _ name_branches(19)]
      single_field [OF _ _ _ name_branches(20)] single_field [OF _ _ _ name_branches(21)];
      simp add: value_printers value_parsers read_value_number)+

lemma list_fields:
  assumes "ts \<noteq> []" and "\<forall>t\<in>set ts. token_ok t"
  shows "is_field ''Supported'' (show_list id ts) (H_Supported ts)" "is_field ''Require'' (show_list id ts) (H_Require ts)"
    "is_field ''Proxy-Require'' (show_list id ts) (H_ProxyRequire ts)"
    "is_field ''Unsupported'' (show_list id ts) (H_Unsupported ts)"
    "is_field ''Content-Encoding'' (show_list id ts) (H_ContentEncoding ts)"
  using name_tokens read_value_tokens [OF assms]
  by (intro single_field [OF _ _ _ name_branches(13)] single_field [OF _ _ _ name_branches(14)]
      single_field [OF _ _ _ name_branches(15)] single_field [OF _ _ _ name_branches(16)]
      single_field [OF _ _ _ name_branches(17)];
      simp add: value_printers value_parsers)+

lemma address_fields:
  "from_ok f \<Longrightarrow> is_field ''From'' (show_sip_uri (fr_uri f) @ show_opt '';tag='' id (fr_tag f) @ show_params (fr_params f)) (H_From f)"
  "to_ok t \<Longrightarrow> is_field ''To'' (show_sip_uri (to_uri t) @ show_opt '';tag='' id (to_tag t) @ show_params (to_params t)) (H_To t)"
  "contact_ok c \<Longrightarrow> is_field ''Contact'' (show_sip_uri (ct_uri c) @ show_opt [] show_q (ct_q c) @ show_params (ct_param c)) (H_Contact c)"
  "reply_to_ok p \<Longrightarrow> is_field ''Reply-To'' (show_sip_uri (rp_uri p) @ show_params (rp_param p)) (H_ReplyTo p)"
proof -
  assume f: "from_ok f"
  then have "sip_uri_ok (fr_uri f)" "tag_ok (fr_tag f)" "plain_params_ok is_token {''tag''} (fr_params f)"
    by (auto simp: from_ok_def)
  note s = tagged_stops [OF this]
  show "is_field ''From'' (show_sip_uri (fr_uri f) @ show_opt '';tag='' id (fr_tag f) @ show_params (fr_params f)) (H_From f)"
    using name_tokens read_from [OF f] s
    by (intro single_field [OF _ _ _ name_branches(2)]) (simp_all add: show_from_def)
next
  assume t: "to_ok t"
  then have "sip_uri_ok (to_uri t)" "tag_ok (to_tag t)" "plain_params_ok is_token {''tag''} (to_params t)"
    by (auto simp: to_ok_def)
  note s = tagged_stops [OF this]
  show "is_field ''To'' (show_sip_uri (to_uri t) @ show_opt '';tag='' id (to_tag t) @ show_params (to_params t)) (H_To t)"
    using name_tokens read_to [OF t] s
    by (intro single_field [OF _ _ _ name_branches(3)]) (simp_all add: show_to_def)
next
  assume c: "contact_ok c"
  then have "show_opt [] show_word (ct_expires c) = []" by (simp add: contact_ok_def show_opt_def)
  then show "is_field ''Contact'' (show_sip_uri (ct_uri c) @ show_opt [] show_q (ct_q c) @ show_params (ct_param c)) (H_Contact c)"
    using name_tokens read_contact [OF c]
    by (intro repeated_field [OF _ _ _ name_branches(7)]) (simp_all add: show_contact_def)
next
  assume p: "reply_to_ok p"
  then show "is_field ''Reply-To'' (show_sip_uri (rp_uri p) @ show_params (rp_param p)) (H_ReplyTo p)"
    using name_tokens read_reply_to [OF p]
    by (intro single_field [OF _ _ _ name_branches(10)]) (simp_all add: show_reply_to_def)
qed

lemma other_fields:
  "via_ok v \<Longrightarrow> is_field ''Via'' (via_text v) (H_Via v)"
  "cseq_ok c \<Longrightarrow> is_field ''CSeq'' (show_word (cs_cseq c) @ CHR '' '' # method_str (cs_method c)) (H_CSeq c)"
  "route_ok (rt_name_addr r) (rt_params r) \<Longrightarrow> is_field ''Route'' (show_name_addr (rt_name_addr r) @ show_params (rt_params r)) (H_Route r)"
  "route_ok (rr_addr s) (rr_params s) \<Longrightarrow> is_field ''Record-Route'' (show_name_addr (rr_addr s) @ show_params (rr_params s)) (H_RecordRoute s)"
  "ms \<noteq> [] \<Longrightarrow> \<forall>m\<in>set ms. m \<noteq> Unknown \<Longrightarrow> is_field ''Allow'' (show_list method_str ms) (H_Allow ms)"
  "ts \<noteq> [] \<Longrightarrow> \<forall>m\<in>set ts. media_type_ok m \<Longrightarrow> is_field ''Accept'' (show_list show_media_type ts) (H_Accept ts)"
  "media_type_ok m \<Longrightarrow> is_field ''Content-Type'' (show_media_type m) (H_ContentType m)"
  "header_ok (H_RawHeader h) \<Longrightarrow> is_field (rh_name h) (rh_data h) (H_RawHeader h)"
proof -
  have eta: "\<lparr>rt_name_addr = rt_name_addr r, rt_params = rt_params r\<rparr> = r"
    "\<lparr>rr_addr = rr_addr s, rr_params = rr_params s\<rparr> = s"
    by (cases r, simp) (cases s, simp)
  show "via_ok v \<Longrightarrow> is_field ''Via'' (via_text v) (H_Via v)"
    using name_tokens read_via [of v]
    by (intro repeated_field [OF _ _ _ name_branches(1)]) (simp_all add: show_via_text)
  show "cseq_ok c \<Longrightarrow> is_field ''CSeq'' (show_word (cs_cseq c) @ CHR '' '' # method_str (cs_method c)) (H_CSeq c)"
    using name_tokens read_cseq [of c] number_stops [of "cs_cseq c"]
    by (intro single_field [OF _ _ _ name_branches(5)]) (simp_all add: show_cseq_def)
  show "route_ok (rt_name_addr r) (rt_params r) \<Longrightarrow>
      is_field ''Route'' (show_name_addr (rt_name_addr r) @ show_params (rt_params r)) (H_Route r)"
    using name_tokens read_routes(1,3) [of "rt_name_addr r" "rt_params r", unfolded eta]
    by (intro repeated_field [OF _ _ _ name_branches(8)]) (simp_all add: show_route_def)
  show "route_ok (rr_addr s) (rr_params s) \<Longrightarrow>
      is_field ''Record-Route'' (show_name_addr (rr_addr s) @ show_params (rr_params s)) (H_RecordRoute s)"
    using name_tokens read_routes(2,3) [of "rr_addr s" "rr_params s", unfolded eta]
    by (intro repeated_field [OF _ _ _ name_branches(9)]) (simp_all add: show_record_route_def)
  show "ms \<noteq> [] \<Longrightarrow> \<forall>m\<in>set ms. m \<noteq> Unknown \<Longrightarrow> is_field ''Allow'' (show_list method_str ms) (H_Allow ms)"
    using name_tokens read_value_methods [of ms]
    by (intro single_field [OF _ _ _ name_branches(11)]) (simp_all add: value_printers)
  show "ts \<noteq> [] \<Longrightarrow> \<forall>m\<in>set ts. media_type_ok m \<Longrightarrow> is_field ''Accept'' (show_list show_media_type ts) (H_Accept ts)"
    using name_tokens read_value_media_types [of ts]
    by (intro single_field [OF _ _ _ name_branches(12)]) (simp_all add: value_printers)
  show "media_type_ok m \<Longrightarrow> is_field ''Content-Type'' (show_media_type m) (H_ContentType m)"
    using name_tokens read_media_type [of m, OF _ ends_value_cr]
    by (intro single_field [OF _ _ _ name_branches(18)]) (simp_all add: value_printers value_parsers)
  show "is_field (rh_name h) (rh_data h) (H_RawHeader h)" if h: "header_ok (H_RawHeader h)"
  proof -
    have n: "rh_name h \<notin> known_names" using h by simp
    have "header_value (rh_name h) hs = single read_line (\<lambda>d. H_RawHeader \<lparr>rh_name = rh_name h, rh_data = d\<rparr>) hs" for hs
      by (rule name_branches(28) [OF n])
    then have "is_field (rh_name h) (rh_data h) (H_RawHeader \<lparr>rh_name = rh_name h, rh_data = rh_data h\<rparr>)"
      using h read_value_line [of "rh_data h"]
      by (intro single_field) (auto simp: show_raw_header_def known_names_def)
    then show ?thesis by (cases h) simp
  qed
qed

lemma header_is_field: "header_ok h \<Longrightarrow> \<exists>n v. is_field n v h"
  by (cases h) (auto intro: text_fields number_fields list_fields address_fields other_fields
      simp del: header_ok.simps(28))

end
