(* ===== verification/Sip_Roundtrip.thy ===== *)
theory Sip_Roundtrip
  imports Header_Roundtrip
begin

text \<open>
  The text of a SIP message reads back as the message: the header loop, the start lines and the
  two kinds of message.
\<close>

section \<open>The header loop\<close>

lemma parses_scan_newline: "parses (scanP scan_newline) (crlf @ rest) () rest"
proof -
  have "parses scan_newline (crlf @ rest) () rest"
  proof (rule parsesI)
    fix s assume s: "wf_scanner s" "remaining s = crlf @ rest"
    let ?s1 = "bump (CHR 0x0D) s"
    have s1: "wf_scanner ?s1" "remaining ?s1 = CHR 0x0A # rest"
      using s by (auto simp: crlf_def intro: wf_scanner_bump remaining_bump)
    then have s2: "wf_scanner (bump (CHR 0x0A) ?s1)" "remaining (bump (CHR 0x0A) ?s1) = rest"
      by (auto intro: wf_scanner_bump remaining_bump)
    have "scan_newline s = (Ok (), bump (CHR 0x0A) ?s1)"
      using s s1 by (simp add: scan_newline_def scan_if_eq_def scan_if_spec crlf_def)
    with s2 show "\<exists>s'. scan_newline s = (Ok (), s') \<and> wf_scanner s' \<and> remaining s' = rest" by blast
  qed
  then show ?thesis unfolding scanP_def by (rule parses_map_errP)
qed

lemma read_header_name:
  assumes "token_ok n" and "stops is_space rest"
  shows "parses header_name (n @ '': '' @ rest) n rest"
proof -
  have colon: "\<not> is_token CHR '':''" "\<not> is_space CHR '':''" by (simp_all add: class_iffs class_bytes is_space_def)
  have "parses read_token (n @ '': '' @ rest) n ('': '' @ rest)"
    unfolding read_token_def using assms(1) colon by (intro parses_read_unchecked) (auto simp: token_ok_def)
  moreover have "parses skip_ws ('': '' @ rest) () ('': '' @ rest)" using colon by (intro parses_skip_none) simp
  moreover have "parses skip_ws (CHR '' '' # rest) () rest"
    using parses_skip_ws [of "CHR '' '' # rest"] dropWhile_stops [OF assms(2)] by (simp add: is_space_def)
  ultimately show ?thesis
    unfolding header_name_def
    by (auto intro!: parses_bindP parses_thenP parses_retP [of n] intro: parses_must)
qed

lemma show_headers_append: "show_headers (hs @ [h]) = bind_res (show_headers hs) (\<lambda>ts.
  bind_res (show_header h) (\<lambda>t. Ok (ts @ t @ crlf)))"
  by (induction hs) (simp_all add: bind_res_assoc)

lemma headers_have_text: "\<forall>h\<in>set hs. header_ok h \<Longrightarrow> \<exists>ts. show_headers hs = Ok ts"
proof (induction hs)
  case (Cons h hs)
  then obtain ts n v where "show_headers hs = Ok ts" "is_field n v h" using header_is_field by fastforce
  then show ?case by (simp add: is_field_def)
qed simp

definition is_content_type :: "header \<Rightarrow> bool" where
  "is_content_type h \<longleftrightarrow> (\<exists>m. h = H_ContentType m)"

text \<open>The text of a header does not begin like the end of the block.\<close>

lemma field_start: "token_ok n \<Longrightarrow> \<exists>b bs. n @ '': '' @ v = b # bs \<and> b \<noteq> CHR 0x0D \<and> b \<noteq> CHR 0x0A"
proof -
  assume "token_ok n"
  moreover have "\<not> is_token CHR 0x0A" by (simp add: class_iffs class_bytes)
  ultimately show ?thesis by (cases n) (auto simp: token_ok_def)
qed

lemma headers_start:
  assumes "\<forall>h\<in>set hs. header_ok h" and "hs \<noteq> []" and "show_headers hs = Ok ts"
  shows "\<exists>b bs. ts = b # bs \<and> b \<noteq> CHR 0x0D \<and> b \<noteq> CHR 0x0A"
proof -
  obtain h hs' where hs: "hs = h # hs'" using assms(2) by (cases hs) auto
  then obtain n v where "is_field n v h" using assms(1) header_is_field [of h] by auto
  then obtain us where "ts = n @ '': '' @ v @ crlf @ us" "token_ok n"
    using assms(3) by (auto simp: hs is_field_def bind_res_Ok_iff)
  then show ?thesis using field_start [of n "v @ crlf @ us"] by simp
qed

lemma read_headers:
  assumes "\<forall>h\<in>set hs. header_ok h" and "hs \<noteq> []" and "show_headers hs = Ok ts"
  shows "parses (loopP headers_body z) (ts @ crlf @ body) (fst z @ hs, snd z \<or> (\<exists>h\<in>set hs. is_content_type h)) (crlf @ body)"
  using assms
proof (induction hs arbitrary: z ts)
  case (Cons h hs)
  obtain n v where f: "is_field n v h" using Cons.prems(1) header_is_field [of h] by auto
  then obtain us where us: "show_headers hs = Ok us" "ts = (n @ '': '' @ v) @ crlf @ us"
    using Cons.prems(3) by (auto simp: is_field_def bind_res_Ok_iff)
  let ?z = "(fst z @ [h], snd z \<or> is_content_type h)"
  let ?rest = "us @ crlf @ body"
  have name: "parses header_name (n @ '': '' @ v @ crlf @ ?rest) n (v @ crlf @ ?rest)"
    using f by (intro read_header_name) (auto simp: is_field_def crlf_def)
  have val: "parses (header_value n (fst z)) (v @ crlf @ ?rest) (fst z @ [h]) (crlf @ ?rest)"
    using f by (simp add: is_field_def crlf_def)
  have ct: "n = ''Content-Type'' \<or> n = ''c'' \<longleftrightarrow> is_content_type h" using f by (simp add: is_field_def is_content_type_def)
  have body: "parses (headers_body z) (ts @ crlf @ body) x ?rest"
    if "x = (if hs = [] then Break ?z else Continue ?z)" for x
  proof -
    obtain b bs where b: "?rest = b # bs" "(b = CHR 0x0D \<or> b = CHR 0x0A) \<longleftrightarrow> hs = []"
      using us(1) headers_start [OF _ _ us(1)] Cons.prems(1) by (cases "hs = []") (auto simp: crlf_def)
    have peek: "parses (askP peek) ?rest (Some b) ?rest" using parses_peek [of id ?rest] b(1) by simp
    have "parses (headers_body z) (n @ '': '' @ v @ crlf @ ?rest) x ?rest"
      unfolding headers_body_def Let_def
      by (rule parses_bindP [OF name], rule parses_bindP [OF val], rule parses_thenP [OF parses_scan_newline],
          rule parses_bindP [OF peek]) (use b(2) ct that in \<open>auto intro: parses_ret\<close>)
    then show ?thesis by (simp add: us(2))
  qed
  show ?case
  proof (cases "hs = []")
    case True
    then have "parses (headers_body z) (ts @ crlf @ body) (Break ?z) ?rest" using body by simp
    from parses_loop_break [of headers_body z, OF this] show ?thesis using True us(1) by simp
  next
    case False
    have "parses (loopP headers_body ?z) ?rest (fst ?z @ hs, snd ?z \<or> (\<exists>h\<in>set hs. is_content_type h)) (crlf @ body)"
      using Cons.prems(1) us(1) False by (intro Cons.IH) auto
    moreover have "length ?rest < length (ts @ crlf @ body)" by (simp add: us(2))
    ultimately show ?thesis
      using parses_loop_continue [of headers_body z] body [of "Continue ?z"] False by (fastforce simp: disj_assoc)
  qed
qed simp

section \<open>Start lines\<close>

lemma parses_skip_newline: "parses skip_newline inp () (dropWhile is_newline inp)"
  using parses_skip [of "takeWhile is_newline inp" is_newline "dropWhile is_newline inp"]
  by (auto simp: skip_newline_def stops_dropWhile dest: set_takeWhileD)

lemma skip_one_newline:
  assumes "stops is_newline rest" shows "parses skip_newline (crlf @ rest) () rest"
  using parses_skip_newline [of "crlf @ rest"] dropWhile_stops [OF assms] by (simp add: crlf_def is_newline_def)

lemma method_token: "\<forall>b\<in>set (method_str m). is_token b"
  by (cases m) (simp_all add: class_iffs class_bytes)

lemma read_request_line:
  assumes "uri_ok (rl_uri l)" and "stops is_newline rest"
  shows "parses parse_request_line (show_request_line l @ rest) l rest"
proof -
  let ?v = "'' SIP/2.0'' @ crlf @ rest"
  have sp: "\<not> is_token CHR '' ''" "is_space CHR '' ''" "\<not> is_space CHR ''S''" by (simp_all add: class_iffs class_bytes is_space_def)
  have m: "parses (scan_whileP is_token) (method_str (rl_method l) @ CHR '' '' # show_uri (rl_uri l) @ ?v) (method_str (rl_method l))
      (CHR '' '' # show_uri (rl_uri l) @ ?v)"
    unfolding scan_whileP_def using method_token sp by (intro parses_scan_while) auto
  have "stops is_space (show_uri (rl_uri l) @ ?v)"
    by (cases "u_scheme (rl_uri l)") (simp_all add: show_uri_def is_space_def)
  then have ws: "parses skip_ws (CHR '' '' # show_uri (rl_uri l) @ ?v) () (show_uri (rl_uri l) @ ?v)"
    using parses_skip_ws [of "CHR '' '' # show_uri (rl_uri l) @ ?v"] sp by (simp add: dropWhile_stops)
  have u: "parses (parse_uri True) (show_uri (rl_uri l) @ ?v) (rl_uri l) (after_uri (rl_uri l) ?v)"
    by (rule read_uri [OF assms(1)]) (simp add: ends_uri_def)
  have "parses skip_ws (after_uri (rl_uri l) ?v) () (SIPV2 @ crlf @ rest)"
    using parses_skip_ws [of "after_uri (rl_uri l) ?v"] sp
    by (cases "u_headers (rl_uri l)") (simp_all add: after_uri_def SIPV2_def)
  moreover have "parses (retP \<lparr>rl_method = method_of_bytes (method_str (rl_method l)), rl_uri = rl_uri l\<rparr>) rest l rest"
    by (simp add: method_of_method_str parses_ret)
  ultimately have "parses parse_request_line (method_str (rl_method l) @ CHR '' '' # show_uri (rl_uri l) @ ?v) l rest"
    unfolding parse_request_line_def
    by (rule parses_bindP [OF m parses_thenP [OF ws parses_bindP [OF u parses_thenP [OF _ parses_thenP [OF read_version
          parses_thenP [OF skip_one_newline [OF assms(2)]]]]]]])
  then show ?thesis by (simp add: show_request_line_def)
qed

lemma read_status_line:
  assumes "value_text (sl_reason l)" and "stops is_newline rest"
  shows "parses parse_status_line (show_status_line l @ rest) l rest"
proof -
  let ?digits = "show_word (as_u16 (sl_code l))" and ?r = "sl_reason l @ crlf @ rest"
  have sp: "is_space CHR '' ''" "\<not> is_ascii_digit CHR '' ''" by (simp_all add: is_space_def is_ascii_digit_def byte_val_def)
  have reason: "stops is_space ?r" "stops is_space (CHR 0x0D # xs)" for xs
    using assms(1) by (cases "sl_reason l"; simp add: value_text_def crlf_def)+
  have "stops is_space (?digits @ CHR '' '' # ?r)" by (rule number_stops)
  then have d1: "parses skip_ws (CHR '' '' # ?digits @ CHR '' '' # ?r) () (?digits @ CHR '' '' # ?r)"
    using parses_skip_ws [of "CHR '' '' # ?digits @ CHR '' '' # ?r"] sp by (simp add: dropWhile_stops)
  have d2: "parses (scan_whileP is_ascii_digit) (?digits @ CHR '' '' # ?r) ?digits (CHR '' '' # ?r)"
    unfolding scan_whileP_def using show_nat_digits sp by (intro parses_scan_while) auto
  have d3: "parses skip_ws (CHR '' '' # ?r) () ?r"
    using parses_skip_ws [of "CHR '' '' # ?r"] sp reason by (simp add: dropWhile_stops)
  have code: "parses parse_status_code (CHR '' '' # ?digits @ CHR '' '' # ?r) (sl_code l) ?r"
    unfolding parse_status_code_def
    by (rule parses_thenP [OF d1 parses_bindP [OF d2 parses_thenP [OF d3 parses_or_elseP [OF parses_resP]]]])
      (rule show_as_u16_of_bytes)
  have line: "parses parse_reason_phrase ?r (sl_reason l) (crlf @ rest)"
    unfolding parse_reason_phrase_def using assms(1) by (intro parses_line) (auto simp: value_text_def crlf_def)
  have "parses parse_status_line (SIPV2 @ CHR '' '' # ?digits @ CHR '' '' # ?r) l rest"
    unfolding parse_status_line_def
    by (rule parses_thenP [OF read_version parses_bindP [OF code parses_bindP [OF line parses_thenP [OF
          skip_one_newline [OF assms(2)] parses_ret]]]]) simp
  then show ?thesis by (simp add: show_status_line_def SIPV2_def)
qed

section \<open>Messages\<close>

text \<open>The last line the encoder writes is the Content-Length header of the body.\<close>

definition body_length :: "sip_body option \<Rightarrow> nat" where
  "body_length body = (case body of Some b \<Rightarrow> length b | None \<Rightarrow> 0)"

definition length_header :: "sip_body option \<Rightarrow> header" where
  "length_header body = H_ContentLength (of_nat (body_length body))"

lemma write_body_header:
  assumes "body_length body < 2 ^ 32"
  shows "\<exists>t. show_header (length_header body) = Ok t \<and>
    write_body body = t @ crlf @ crlf @ (case body of Some b \<Rightarrow> b | None \<Rightarrow> [])"
proof -
  have "unat (of_nat (body_length body) :: u32) = body_length body" using assms by (simp add: unsigned_of_nat take_bit_nat_eq_self)
  then show ?thesis
    by (cases body)
      (simp_all add: length_header_def show_content_length_def write_body_frame MSG_HEADERS_END_crlf body_length_def)
qed

text \<open>The parser keeps a body only when there is a Content-Type header, and skips the line breaks
  it begins with.\<close>

definition body_ok :: "headers \<Rightarrow> sip_body option \<Rightarrow> bool" where
  "body_ok hs body \<longleftrightarrow> body_length body < 2 ^ 32 \<and> opt_all (stops is_newline) body \<and>
     (body \<noteq> None \<longleftrightarrow> (\<exists>h\<in>set hs. is_content_type h))"

definition request_ok :: "request \<Rightarrow> bool" where
  "request_ok r \<longleftrightarrow> uri_ok (rl_uri (rq_line r)) \<and> (\<forall>h\<in>set (rq_headers r). header_ok h) \<and> body_ok (rq_headers r) (rq_body r)"

definition response_ok :: "response \<Rightarrow> bool" where
  "response_ok r \<longleftrightarrow> value_text (sl_reason (rs_line r)) \<and> (\<forall>h\<in>set (rs_headers r). header_ok h) \<and>
     body_ok (rs_headers r) (rs_body r)"

lemma read_block:
  assumes "\<forall>h\<in>set hs. header_ok h" and "body_ok hs body" and "show_headers hs = Ok ts"
    and "msg_body msg = None"
  shows "parses (bindP parse_headers (\<lambda>(hs, found_content_type).
       read_body found_content_type (set_msg_headers hs msg))) (ts @ write_body body)
    (set_msg_body body (set_msg_headers (hs @ [length_header body]) msg)) (case body of Some b \<Rightarrow> b | None \<Rightarrow> crlf)"
proof -
  let ?body = "case body of Some b \<Rightarrow> b | None \<Rightarrow> []"
  obtain t where t: "show_header (length_header body) = Ok t" "write_body body = t @ crlf @ crlf @ ?body"
    using write_body_header [of body] assms(2) by (auto simp: body_ok_def)
  have all: "\<forall>h\<in>set (hs @ [length_header body]). header_ok h" using assms(1) by (simp add: length_header_def)
  have "show_headers (hs @ [length_header body]) = Ok (ts @ t @ crlf)"
    using assms(3) t(1) by (simp add: show_headers_append)
  from read_headers [OF all _ this, of "([], False)" ?body]
  have h: "parses parse_headers (ts @ write_body body) (hs @ [length_header body], body \<noteq> None) (crlf @ ?body)"
    using assms(2) unfolding parse_headers_def t(2)
    by (simp add: body_ok_def is_content_type_def length_header_def)
  show ?thesis
  proof (cases body)
    case None
    have "set_msg_body None (set_msg_headers hs' msg) = set_msg_headers hs' msg" for hs'
      using assms(4)
      by (cases msg; cases "the (msg_request msg)"; cases "the (msg_response msg)") auto
    then show ?thesis using None by (intro parses_bindP [OF h]) (simp add: read_body_def parses_retP)
  next
    case (Some b)
    then have "parses skip_newline (crlf @ b) () b"
      using assms(2) by (intro skip_one_newline) (simp add: body_ok_def opt_all_def)
    moreover have "parses (askP remaining) b b b" by (rule parses_askP)
    ultimately show ?thesis
      using Some by (intro parses_bindP [OF h]) (auto simp: read_body_def intro!: parses_thenP parses_bindP parses_retP)
  qed
qed

lemma headers_not_newline:
  assumes "\<forall>h\<in>set hs. header_ok h" and "body_ok hs body" and "show_headers hs = Ok ts"
  shows "stops is_newline (ts @ write_body body)"
proof -
  obtain t where t: "show_header (length_header body) = Ok t" "\<exists>xs. write_body body = t @ xs"
    using write_body_header [of body] assms(2) by (auto simp: body_ok_def)
  have all: "\<forall>h\<in>set (hs @ [length_header body]). header_ok h" using assms(1) by (simp add: length_header_def)
  have s: "show_headers (hs @ [length_header body]) = Ok (ts @ t @ crlf)"
    using assms(3) t(1) by (simp add: show_headers_append)
  have "t \<noteq> []" using t(1) by (auto simp: length_header_def show_content_length_def)
  then show ?thesis
    using headers_start [OF all _ s] t(2) by (cases ts; cases t) (auto simp: is_newline_def)
qed

lemma not_a_status: "take (length SIPV2) (show_request_line l @ xs) \<noteq> SIPV2"
  by (cases "rl_method l") (simp_all add: show_request_line_def SIPV2_def)

lemma encoded_request_parses:
  assumes "request_ok r"
  shows "\<exists>b. encode_request r = Ok b \<and>
    sip_parse b = Ok (SipRequest (r\<lparr>rq_headers := rq_headers r @ [length_header (rq_body r)]\<rparr>))"
proof -
  have r: "uri_ok (rl_uri (rq_line r))" "\<forall>h\<in>set (rq_headers r). header_ok h" "body_ok (rq_headers r) (rq_body r)"
    using assms by (auto simp: request_ok_def)
  obtain ts where ts: "show_headers (rq_headers r) = Ok ts" using headers_have_text [OF r(2)] by blast
  let ?text = "show_request_line (rq_line r) @ ts @ write_body (rq_body r)"
  let ?msg = "SipRequest (request_with_headers (rl_method (rq_line r)) (rl_uri (rq_line r)) [])"
  have start: "parses (askP is_status_start) ?text False ?text"
    by (rule parses_askP) (simp add: is_status_start_def peek_n_def not_a_status del: take_append)
  have line: "parses (bindP parse_request_line (\<lambda>l. retP (SipRequest (request_with_headers (rl_method l) (rl_uri l) []))))
      ?text ?msg (ts @ write_body (rq_body r))"
    by (rule parses_bindP [OF read_request_line [OF r(1) headers_not_newline [OF r(2,3) ts]] parses_retP])
  have "parses parse_start ?text ?msg (ts @ write_body (rq_body r))"
    unfolding parse_start_def by (rule parses_bindP [OF start]) (simp only: if_True if_False, rule line)
  then have "parses parse_sip_msg ?text (set_msg_body (rq_body r) (set_msg_headers (rq_headers r @ [length_header (rq_body r)]) ?msg))
      (case rq_body r of Some b \<Rightarrow> b | None \<Rightarrow> crlf)"
    unfolding parse_sip_msg_def
    by (rule parses_bindP) (rule read_block [OF r(2,3) ts], simp add: request_with_headers_def)
  from parses_new [OF this] show ?thesis
    using ts by (simp add: encode_request_def sip_parse_def request_with_headers_def)
qed

lemma encoded_response_parses:
  assumes "response_ok r"
  shows "\<exists>b. encode_response r = Ok b \<and>
    sip_parse b = Ok (SipResponse (r\<lparr>rs_headers := rs_headers r @ [length_header (rs_body r)]\<rparr>))"
proof -
  have r: "value_text (sl_reason (rs_line r))" "\<forall>h\<in>set (rs_headers r). header_ok h" "body_ok (rs_headers r) (rs_body r)"
    using assms by (auto simp: response_ok_def)
  obtain ts where ts: "show_headers (rs_headers r) = Ok ts" using headers_have_text [OF r(2)] by blast
  let ?text = "show_status_line (rs_line r) @ ts @ write_body (rs_body r)"
  let ?msg = "SipResponse (response_with_headers (rs_line r) [])"
  have start: "parses (askP is_status_start) ?text True ?text"
    by (rule parses_askP) (simp add: is_status_start_def peek_n_def show_status_line_def SIPV2_def)
  have line: "parses (bindP parse_status_line (\<lambda>l. retP (SipResponse (response_with_headers l []))))
      ?text ?msg (ts @ write_body (rs_body r))"
    by (rule parses_bindP [OF read_status_line [OF r(1) headers_not_newline [OF r(2,3) ts]] parses_retP])
  have "parses parse_start ?text ?msg (ts @ write_body (rs_body r))"
    unfolding parse_start_def by (rule parses_bindP [OF start]) (simp only: if_True if_False, rule line)
  then have "parses parse_sip_msg ?text (set_msg_body (rs_body r) (set_msg_headers (rs_headers r @ [length_header (rs_body r)]) ?msg))
      (case rs_body r of Some b \<Rightarrow> b | None \<Rightarrow> crlf)"
    unfolding parse_sip_msg_def
    by (rule parses_bindP) (rule read_block [OF r(2,3) ts], simp add: response_with_headers_def)
  from parses_new [OF this] show ?thesis
    using ts by (simp add: encode_response_def sip_parse_def response_with_headers_def show_status_line_def)
qed

end
