(* ===== verification/Sip_Exchange.thy ===== *)
theory Sip_Exchange
  imports Sip_Roundtrip Client_Laws
begin

text \<open>
  A request and its response over the wire: the sending client transaction, the receiving
  transport, the response made from the request, and the lookup of the client transaction.
\<close>

section \<open>Well-formedness along the way\<close>

lemma reason_bytes:
  "\<forall>b\<in>set (reason code). is_ascii b \<and> \<not> is_newline b" "reason code = [] \<or> \<not> is_space (hd (reason code))"
  by (cases code; simp only: reason.simps; code_simp)+

lemma reason_is_text: "value_text (reason code)"
  using reason_bytes [of code] by (auto simp: value_text_def line_text_def stops_def intro!: valid_utf8_ascii)

lemma first_opt_member: "first_opt f hs = Some x \<Longrightarrow> \<exists>h\<in>set hs. f h = Some x"
  by (induction hs) (auto simp: or_later_def split: option.splits)

lemma last_opt_member: "last_opt f hs = Some x \<Longrightarrow> \<exists>h\<in>set hs. f h = Some x"
  by (induction hs) (auto simp: or_later_def split: option.splits)

lemma mandatory_members:
  assumes "mandatory_of_headers hs = Ok m"
  shows "H_Via (mh_via m) \<in> set hs" and "H_From (mh_from m) \<in> set hs" and "H_To (mh_to m) \<in> set hs"
    and "H_CallId (mh_call_id m) \<in> set hs" and "H_CSeq (mh_cseq m) \<in> set hs"
proof -
  have m: "first_opt via_of hs = Some (mh_via m)" "last_opt from_of hs = Some (mh_from m)"
    "last_opt to_of hs = Some (mh_to m)" "last_opt call_id_of hs = Some (mh_call_id m)"
    "last_opt cseq_of hs = Some (mh_cseq m)"
    using assms by (simp_all add: mandatory_of_headers_iff)
  have via: "via_of h = Some x \<longleftrightarrow> h = H_Via x" for h x by (cases h) auto
  have from': "from_of h = Some x \<longleftrightarrow> h = H_From x" for h x by (cases h) auto
  have to: "to_of h = Some x \<longleftrightarrow> h = H_To x" for h x by (cases h) auto
  have call_id: "call_id_of h = Some x \<longleftrightarrow> h = H_CallId x" for h x by (cases h) auto
  have cseq: "cseq_of h = Some x \<longleftrightarrow> h = H_CSeq x" for h x by (cases h) auto
  show "H_Via (mh_via m) \<in> set hs" using first_opt_member [OF m(1)] by (simp add: via)
  show "H_From (mh_from m) \<in> set hs" using last_opt_member [OF m(2)] by (simp add: from')
  show "H_To (mh_to m) \<in> set hs" using last_opt_member [OF m(3)] by (simp add: to)
  show "H_CallId (mh_call_id m) \<in> set hs" using last_opt_member [OF m(4)] by (simp add: call_id)
  show "H_CSeq (mh_cseq m) \<in> set hs" using last_opt_member [OF m(5)] by (simp add: cseq)
qed

text \<open>The Content-Length header of the encoder does not matter to the mandatory headers.\<close>

lemma mandatory_with_length: "mandatory_of_headers (hs @ [length_header body]) = mandatory_of_headers hs"
  by (simp add: mandatory_of_headers_def length_header_def collect_mandatory_def)

lemma stamped_via_ok: "via_ok v \<Longrightarrow> wf_ip ip \<Longrightarrow> via_ok (v\<lparr>v_received := Some ip\<rparr>)"
  by (simp add: via_ok_def opt_all_def)

lemma made_response_ok:
  assumes "\<forall>h\<in>set (rq_headers (ir_request req)). header_ok h" and "via_ok (mh_via m)"
    and "header_ok (H_From (mh_from m))" "header_ok (H_To (mh_to m))" "header_ok (H_CallId (mh_call_id m))"
      "header_ok (H_CSeq (mh_cseq m))"
    and "opt_all token_ok (v_branch (mh_via m))" and "m = ii_mandatory (ir_info req)" and "opt_all value_text rsn"
  shows "response_ok (create_response req code rsn)"
proof -
  have "header_ok (H_To (response_to m code))"
    using assms(4,7) by (auto simp: response_to_def Let_def set_tag_def to_ok_def tag_ok_def)
  moreover have "header_ok h" if "h \<in> set (drop 1 (filter is_via (rq_headers (ir_request req))))" for h
    using assms(1) that by (meson filter_is_subset in_set_dropD subsetD)
  moreover have "\<not> is_content_type h" if "h \<in> set (drop 1 (filter is_via (rq_headers (ir_request req))))" for h
    using drop_filter_via that by (fastforce simp: is_content_type_def)
  moreover have "\<not> is_content_type h" if "h \<in> set (filter is_record_route (rq_headers (ir_request req)))" for h
    using that by (auto simp: is_content_type_def)
  moreover have "value_text (case rsn of None \<Rightarrow> reason code | Some r \<Rightarrow> r)"
    using assms(9) reason_is_text by (cases rsn) (auto simp: opt_all_def)
  ultimately show ?thesis
    using assms(1-6,8)
    by (auto simp: response_ok_def create_response_def Let_def body_ok_def body_length_def opt_all_def is_content_type_def)
qed

section \<open>Packets\<close>

lemma request_packet:
  assumes "request_ok r" and "mandatory_of_headers (rq_headers r) = Ok m" and "encode_request r = Ok b"
  shows "process_message t src b = Ok (Some (IncomingRequest
    \<lparr>ir_request = r\<lparr>rq_headers := rq_headers r @ [length_header (rq_body r)]\<rparr>,
     ir_info = \<lparr>ii_mandatory = stamp_source src m, ii_transport = t, ii_source = src, ii_data = b\<rparr>\<rparr>))"
  using encoded_request_parses [OF assms(1)] assms(2,3)
  by (auto simp: process_message_def mandatory_with_length incoming_of_def Let_def)

lemma response_packet:
  assumes "response_ok r" and "mandatory_of_headers (rs_headers r) = Ok m" and "encode_response r = Ok b"
  shows "process_message t src b = Ok (Some (IncomingResponse
    \<lparr>is_response = r\<lparr>rs_headers := rs_headers r @ [length_header (rs_body r)]\<rparr>,
     is_info = \<lparr>ii_mandatory = stamp_source src m, ii_transport = t, ii_source = src, ii_data = b\<rparr>\<rparr>))"
  using encoded_response_parses [OF assms(1)] assms(2,3)
  by (auto simp: process_message_def mandatory_with_length incoming_of_def Let_def)

section \<open>The exchange\<close>

text \<open>The response to a request that came by a packet.\<close>

lemma answered_request:
  assumes "request_ok r" and "mandatory_of_headers (rq_headers r) = Ok m" and "encode_request r = Ok b"
    and "opt_all token_ok (v_branch (mh_via m))" and "wf_ip (sa_ip src)" and "opt_all value_text rsn"
  obtains req where "process_message t src b = Ok (Some (IncomingRequest req))"
    and "ir_request req = r\<lparr>rq_headers := rq_headers r @ [length_header (rq_body r)]\<rparr>"
    and "ii_mandatory (ir_info req) = stamp_source src m"
    and "response_ok (create_response req code rsn)"
proof -
  let ?req = "\<lparr>ir_request = r\<lparr>rq_headers := rq_headers r @ [length_header (rq_body r)]\<rparr>,
     ir_info = \<lparr>ii_mandatory = stamp_source src m, ii_transport = t, ii_source = src, ii_data = b\<rparr>\<rparr>"
  have ok: "header_ok h" if "h \<in> set (rq_headers r)" for h using assms(1) that by (simp add: request_ok_def)
  note m = ok [OF mandatory_members(1) [OF assms(2)]] ok [OF mandatory_members(2) [OF assms(2)]]
    ok [OF mandatory_members(3) [OF assms(2)]] ok [OF mandatory_members(4) [OF assms(2)]]
    ok [OF mandatory_members(5) [OF assms(2)]]
  have "response_ok (create_response ?req code rsn)"
  proof (rule made_response_ok)
    show "\<forall>h\<in>set (rq_headers (ir_request ?req)). header_ok h" using ok by (auto simp: length_header_def)
    show "via_ok (mh_via (stamp_source src m))" using m(1) assms(5) by (simp add: stamp_source_def stamped_via_ok)
    show "stamp_source src m = ii_mandatory (ir_info ?req)" by simp
    show "opt_all value_text rsn" by (rule assms(6))
  qed (use m assms(4) in \<open>simp_all add: stamp_source_def\<close>)
  with request_packet [OF assms(1-3)] show ?thesis by (intro that) auto
qed

section \<open>A concrete exchange\<close>

lemma parse_ip_name: "to_digit 16 b = None \<Longrightarrow> b \<noteq> CHR '':'' \<Longrightarrow> parse_ip (b # bs) = None"
proof -
  assume b: "to_digit 16 b = None" "b \<noteq> CHR '':''"
  then have d: "to_digit 10 b = None" by (auto simp: to_digit_def Let_def split: if_splits)
  have "read_number 10 255 3 z (b # bs) = None" "read_number 16 65535 4 z (b # bs) = None" for z
    using b d by (simp_all add: read_number_def)
  then have "read_ipv4 (b # bs) = None" and "read_groups True (Suc n) (b # bs) = ([], False, b # bs)" for n
    by (simp_all add: read_ipv4_def read_octet_def read_separator_def)
  from this(1) this(2) [of 7] show ?thesis
    using b(2) by (simp add: parse_ip_def read_ipv6_def read_given_char_def)
qed

lemma localhost_name: "parse_ip ''localhost'' = None" "parse_ip ''home.org'' = None"
  by (rule parse_ip_name; simp add: to_digit_def is_ascii_digit_def is_ascii_lowercase_def byte_val_def)+

text \<open>An INVITE with most of what a text can carry: URI parameters, a quoted display name, tags, generic
  parameters, lists and a body.\<close>

definition full_request :: request where
  "full_request =
     \<lparr>rq_line = \<lparr>rl_method = Invite,
        rl_uri = sample_uri\<lparr>u_user := Some \<lparr>ui_user = ''bob'', ui_pass = None\<rparr>, u_transport_param := Some Tcp,
          u_lr_param := True, u_params := [\<lparr>p_name = ''x'', p_value = Some ''1''\<rparr>]\<rparr>\<rparr>,
      rq_headers =
        [H_Via (sample_via\<lparr>v_comment := Some ''first hop''\<rparr>), H_MaxForwards 70,
         H_From \<lparr>fr_uri = NamedUri \<lparr>na_display = Some ''Alice A.'', na_uri = default_uri\<rparr>, fr_tag = Some ''a1'',
           fr_params = [\<lparr>p_name = ''y'', p_value = None\<rparr>]\<rparr>,
         H_To \<lparr>to_uri = PlainUri sample_uri, to_tag = None, to_params = []\<rparr>,
         H_CallId ''c1@10.0.0.1'', H_CSeq \<lparr>cs_cseq = 314159, cs_method = Invite\<rparr>,
         H_Contact \<lparr>ct_uri = NamedUri \<lparr>na_display = None, na_uri = sample_uri\<lparr>u_ttl_param := Some 3\<rparr>\<rparr>,
           ct_q = Some \<lparr>q_int = 0, q_frac = 5\<rparr>, ct_expires = None, ct_param = []\<rparr>,
         H_Allow [Invite, Ack, Bye], H_Supported [''100rel'', ''timer''],
         H_ContentType (media_type_new ''application'' ''sdp''),
         H_RawHeader \<lparr>rh_name = ''X-Trace'', rh_data = ''on, off''\<rparr>],
      rq_body = Some ''v=0''\<rparr>"

definition full_response :: response where
  "full_response =
     \<lparr>rs_line = \<lparr>sl_code = SC_Ringing, sl_reason = ''Ringing''\<rparr>,
      rs_headers = into_headers (sample_mandatory Invite) @ [H_Server ''sample''], rs_body = None\<rparr>"

lemmas sample_defs = sample_uri_def sample_via_def sample_addr_def default_uri_def default_host_port_def
  default_host_def via_new_udp_def via_new_with_transport_def media_type_new_def Endpoint.host_port_of_addr_def

lemmas ok_defs = uri_ok_def user_ok_def host_port_ok_def uri_params_ok_def plain_params_ok_def ref_ok_def ref_of_def
  name_addr_ok_def bare_uri_def via_ok_def from_ok_def to_ok_def tag_ok_def contact_ok_def cseq_ok_def token_ok_def
  media_type_ok_def value_text_def line_text_def body_ok_def body_length_def opt_all_def quote_def is_content_type_def

lemma sample_texts:
  "valid_utf8 ''first hop''" "valid_utf8 ''Alice A.''" "valid_utf8 ''c1@10.0.0.1''" "valid_utf8 ''on, off''"
  "valid_utf8 ''Ringing''" "valid_utf8 ''sample''"
  by (rule valid_utf8_ascii, code_simp)+

lemma full_request_ok: "request_ok full_request"
  unfolding request_ok_def full_request_def
  by (simp add: sample_defs ok_defs sample_texts localhost_name class_iffs class_bytes is_space_def is_newline_def
      known_names_def)

lemma full_response_ok: "response_ok full_response"
  unfolding response_ok_def full_response_def
  by (simp add: sample_defs ok_defs sample_texts localhost_name class_iffs class_bytes is_space_def is_newline_def
      sample_mandatory_def into_headers_def)

section \<open>Properties\<close>

text \<open>C2: A request that is encoded and parsed comes back with its request line, all its headers in order
  and its body; only the Content-Length header that the encoder appends is new. This holds for every
  method, for requests whose headers have a text the parser can read.\<close>

theorem request_roundtrip:
  assumes "request_ok r"
  shows "\<exists>b. encode_request r = Ok b \<and>
    sip_parse b = Ok (SipRequest (r\<lparr>rq_headers := rq_headers r @ [length_header (rq_body r)]\<rparr>))"
  by (rule encoded_request_parses [OF assms])

theorem request_roundtrip_witness:
  "request_ok full_request \<and> (\<exists>b. encode_request full_request = Ok b \<and>
    sip_parse b = Ok (SipRequest (full_request\<lparr>rq_headers := rq_headers full_request @ [H_ContentLength 3]\<rparr>)))"
  using request_roundtrip [OF full_request_ok] full_request_ok
  by (simp add: full_request_def length_header_def body_length_def)

text \<open>C3: A response that is encoded and parsed comes back with its code, its reason, all its headers in
  order and its body; only the Content-Length header that the encoder appends is new.\<close>

theorem response_roundtrip:
  assumes "response_ok r"
  shows "\<exists>b. encode_response r = Ok b \<and>
    sip_parse b = Ok (SipResponse (r\<lparr>rs_headers := rs_headers r @ [length_header (rs_body r)]\<rparr>))"
  by (rule encoded_response_parses [OF assms])

theorem response_roundtrip_witness:
  "response_ok full_response \<and> (\<exists>b. encode_response full_response = Ok b \<and>
    sip_parse b = Ok (SipResponse (full_response\<lparr>rs_headers := rs_headers full_response @ [H_ContentLength 0]\<rparr>)))"
  using response_roundtrip [OF full_response_ok] full_response_ok
  by (simp add: full_response_def length_header_def body_length_def)

text \<open>C1: Client and server over the wire. When a client transaction has sent its request, the peer that
  gets these bytes receives the request itself; the bytes of any response it makes from it are received
  by the client as that response, and the transaction plugin hands it to the client transaction that
  sent the request. This needs texts that the parsers read, a branch with the RFC 3261 cookie, and the
  method of the request in its CSeq.\<close>

theorem response_reaches_client:
  assumes "client_send nw r target rnd chan rx e = (Ok c, e')"
    and "request_ok (og_request (ct_request c))"
    and "mandatory_of_headers (rq_headers (og_request (ct_request c))) = Ok m"
    and "cs_method (mh_cseq m) = ct_method c"
    and "v_branch (mh_via m) = Some b" and "starts_with RFC3261_BRANCH_ID b" and "token_ok b"
    and "wf_ip (sa_ip src)" and "opt_all value_text rsn"
  shows "\<exists>req data rsp.
    process_message t src (og_encoded (ct_request c)) = Ok (Some (IncomingRequest req)) \<and>
    rq_line (ir_request req) = rq_line (og_request (ct_request c)) \<and>
    rq_body (ir_request req) = rq_body (og_request (ct_request c)) \<and>
    encode_response (create_response req code rsn) = Ok data \<and>
    process_message t' src' data = Ok (Some (IncomingResponse rsp)) \<and>
    rs_line (is_response rsp) = rs_line (create_response req code rsn) \<and>
    tsx_on_response opened (ep_transactions e') rsp cs =
      Ok (None, if opened chan then deliver chan (IncomingResponse rsp) cs else cs)"
proof -
  note c = client_send_facts [OF assms(1)]
  then have b: "encode_request (og_request (ct_request c)) = Ok (og_encoded (ct_request c))"
    and entry: "get_entry (ep_transactions e') (ct_key c) = Some chan"
    and key: "ct_key c = new_key_3261 Uac (ct_method c) b"
    using assms(3,5) by (auto simp: mandatory_of_headers_iff)
  have "opt_all token_ok (v_branch (mh_via m))" using assms(5,7) by (simp add: opt_all_def)
  from answered_request [OF assms(2,3) b this assms(8,9), of t code] obtain req
    where req: "process_message t src (og_encoded (ct_request c)) = Ok (Some (IncomingRequest req))"
      "ir_request req = (og_request (ct_request c))\<lparr>rq_headers := rq_headers (og_request (ct_request c)) @
        [length_header (rq_body (og_request (ct_request c)))]\<rparr>"
      "ii_mandatory (ir_info req) = stamp_source src m" "response_ok (create_response req code rsn)"
    by blast
  obtain data where data: "encode_response (create_response req code rsn) = Ok data"
    using encoded_response_parses [OF req(4)] by blast
  note rsp = response_packet [OF req(4) mandatory_of_response data, of t' src']
  let ?rsp = "\<lparr>is_response = (create_response req code rsn)\<lparr>rs_headers := rs_headers (create_response req code rsn) @
      [length_header (rs_body (create_response req code rsn))]\<rparr>,
    is_info = \<lparr>ii_mandatory = stamp_source src' ((ii_mandatory (ir_info req))\<lparr>mh_to :=
      response_to (ii_mandatory (ir_info req)) code\<rparr>), ii_transport = t', ii_source = src', ii_data = data\<rparr>\<rparr>"
  have "key_from_response ?rsp = Ok (ct_key c)"
    using assms(4-6) by (simp add: key_from_response_def from_incoming_info_def req(3) stamp_source_def key)
  then have "tsx_on_response opened (ep_transactions e') ?rsp cs =
      Ok (None, if opened chan then deliver chan (IncomingResponse ?rsp) cs else cs)"
    using entry by (simp add: tsx_on_response_def)
  with req data rsp show ?thesis by (intro exI [of _ req] exI [of _ data] exI [of _ ?rsp]) simp
qed

lemma sample_bye_ok: "request_ok (ir_request (sample_request Bye sample_udp))"
  unfolding request_ok_def sample_request_def
  by (simp add: sample_defs ok_defs sample_texts localhost_name class_iffs class_bytes is_space_def is_newline_def
      sample_mandatory_def into_headers_def request_with_headers_def)

theorem response_reaches_client_witness:
  "\<exists>c e' req data rsp. client_send sample_network (ir_request (sample_request Bye sample_udp))
      (Some (sample_udp, sample_addr 2 5060)) ''abcdefgh'' 7 (receiver_new [] None) sample_endpoint = (Ok c, e') \<and>
    process_message sample_udp (sample_addr 1 5060) (og_encoded (ct_request c)) = Ok (Some (IncomingRequest req)) \<and>
    encode_response (create_response req SC_Ok None) = Ok data \<and>
    process_message sample_udp (sample_addr 2 5060) data = Ok (Some (IncomingResponse rsp)) \<and>
    tsx_on_response (\<lambda>c. True) (ep_transactions e') rsp (\<lambda>c. []) = Ok (None, deliver 7 (IncomingResponse rsp) (\<lambda>c. []))"
proof -
  obtain c e' where c: "client_send sample_network (ir_request (sample_request Bye sample_udp))
      (Some (sample_udp, sample_addr 2 5060)) ''abcdefgh'' 7 (receiver_new [] None) sample_endpoint = (Ok c, e')"
    "og_request (ct_request c) = ir_request (sample_request Bye sample_udp)" "ct_method c = Bye"
    using sample_bye_sent by blast
  have m: "mandatory_of_headers (rq_headers (og_request (ct_request c))) = Ok (sample_mandatory Bye)"
    by (simp add: c(2) sample_request_def request_with_headers_def into_headers_mandatory)
  have b: "v_branch (mh_via (sample_mandatory Bye)) = Some ''z9hG4bKabcdefgh''"
    "starts_with RFC3261_BRANCH_ID ''z9hG4bKabcdefgh''" "token_ok ''z9hG4bKabcdefgh''"
    "cs_method (mh_cseq (sample_mandatory Bye)) = Bye" "wf_ip (sa_ip (sample_addr 1 5060))"
    by (simp_all add: sample_mandatory_def sample_defs starts_with_def RFC3261_BRANCH_ID_def token_ok_def class_iffs class_bytes)
  show ?thesis
    using response_reaches_client [OF c(1) _ m _ b(1-3) b(5), where rsn = None and code = SC_Ok and t = sample_udp
        and t' = sample_udp and src' = "sample_addr 2 5060" and opened = "\<lambda>c. True" and cs = "\<lambda>c. []"]
      c b(4) sample_bye_ok by (fastforce simp: opt_all_def)
qed

end
