(* ===== verification/Listeners.thy ===== *)
theory Listeners
  imports Transport
begin

text \<open>
  Connections and the listeners that accept them (\<open>rssip/src/transport/tcp.rs\<close> and
  \<open>rssip/src/transport/ws.rs\<close>). Sockets belong to the runtime and HTTP to its libraries: what they
  yield is the input here, one event after another in any interleaving of the connections. What the
  code does with each event is the model: accepting, the upgrade of an HTTP request to a WebSocket,
  the registration of the transport, the packets handed on, and the end of a connection.
\<close>

section \<open>Sockets\<close>

text \<open>What a connected socket answers about its two ends.\<close>

record socket =
  sk_local :: "(error, socket_addr) res"
  sk_peer :: "(error, socket_addr) res"

definition ends_of :: "socket \<Rightarrow> (error, socket_addr \<times> socket_addr) res" where
  "ends_of s = bind_res (sk_local s) (\<lambda>a. bind_res (sk_peer s) (\<lambda>b. Ok (a, b)))"

text \<open>\<open>TcpTransport::connect\<close>: the transport is registered under its key before it is returned.\<close>

definition tcp_connect ::
  "nat \<Rightarrow> (error, socket) res \<Rightarrow> registry \<Rightarrow> (error, transport) res \<times> registry" where
  "tcp_connect i stream m =
     (case bind_res stream ends_of of
        Ok (a, b) \<Rightarrow>
          (let t = tcp_transport i a b in (Ok t, register_transport (key_of_transport t) t m))
      | Err e \<Rightarrow> (Err e, m)
      | Panic \<Rightarrow> (Panic, m)
      | OutOfFuel \<Rightarrow> (OutOfFuel, m))"

section \<open>HTTP\<close>

text \<open>The header names are in lower case, as the HTTP library keeps them; a request may repeat a
  name, and looking one up gives the first value.\<close>

type_synonym http_headers = "(bytes \<times> bytes) list"

record http_request =
  hq_method :: bytes
  hq_version :: bytes
  hq_headers :: http_headers

record http_response =
  hs_status :: nat
  hs_version :: bytes
  hs_headers :: http_headers
  hs_body :: bytes

definition WS_PROTOCOL :: bytes where
  "WS_PROTOCOL = ''sip''"

definition WS_ORIGIN :: bytes where
  "WS_ORIGIN = ''http://127.0.0.1''"

definition make_http_response :: "nat \<Rightarrow> bytes \<Rightarrow> http_response" where
  "make_http_response status message =
     \<lparr>hs_status = status, hs_version = ''HTTP/1.1'',
      hs_headers = [(''content-type'', ''text/plain'')], hs_body = message\<rparr>"

text \<open>\<open>get(name).is_some_and(|v| v != expected)\<close>: a header that is absent does not count.\<close>

definition differs :: "http_headers \<Rightarrow> bytes \<Rightarrow> bytes \<Rightarrow> bool" where
  "differs hs name expected =
     (case map_of hs name of Some v \<Rightarrow> v \<noteq> expected | None \<Rightarrow> False)"

definition switching_protocols :: "bytes \<Rightarrow> bytes \<Rightarrow> http_response" where
  "switching_protocols version accept =
     \<lparr>hs_status = 101, hs_version = version,
      hs_headers = [(''upgrade'', ''websocket''), (''connection'', ''Upgrade''),
        (''sec-websocket-accept'', accept), (''sec-websocket-protocol'', WS_PROTOCOL)],
      hs_body = []\<rparr>"

text \<open>The answer to a request. \<open>accept_key\<close> is the library's computation of the accept key and its
  conversion to a header value, which the code unwraps.\<close>

definition upgrade_to_websocket ::
  "(bytes \<Rightarrow> bytes option) \<Rightarrow> http_request \<Rightarrow> (error, http_response) res" where
  "upgrade_to_websocket accept_key r =
     (let hs = hq_headers r in
      if hq_method r \<noteq> ''GET'' then
        Ok (make_http_response 501 ''Attempt to use unimplemented / unsupported method'')
      else if differs hs ''upgrade'' ''websocket'' then Ok (make_http_response 426 ''Upgrade Required'')
      else if differs hs ''sec-websocket-version'' ''13'' then
        Ok (make_http_response 400 ''Invalid Web Socket Version'')
      else if differs hs ''sec-websocket-protocol'' ''sip'' then
        Ok (make_http_response 400 ''Invalid WebSocket Protocol'')
      else
        case map_of hs ''sec-websocket-key'' of
          None \<Rightarrow> Ok (make_http_response 400 ''The Sec-WebSocket-Key has missing'')
        | Some key \<Rightarrow>
            (case accept_key key of
               None \<Rightarrow> Panic
             | Some accept \<Rightarrow> Ok (switching_protocols (hq_version r) accept)))"

section \<open>WebSocket clients\<close>

text \<open>How the library's connection attempt ends; the socket of a connection over TLS is the one
  below the TLS session.\<close>

datatype ws_stream = PlainStream socket | RustlsStream socket | OtherStream
datatype ws_dial = DialTimedOut bytes | DialFailed bytes | Dialed ws_stream

definition client_request :: "(bytes \<rightharpoonup> bytes) \<Rightarrow> (bytes \<rightharpoonup> bytes)" where
  "client_request hs = hs(''sec-websocket-protocol'' \<mapsto> WS_PROTOCOL, ''origin'' \<mapsto> WS_ORIGIN)"

definition ws_stream_ends :: "ws_stream \<Rightarrow> (error, socket_addr \<times> socket_addr) res" where
  "ws_stream_ends st =
     (case st of
        PlainStream s \<Rightarrow> ends_of s
      | RustlsStream s \<Rightarrow> ends_of s
      | OtherStream \<Rightarrow> Err (E_Io ''Unsupported stream type''))"

text \<open>\<open>WebSocketTransport::connect\<close>: \<open>into_request\<close> is the library's reading of the address and
  \<open>dial\<close> the attempt with the headers of the request. The transport is registered by the task that
  is spawned, when it starts.\<close>

definition ws_connect ::
  "nat \<Rightarrow> (bytes \<Rightarrow> (bytes, bytes \<rightharpoonup> bytes) res) \<Rightarrow> ((bytes \<rightharpoonup> bytes) \<Rightarrow> ws_dial) \<Rightarrow> bytes \<Rightarrow>
   (error, transport) res" where
  "ws_connect i into_request dial url =
     bind_res (map_err E_Io (into_request url)) (\<lambda>hs.
       case dial (client_request hs) of
         DialTimedOut e \<Rightarrow> Err (E_Io e)
       | DialFailed e \<Rightarrow> Err (E_Transport (''WebSocket Connection failed '' @ e @ ''!''))
       | Dialed st \<Rightarrow> bind_res (ws_stream_ends st) (\<lambda>(a, b). Ok (ws_transport i a b)))"

text \<open>The task that writes what the transport was given to send: the messages that go out, until
  the first one that fails (all succeed once the list of outcomes has run out).\<close>

fun ws_send_task :: "bool list \<Rightarrow> bytes list \<Rightarrow> bytes list" where
  "ws_send_task outcomes [] = []"
| "ws_send_task [] (m # ms) = m # ws_send_task [] ms"
| "ws_send_task (ok # outcomes) (m # ms) = (if ok then m # ws_send_task outcomes ms else [])"

text \<open>A message is handed to that task through a channel, which is closed when the task has ended.\<close>

definition ws_send_msg :: "bool \<Rightarrow> bytes \<Rightarrow> (error, nat) res" where
  "ws_send_msg receiving buf = (if receiving then Ok (length buf) else Err E_ChannelClosed)"

section \<open>Reading a connection\<close>

text \<open>A reading loop takes one item after another: the packets it hands on, whether it goes on, the
  registry and the world.\<close>

type_synonym 'i reader =
  "transport \<Rightarrow> socket_addr \<Rightarrow> 'i \<Rightarrow> registry \<Rightarrow> world \<Rightarrow> bytes list \<times> bool \<times> registry \<times> world"

text \<open>One round of \<open>tcp_read\<close>; the framed reader yields nothing at the end of the stream.\<close>

fun tcp_item :: "(decode_error + framed_message) option reader" where
  "tcp_item t peer (Some (Inr (Complete data))) m w = ([data], True, m, w)"
| "tcp_item t peer (Some (Inr KeepaliveRequest)) m w =
     (case send_msg t KEEPALIVE_RESPONSE peer w of (ok, w') \<Rightarrow> ([], ok, m, w'))"
| "tcp_item t peer (Some (Inr KeepaliveResponse)) m w = ([], True, m, w)"
| "tcp_item t peer (Some (Inl e)) m w = ([], False, m, w)"
| "tcp_item t peer None m w = ([], False, remove_transport (key_of_transport t) m, w)"

text \<open>One round of the loop of \<open>handle_ws_connection\<close>. After a receive error the function returns at
  once; after a close frame or the end of the stream it takes the transport out of the registry.\<close>

datatype ws_message = WsText bytes | WsBinary bytes | WsClose | WsOther

fun ws_item :: "(bytes + ws_message) option reader" where
  "ws_item t peer (Some (Inr (WsText d))) m w = ([d], True, m, w)"
| "ws_item t peer (Some (Inr (WsBinary d))) m w = ([d], True, m, w)"
| "ws_item t peer (Some (Inr WsClose)) m w = ([], False, remove_transport (key_of_transport t) m, w)"
| "ws_item t peer (Some (Inr WsOther)) m w = ([], True, m, w)"
| "ws_item t peer (Some (Inl e)) m w = ([], False, m, w)"
| "ws_item t peer None m w = ([], False, remove_transport (key_of_transport t) m, w)"

section \<open>Listeners\<close>

text \<open>The state of a listener: whether its loop still accepts, how many connections it has accepted,
  the ones that still speak HTTP (WebSocket only; the flag tells that the switch of protocols has
  been answered), the open ones with their transports and peers, the registry and the world they
  share with the rest of the endpoint, and the packets handed on and the HTTP responses given so
  far, with the connection of each.\<close>

record listener =
  ls_accepting :: bool
  ls_next :: nat
  ls_http :: "(nat \<times> socket_addr \<times> socket_addr \<times> bool) list"
  ls_open :: "(nat \<times> transport \<times> socket_addr) list"
  ls_registry :: registry
  ls_world :: world
  ls_packets :: "(nat \<times> bytes) list"
  ls_responses :: "(nat \<times> http_response) list"

definition listener_new :: "registry \<Rightarrow> world \<Rightarrow> listener" where
  "listener_new m w =
     \<lparr>ls_accepting = True, ls_next = 0, ls_http = [], ls_open = [], ls_registry = m, ls_world = w,
      ls_packets = [], ls_responses = []\<rparr>"

definition open_connection :: "nat \<Rightarrow> transport \<Rightarrow> socket_addr \<Rightarrow> listener \<Rightarrow> listener" where
  "open_connection n t peer s =
     s\<lparr>ls_open := (n, t, peer) # ls_open s,
       ls_registry := register_transport (key_of_transport t) t (ls_registry s)\<rparr>"

definition read_item :: "'i reader \<Rightarrow> nat \<Rightarrow> 'i \<Rightarrow> listener \<Rightarrow> listener" where
  "read_item read n i s =
     (case map_of (ls_open s) n of
        None \<Rightarrow> s
      | Some (t, peer) \<Rightarrow>
          (case read t peer i (ls_registry s) (ls_world s) of
             (ds, goes_on, m, w) \<Rightarrow>
               s\<lparr>ls_open := if goes_on then ls_open s else AList.delete n (ls_open s),
                 ls_registry := m, ls_world := w,
                 ls_packets := ls_packets s @ map (Pair n) ds\<rparr>))"

text \<open>\<open>TcpListener::accept_clients\<close> and \<open>on_accepted\<close>, and the loops of the accepted connections.
  A failed accept ends the listener.\<close>

datatype tcp_event =
    TcpAccepted socket socket_addr
  | TcpAcceptFailed
  | TcpItem nat "(decode_error + framed_message) option"

definition tcp_on_accepted :: "socket \<Rightarrow> socket_addr \<Rightarrow> listener \<Rightarrow> listener" where
  "tcp_on_accepted stream addr s =
     (let n = ls_next s; s' = s\<lparr>ls_next := Suc n\<rparr> in
      case ends_of stream of
        Ok (a, b) \<Rightarrow> open_connection n (tcp_transport n a b) addr s'
      | _ \<Rightarrow> s')"

fun tcp_step :: "listener \<Rightarrow> tcp_event \<Rightarrow> listener" where
  "tcp_step s (TcpAccepted stream addr) = (if ls_accepting s then tcp_on_accepted stream addr s else s)"
| "tcp_step s TcpAcceptFailed = s\<lparr>ls_accepting := False\<rparr>"
| "tcp_step s (TcpItem n i) = read_item tcp_item n i s"

text \<open>The same of \<open>WebSocketListener\<close>: a failed accept is passed over, but a connection that does not
  tell its local address ends the listener. A request that is answered with 101 is followed by the
  upgrade, when the library completes it.\<close>

datatype ws_event =
    WsAccepted "(error, socket_addr) res" socket_addr
  | WsAcceptFailed
  | WsRequest nat http_request
  | WsUpgraded nat
  | WsItem nat "(bytes + ws_message) option"

definition ws_accept :: "(error, socket_addr) res \<Rightarrow> socket_addr \<Rightarrow> listener \<Rightarrow> listener" where
  "ws_accept local_addr remote s =
     (case local_addr of
        Ok a \<Rightarrow> s\<lparr>ls_next := Suc (ls_next s), ls_http := (ls_next s, a, remote, False) # ls_http s\<rparr>
      | _ \<Rightarrow> s\<lparr>ls_accepting := False\<rparr>)"

definition handle_ws_connection :: "nat \<Rightarrow> transport \<Rightarrow> socket_addr \<Rightarrow> listener \<Rightarrow> listener" where
  "handle_ws_connection n t peer s = open_connection n t peer s"

definition on_upgrade_completed :: "nat \<Rightarrow> socket_addr \<Rightarrow> socket_addr \<Rightarrow> listener \<Rightarrow> listener" where
  "on_upgrade_completed n local_addr peer s =
     handle_ws_connection n (ws_transport n local_addr peer) peer (s\<lparr>ls_http := AList.delete n (ls_http s)\<rparr>)"
text \<open>The service of one connection: it answers the request, and a panic takes the connection down.\<close>

definition ws_request :: "(bytes \<Rightarrow> bytes option) \<Rightarrow> nat \<Rightarrow> http_request \<Rightarrow> listener \<Rightarrow> listener" where
  "ws_request accept_key n r s =
     (case map_of (ls_http s) n of
        Some (a, remote, False) \<Rightarrow>
          (case upgrade_to_websocket accept_key r of
             Ok rsp \<Rightarrow>
               s\<lparr>ls_responses := ls_responses s @ [(n, rsp)],
                 ls_http := AList.update n (a, remote, hs_status rsp = 101) (ls_http s)\<rparr>
           | _ \<Rightarrow> s\<lparr>ls_http := AList.delete n (ls_http s)\<rparr>)
      | _ \<Rightarrow> s)"

fun ws_step :: "(bytes \<Rightarrow> bytes option) \<Rightarrow> listener \<Rightarrow> ws_event \<Rightarrow> listener" where
  "ws_step accept_key s (WsAccepted local_addr remote) =
     (if ls_accepting s then ws_accept local_addr remote s else s)"
| "ws_step accept_key s WsAcceptFailed = s"
| "ws_step accept_key s (WsRequest n r) = ws_request accept_key n r s"
| "ws_step accept_key s (WsUpgraded n) =
     (case map_of (ls_http s) n of
        Some (a, remote, True) \<Rightarrow> on_upgrade_completed n a remote s
      | _ \<Rightarrow> s)"
| "ws_step accept_key s (WsItem n i) = read_item ws_item n i s"

section \<open>UDP sockets\<close>

text \<open>The receive loop of \<open>UdpTransport\<close>: whether it still runs, and what it has handed on with the
  sources. A receive error ends it; the outcome of answering a keep-alive is ignored.\<close>

record udp_socket =
  us_transport :: transport
  us_receiving :: bool
  us_packets :: "(socket_addr \<times> bytes) list"

definition udp_receive ::
  "udp_socket \<Rightarrow> (bytes + bytes \<times> socket_addr) \<Rightarrow> world \<Rightarrow> udp_socket \<times> world" where
  "udp_receive u ev w =
     (if \<not> us_receiving u then (u, w)
      else case ev of
          Inl e \<Rightarrow> (u\<lparr>us_receiving := False\<rparr>, w)
        | Inr (datagram, source) \<Rightarrow>
            (case receive_datagram datagram of
               Ignore \<Rightarrow> (u, w)
             | AnswerKeepalive \<Rightarrow> (u, snd (send_msg (us_transport u) KEEPALIVE_RESPONSE source w))
             | Deliver d \<Rightarrow> (u\<lparr>us_packets := us_packets u @ [(source, d)]\<rparr>, w)))"

section \<open>Laws of the connections\<close>

text \<open>The connection of \<open>Transport\<close>'s \<open>select_transport\<close> is \<open>tcp_connect\<close>.\<close>

lemma tcp_connect_connects:
  "tcp_connect i stream m = connect_with (fst (tcp_connect i stream m)) m"
  by (simp add: tcp_connect_def connect_with_def Let_def split: res.split prod.split)

lemma ws_connect_transport:
  "ws_connect i into_request dial url = Ok t \<Longrightarrow> tp_protocol t = Ws \<and> \<not> tp_secure t"
  by (cases "into_request url"; auto simp: ws_connect_def ws_transport_def bind_res_Ok_iff split: ws_dial.splits prod.splits)

subsection \<open>What a reading loop promises\<close>

text \<open>\<open>frames is\<close> is what a connection hands on of the items \<open>is\<close>; \<open>calm w\<close> is what the loop needs of
  the world to go on.\<close>

locale connection_reader =
  fixes read :: "'i reader" and calm :: "world \<Rightarrow> bool" and frames :: "'i list \<Rightarrow> bytes list"
  assumes frames_Nil: "frames [] = []"
    and frames_Cons: "calm w \<Longrightarrow> read t peer i m w = (ds, goes_on, m', w') \<Longrightarrow>
      frames (i # is) = ds @ (if goes_on then frames is else [])"
    and calm: "calm w \<Longrightarrow> read t peer i m w = (ds, goes_on, m', w') \<Longrightarrow> calm w'"
    and registry: "read t peer i m w = (ds, goes_on, m', w') \<Longrightarrow>
      m' = m \<or> m' = remove_transport (key_of_transport t) m"

definition packets_of :: "nat \<Rightarrow> listener \<Rightarrow> bytes list" where
  "packets_of n s = map snd (filter (\<lambda>d. fst d = n) (ls_packets s))"

text \<open>Only entries of the registry in \<open>K\<close> are touched, where \<open>m\<close> is the registry at the start.\<close>

definition touches_only :: "transport_key set \<Rightarrow> registry \<Rightarrow> listener \<Rightarrow> bool" where
  "touches_only K m s \<longleftrightarrow>
     (\<forall>n t peer. (n, t, peer) \<in> set (ls_open s) \<longrightarrow> key_of_transport t \<in> K) \<and>
     (\<forall>k. k \<notin> K \<longrightarrow> map_of (ls_registry s) k = map_of m k)"

lemma touches_only_update [simp]:
  "touches_only K m (s\<lparr>ls_next := i\<rparr>) = touches_only K m s"
  "touches_only K m (s\<lparr>ls_accepting := b\<rparr>) = touches_only K m s"
  "touches_only K m (s\<lparr>ls_http := h\<rparr>) = touches_only K m s"
  "touches_only K m (s\<lparr>ls_responses := rs\<rparr>) = touches_only K m s"
  by (simp_all add: touches_only_def)

lemma touches_only_new: "touches_only K m (listener_new m w)"
  by (simp add: touches_only_def listener_new_def)

lemma touches_only_open:
  "touches_only K m s \<Longrightarrow> key_of_transport t \<in> K \<Longrightarrow> touches_only K m (open_connection n t peer s)"
  by (auto simp: touches_only_def open_connection_def transports.find_insert)

lemma packets_of_append [simp]:
  "packets_of n (s\<lparr>ls_packets := ls_packets s @ map (Pair k) ds\<rparr>) =
     packets_of n s @ (if k = n then ds else [])"
  by (simp add: packets_of_def filter_map comp_def)

context connection_reader
begin

definition still_to_come :: "nat \<Rightarrow> 'i list \<Rightarrow> listener \<Rightarrow> bytes list" where
  "still_to_come n is s = (if map_of (ls_open s) n = None then [] else frames is)"

lemma read_calm: "calm (ls_world s) \<Longrightarrow> calm (ls_world (read_item read k i s))"
  by (auto simp: read_item_def dest: calm split: option.split prod.split)

lemma read_next [simp]:
  "ls_next (read_item read k i s) = ls_next s"
  "ls_http (read_item read k i s) = ls_http s"
  "ls_accepting (read_item read k i s) = ls_accepting s"
  by (simp_all add: read_item_def split: option.split prod.split)

text \<open>An item moves what it brings from what is still to come to what has been handed on, and an
  item of another connection moves nothing.\<close>

lemma read_progress:
  assumes "calm (ls_world s)"
  shows "packets_of n (read_item read k i s) @ still_to_come n is (read_item read k i s) =
    packets_of n s @ still_to_come n (if k = n then i # is else is) s"
proof (cases "map_of (ls_open s) k")
  case None
  then show ?thesis by (auto simp: read_item_def still_to_come_def)
next
  case (Some c)
  obtain t peer where c: "c = (t, peer)" by (cases c)
  obtain ds goes_on m w where r: "read t peer i (ls_registry s) (ls_world s) = (ds, goes_on, m, w)"
    by (metis prod_cases4)
  from Some c r frames_Cons [OF assms r] show ?thesis
    by (auto simp: read_item_def still_to_come_def packets_of_def filter_map comp_def delete_conv')
qed

lemma read_touches_only: "touches_only K m s \<Longrightarrow> touches_only K m (read_item read k i s)"
  using set_delete_subset [of k "ls_open s"]
  by (auto simp: read_item_def touches_only_def transports.find_remove dest!: registry map_of_SomeD
      split: option.split prod.split) blast+

lemma read_registry_ok: "registry_ok (ls_registry s) \<Longrightarrow> registry_ok (ls_registry (read_item read k i s))"
  by (auto simp: read_item_def registry_ok_remove dest!: registry split: option.split prod.split)

end
text \<open>What a TCP connection hands on: its frames up to the first error or its end; what a WebSocket
  hands on: its text and binary messages up to the close frame, an error or its end.\<close>

fun tcp_frames :: "(decode_error + framed_message) option list \<Rightarrow> bytes list" where
  "tcp_frames (Some (Inr (Complete data)) # is) = data # tcp_frames is"
| "tcp_frames (Some (Inr f) # is) = tcp_frames is"
| "tcp_frames is = []"

fun ws_frames :: "(bytes + ws_message) option list \<Rightarrow> bytes list" where
  "ws_frames (Some (Inr (WsText d)) # is) = d # ws_frames is"
| "ws_frames (Some (Inr (WsBinary d)) # is) = d # ws_frames is"
| "ws_frames (Some (Inr WsOther) # is) = ws_frames is"
| "ws_frames is = []"

interpretation tcp: connection_reader tcp_item "\<lambda>w. w_outcomes w = []" tcp_frames
proof unfold_locales
  fix w :: world and t peer i m ds goes_on m' w' "is"
  assume "w_outcomes w = []" "tcp_item t peer i m w = (ds, goes_on, m', w')"
  then show "tcp_frames (i # is) = ds @ (if goes_on then tcp_frames is else [])" "w_outcomes w' = []"
    by (cases "(t, peer, i, m, w)" rule: tcp_item.cases; auto simp: send_msg_def)+
next
  fix w :: world and t peer i m ds goes_on m' w'
  assume "tcp_item t peer i m w = (ds, goes_on, m', w')"
  then show "m' = m \<or> m' = remove_transport (key_of_transport t) m"
    by (cases "(t, peer, i, m, w)" rule: tcp_item.cases; auto split: prod.splits)
qed simp

interpretation ws: connection_reader ws_item "\<lambda>w. True" ws_frames
proof unfold_locales
  fix w :: world and t peer i m ds goes_on m' w' "is"
  assume "ws_item t peer i m w = (ds, goes_on, m', w')"
  then show "ws_frames (i # is) = ds @ (if goes_on then ws_frames is else [])"
    "m' = m \<or> m' = remove_transport (key_of_transport t) m"
    by (cases "(t, peer, i, m, w)" rule: ws_item.cases; auto)+
qed simp_all

text \<open>The loop of \<open>tcp_read\<close> over a whole connection is its rounds one after another.\<close>

lemma tcp_read_frames:
  "w_outcomes w = [] \<Longrightarrow> fst (tcp_read t peer items m w) = tcp_frames (map Some items @ [None])"
  by (induction t peer items m w rule: tcp_read.induct)
    (auto simp: send_msg_def split: prod.splits)

subsection \<open>Connections under any interleaving\<close>

fun tcp_items :: "nat \<Rightarrow> tcp_event list \<Rightarrow> (decode_error + framed_message) option list" where
  "tcp_items n [] = []"
| "tcp_items n (TcpItem k i # evs) = (if k = n then i # tcp_items n evs else tcp_items n evs)"
| "tcp_items n (_ # evs) = tcp_items n evs"

fun ws_items :: "nat \<Rightarrow> ws_event list \<Rightarrow> (bytes + ws_message) option list" where
  "ws_items n [] = []"
| "ws_items n (WsItem k i # evs) = (if k = n then i # ws_items n evs else ws_items n evs)"
| "ws_items n (_ # evs) = ws_items n evs"

lemma open_connection_fields [simp]:
  "ls_open (open_connection n t peer s) = (n, t, peer) # ls_open s"
  "ls_next (open_connection n t peer s) = ls_next s"
  "ls_http (open_connection n t peer s) = ls_http s"
  "ls_world (open_connection n t peer s) = ls_world s"
  "ls_packets (open_connection n t peer s) = ls_packets s"
  "ls_accepting (open_connection n t peer s) = ls_accepting s"
  by (simp_all add: open_connection_def)

lemma tcp_on_accepted_other:
  assumes "n < ls_next s"
  shows "map_of (ls_open (tcp_on_accepted stream addr s)) n = map_of (ls_open s) n"
    "packets_of n (tcp_on_accepted stream addr s) = packets_of n s"
    "ls_next (tcp_on_accepted stream addr s) = Suc (ls_next s)"
    "ls_world (tcp_on_accepted stream addr s) = ls_world s"
  using assms by (auto simp: tcp_on_accepted_def Let_def packets_of_def split: res.split)

lemma tcp_isolation:
  assumes "n < ls_next s" and "w_outcomes (ls_world s) = []"
  shows "packets_of n (foldl tcp_step s evs) =
    packets_of n s @ tcp.still_to_come n (tcp_items n evs) s"
  using assms
proof (induction evs arbitrary: s)
  case Nil
  then show ?case by (simp add: tcp.still_to_come_def)
next
  case (Cons ev evs)
  show ?case
  proof (cases ev)
    case (TcpAccepted stream addr)
    with Cons show ?thesis
      by (cases "ls_accepting s") (simp_all add: tcp_on_accepted_other tcp.still_to_come_def)
  next
    case TcpAcceptFailed
    with Cons show ?thesis by (simp add: tcp.still_to_come_def packets_of_def)
  next
    case (TcpItem k i)
    with Cons.prems have "n < ls_next (read_item tcp_item k i s)" "w_outcomes (ls_world (read_item tcp_item k i s)) = []"
      by (simp_all add: tcp.read_calm)
    from Cons.IH [OF this] tcp.read_progress [OF Cons.prems(2), of n k i "tcp_items n evs"]
    show ?thesis using TcpItem by (simp split: if_splits)
  qed
qed

text \<open>A WebSocket connection is read once its upgrade has been completed.\<close>

definition upgraded :: "nat \<Rightarrow> listener \<Rightarrow> bool" where
  "upgraded n s \<longleftrightarrow> n < ls_next s \<and> map_of (ls_http s) n = None"

lemma ws_step_other:
  assumes "upgraded n s" and "\<And>k i. ev \<noteq> WsItem k i"
  shows "upgraded n (ws_step accept_key s ev)"
    "map_of (ls_open (ws_step accept_key s ev)) n = map_of (ls_open s) n"
    "packets_of n (ws_step accept_key s ev) = packets_of n s"
  using assms
  by (cases ev; auto simp: upgraded_def packets_of_def ws_accept_def ws_request_def on_upgrade_completed_def handle_ws_connection_def
      update_conv' delete_conv' split: res.split option.split bool.split)+

lemma ws_isolation:
  assumes "upgraded n s"
  shows "packets_of n (foldl (ws_step accept_key) s evs) =
    packets_of n s @ ws.still_to_come n (ws_items n evs) s"
  using assms
proof (induction evs arbitrary: s)
  case Nil
  then show ?case by (simp add: ws.still_to_come_def)
next
  case (Cons ev evs)
  show ?case
  proof (cases "\<exists>k i. ev = WsItem k i")
    case False
    then have "ws_items n (ev # evs) = ws_items n evs" by (cases ev) auto
    with False ws_step_other [OF Cons.prems, of ev accept_key] Cons.IH [of "ws_step accept_key s ev"] show ?thesis
      by (simp add: ws.still_to_come_def)
  next
    case True
    then obtain k i where ev: "ev = WsItem k i" by blast
    from Cons.prems have "upgraded n (read_item ws_item k i s)" by (simp add: upgraded_def)
    from Cons.IH [OF this] ws.read_progress [OF TrueI, of n k i s "ws_items n evs"] show ?thesis
      using ev by (simp split: if_splits)
  qed
qed

lemma tcp_step_touches_only:
  assumes "touches_only K m s"
    and "\<And>stream addr a. ev = TcpAccepted stream addr \<Longrightarrow> sk_local stream = Ok a \<Longrightarrow>
      \<lparr>tk_addr = a, tk_protocol = Tcp\<rparr> \<in> K"
  shows "touches_only K m (tcp_step s ev)"
proof (cases ev)
  case (TcpAccepted stream addr)
  have "key_of_transport (tcp_transport n a b) \<in> K" if "ends_of stream = Ok (a, b)" for n a b
    using that assms(2) [OF TcpAccepted, of a]
    by (simp add: ends_of_def bind_res_Ok_iff tcp_transport_def key_of_transport_def)
  with assms(1) TcpAccepted show ?thesis
    by (auto simp: tcp_on_accepted_def Let_def intro!: touches_only_open split: res.split)
qed (use assms(1) in \<open>simp_all add: tcp.read_touches_only\<close>)

lemma ws_step_touches_only:
  assumes "touches_only K m s" and "\<And>a. \<lparr>tk_addr = a, tk_protocol = Ws\<rparr> \<in> K"
  shows "touches_only K m (ws_step accept_key s ev)"
proof -
  have "key_of_transport (ws_transport n a b) \<in> K" for n a b
    using assms(2) by (simp add: ws_transport_def key_of_transport_def)
  with assms(1) show ?thesis
    by (cases ev)
      (auto simp: ws_accept_def ws_request_def on_upgrade_completed_def handle_ws_connection_def ws.read_touches_only
        intro!: touches_only_open split: res.split option.split bool.split)
qed

lemma registry_ok_open: "registry_ok (ls_registry s) \<Longrightarrow> registry_ok (ls_registry (open_connection n t peer s))"
  by (simp add: open_connection_def registry_ok_register)

lemma tcp_step_registry_ok: "registry_ok (ls_registry s) \<Longrightarrow> registry_ok (ls_registry (tcp_step s ev))"
  by (cases ev)
    (auto simp: tcp_on_accepted_def Let_def tcp.read_registry_ok intro!: registry_ok_open split: res.split)

lemma ws_step_registry_ok: "registry_ok (ls_registry s) \<Longrightarrow> registry_ok (ls_registry (ws_step accept_key s ev))"
  by (cases ev)
    (auto simp: ws_accept_def ws_request_def on_upgrade_completed_def handle_ws_connection_def ws.read_registry_ok
      intro!: registry_ok_open split: res.split option.split bool.split)

lemma tcp_frames_complete:
  assumes "\<forall>f r. rest \<noteq> Some (Inr f) # r"
  shows "tcp_frames (map (\<lambda>f. Some (Inr (Complete f))) fs @ rest) = fs"
proof (induction fs)
  case Nil
  with assms show ?case by (cases rest rule: tcp_frames.cases) auto
qed simp

section \<open>Properties of the listeners\<close>

text \<open>C10: Connections do not disturb each other: when the bytes that arrive on one connection, cut into chunks
  anywhere, are messages followed by the beginning of another one, and its framed reader yields what
  the decoder makes of them, exactly these messages are handed on, in order, however the connection's
  items interleave with those of the other connections, with new ones, and with their ends.\<close>

theorem tcp_connections_are_isolated:
  assumes "map_of (ls_open s) n = Some c" and "n < ls_next s" and "w_outcomes (ls_world s) = []"
    and "\<forall>f\<in>set fs. is_frame f" and "is_frame (p @ q)" and "q \<noteq> []"
    and "concat chunks = concat fs @ p"
    and "tcp_items n evs = map (Some \<circ> Inr) (fst (feed decode [] chunks)) @ rest"
    and "\<forall>f r. rest \<noteq> Some (Inr f) # r"
  shows "packets_of n (foldl tcp_step s evs) = packets_of n s @ fs"
proof -
  have "feed decode [] chunks = (map Complete fs, p)"
    using assms(4-7) by (intro sip_stream.chunks [of p q fs "[]" "p @ q"]) auto
  with assms show ?thesis
    by (simp add: tcp_isolation tcp.still_to_come_def tcp_frames_complete comp_def)
qed

definition sample_socket :: "u16 \<Rightarrow> socket" where
  "sample_socket port =
     \<lparr>sk_local = Ok \<lparr>sa_ip = IpV4 10 0 0 1, sa_port = 5060\<rparr>,
      sk_peer = Ok \<lparr>sa_ip = IpV4 10 0 0 2, sa_port = port\<rparr>\<rparr>"

definition sample_accepts :: "tcp_event list" where
  "sample_accepts =
     [TcpAccepted (sample_socket 40001) \<lparr>sa_ip = IpV4 10 0 0 2, sa_port = 40001\<rparr>,
      TcpAccepted (sample_socket 40002) \<lparr>sa_ip = IpV4 10 0 0 2, sa_port = 40002\<rparr>]"

definition sample_listener :: listener where
  "sample_listener = foldl tcp_step (listener_new [] new_world) sample_accepts"

lemma sample_listener_fields:
  "map fst (ls_open sample_listener) = [1, 0]" "ls_next sample_listener = 2"
  "ls_world sample_listener = new_world" "ls_packets sample_listener = []"
  by (simp_all add: sample_listener_def sample_accepts_def listener_new_def tcp_on_accepted_def Let_def
      ends_of_def sample_socket_def)

theorem tcp_connections_are_isolated_witness:
  "packets_of 0 (foldl tcp_step sample_listener
      [TcpItem 0 (Some (Inr (Complete sample_frame))), TcpItem 1 (Some (Inr (Complete ''x''))), TcpItem 1 None,
       TcpItem 0 (Some (Inr (Complete sample_frame))), TcpItem 0 None]) = [sample_frame, sample_frame]"
proof -
  have "\<exists>c. map_of (ls_open sample_listener) 0 = Some c"
    using sample_listener_fields(1) by (auto simp: map_eq_Cons_conv)
  moreover have "packets_of 0 sample_listener = []" "sample_frame \<noteq> []"
    by (simp_all add: packets_of_def sample_listener_fields sample_frame_def)
  moreover have "feed decode [] [sample_frame @ sample_frame] = (map Complete [sample_frame, sample_frame], [])"
    using sip_stream.chunks [of "[]" sample_frame "[sample_frame, sample_frame]" "[]" sample_frame
        "[sample_frame @ sample_frame]"] sample_is_frame \<open>sample_frame \<noteq> []\<close>
    by (simp del: feed.simps)
  ultimately show ?thesis
    using tcp_connections_are_isolated [of sample_listener 0 _ "[sample_frame, sample_frame]" "[]" sample_frame
        "[sample_frame @ sample_frame]"
        "[TcpItem 0 (Some (Inr (Complete sample_frame))), TcpItem 1 (Some (Inr (Complete ''x''))), TcpItem 1 None,
          TcpItem 0 (Some (Inr (Complete sample_frame))), TcpItem 0 None]" "[None]"]
    by (auto simp: sample_listener_fields sample_is_frame new_world_def simp del: feed.simps)
qed



text \<open>The upgrade of an HTTP request to a WebSocket is agreed to exactly for a GET request with a key,
  none of whose other headers asks for something else; the answer then switches protocols under the
  version of the request, with the accept_keyd key and the sip protocol. Any other request gets the status
  of the first check it fails, as plain text. (A request that lacks the Upgrade header or the version
  passes these checks.) Nothing panics when the accept_keyd key is a header value.\<close>

theorem websocket_handshake:
  assumes "\<And>key. accept_key key \<noteq> None"
  shows "\<exists>rsp. upgrade_to_websocket accept_key r = Ok rsp \<and>
    (hs_status rsp = 101 \<longleftrightarrow>
       hq_method r = ''GET'' \<and> map_of (hq_headers r) ''upgrade'' \<in> {None, Some ''websocket''} \<and>
       map_of (hq_headers r) ''sec-websocket-version'' \<in> {None, Some ''13''} \<and>
       map_of (hq_headers r) ''sec-websocket-protocol'' \<in> {None, Some ''sip''} \<and>
       map_of (hq_headers r) ''sec-websocket-key'' \<noteq> None) \<and>
    (hs_status rsp = 101 \<longrightarrow>
       hs_version rsp = hq_version r \<and>
       map_of (hs_headers rsp) ''upgrade'' = Some ''websocket'' \<and>
       map_of (hs_headers rsp) ''connection'' = Some ''Upgrade'' \<and>
       map_of (hs_headers rsp) ''sec-websocket-accept'' = Option.bind (map_of (hq_headers r) ''sec-websocket-key'') accept_key \<and>
       map_of (hs_headers rsp) ''sec-websocket-protocol'' = Some ''sip'') \<and>
    (hs_status rsp \<noteq> 101 \<longrightarrow>
       hs_status rsp = (if hq_method r \<noteq> ''GET'' then 501
                        else if differs (hq_headers r) ''upgrade'' ''websocket'' then 426 else 400) \<and>
       hs_headers rsp = [(''content-type'', ''text/plain'')])"
proof -
  have key: "\<exists>a. accept_key k = Some a" for k
    using assms by auto
  show ?thesis
  proof (cases "map_of (hq_headers r) ''sec-websocket-key''")
    case None
    then show ?thesis
      by (auto simp: upgrade_to_websocket_def Let_def differs_def make_http_response_def split: option.split)
  next
    case (Some k)
    obtain a where "accept_key k = Some a" using key by blast
    with Some show ?thesis
      by (auto simp: upgrade_to_websocket_def Let_def differs_def switching_protocols_def
          make_http_response_def WS_PROTOCOL_def split: option.split)
  qed
qed

theorem websocket_handshake_witness:
  "\<exists>rsp. upgrade_to_websocket (\<lambda>key. Some ''accept'')
      \<lparr>hq_method = ''GET'', hq_version = ''HTTP/1.1'', hq_headers = [(''sec-websocket-key'', ''k'')]\<rparr> = Ok rsp \<and>
      hs_status rsp = 101 \<and> map_of (hs_headers rsp) ''sec-websocket-accept'' = Some ''accept''"
  using websocket_handshake [of "\<lambda>key. Some ''accept''"
      "\<lparr>hq_method = ''GET'', hq_version = ''HTTP/1.1'', hq_headers = [(''sec-websocket-key'', ''k'')]\<rparr>"]
  by auto

end
