(* ===== verification/Builder.thy ===== *)
theory Builder
  imports Listeners Dispatch
begin

text \<open>
  The endpoint's builder (\<open>rssip/src/core/endpoint/builder.rs\<close>), the collection of plugins
  (\<open>rssip/src/core/endpoint/plugin.rs\<close>), and the endpoint that it starts: the UDP sockets and the
  listeners with their shared registry of transports. Binding a socket is the system's: \<open>bind\<close> answers
  with the local address or an error, and may depend on the sockets bound before.
\<close>

section \<open>The builder\<close>

text \<open>An address resolver is asked once, for the addresses or an error.\<close>

type_synonym address_resolver = "bytes + socket_addr list"

record 'p builder =
  bu_name :: bytes
  bu_plugins :: "'p list"
  bu_allow :: "sip_method list"
  bu_accept :: accept
  bu_supported :: "bytes list"
  bu_tcp :: "address_resolver list"
  bu_udp :: "address_resolver list"
  bu_ws :: "address_resolver list"

definition builder_new :: "'p builder" where
  "builder_new =
     \<lparr>bu_name = [], bu_plugins = [], bu_allow = [], bu_accept = [], bu_supported = [],
      bu_tcp = [], bu_udp = [], bu_ws = []\<rparr>"

definition with_tcp_addr :: "address_resolver \<Rightarrow> 'p builder \<Rightarrow> 'p builder" where
  "with_tcp_addr a b = b\<lparr>bu_tcp := bu_tcp b @ [a]\<rparr>"

definition with_udp_addr :: "address_resolver \<Rightarrow> 'p builder \<Rightarrow> 'p builder" where
  "with_udp_addr a b = b\<lparr>bu_udp := bu_udp b @ [a]\<rparr>"

definition with_ws_addr :: "address_resolver \<Rightarrow> 'p builder \<Rightarrow> 'p builder" where
  "with_ws_addr a b = b\<lparr>bu_ws := bu_ws b @ [a]\<rparr>"

definition with_name :: "bytes \<Rightarrow> 'p builder \<Rightarrow> 'p builder" where
  "with_name n b = b\<lparr>bu_name := n\<rparr>"

definition add_plugin :: "'p \<Rightarrow> 'p list \<Rightarrow> 'p list" where
  "add_plugin p ps = ps @ [p]"

definition with_plugin :: "'p \<Rightarrow> 'p builder \<Rightarrow> 'p builder" where
  "with_plugin p b = b\<lparr>bu_plugins := add_plugin p (bu_plugins b)\<rparr>"

definition insert_allow :: "sip_method \<Rightarrow> 'p builder \<Rightarrow> 'p builder" where
  "insert_allow m b = b\<lparr>bu_allow := bu_allow b @ [m]\<rparr>"

definition insert_accept :: "media_type \<Rightarrow> 'p builder \<Rightarrow> 'p builder" where
  "insert_accept t b = b\<lparr>bu_accept := bu_accept b @ [t]\<rparr>"

definition insert_supported :: "bytes \<Rightarrow> 'p builder \<Rightarrow> 'p builder" where
  "insert_supported t b = b\<lparr>bu_supported := bu_supported b @ [t]\<rparr>"

section \<open>Plugins\<close>

definition find_plugin :: "('p \<Rightarrow> bool) \<Rightarrow> 'p list \<Rightarrow> 'p option" where
  "find_plugin is_kind ps = find is_kind ps"

text \<open>\<open>Endpoint::plugin\<close> unwraps: an endpoint without the plugin panics.\<close>

definition endpoint_plugin :: "('p \<Rightarrow> bool) \<Rightarrow> 'p list \<Rightarrow> (error, 'p) res" where
  "endpoint_plugin is_kind ps = (case find_plugin is_kind ps of Some p \<Rightarrow> Ok p | None \<Rightarrow> Panic)"

fun is_tsx_plugin :: "plugin \<Rightarrow> bool" where
  "is_tsx_plugin P_Transaction = True"
| "is_tsx_plugin _ = False"

fun is_dialog_plugin :: "plugin \<Rightarrow> bool" where
  "is_dialog_plugin P_Dialog = True"
| "is_dialog_plugin _ = False"

definition tsx_plugin :: "plugin list \<Rightarrow> (error, plugin) res" where
  "tsx_plugin ps = endpoint_plugin is_tsx_plugin ps"

definition ua_plugin :: "plugin list \<Rightarrow> (error, plugin) res" where
  "ua_plugin ps = endpoint_plugin is_dialog_plugin ps"

text \<open>A plugin may change itself and the builder while it is loaded; \<open>on_load\<close> gives both.\<close>

fun load_plugins :: "('p \<Rightarrow> 'p builder \<Rightarrow> 'p \<times> 'p builder) \<Rightarrow> 'p list \<Rightarrow> 'p builder \<Rightarrow> 'p list \<times> 'p builder" where
  "load_plugins on_load [] b = ([], b)"
| "load_plugins on_load (p # ps) b =
     (let (p', b') = on_load p b; (ps', b'') = load_plugins on_load ps b' in (p' # ps', b''))"

section \<open>Building\<close>

text \<open>What the build has started: the sockets bound so far with their protocols and local addresses,
  each with a task of its own that goes on, and the registry.\<close>

type_synonym system_bind = "(protocol \<times> socket_addr) list \<Rightarrow> protocol \<Rightarrow> socket_addr \<Rightarrow> bytes + socket_addr"

record startup =
  st_sockets :: "(protocol \<times> socket_addr) list"
  st_registry :: registry

text \<open>A step that may fail, and what is done after it when it does not.\<close>

definition and_then ::
  "(error, unit) res \<times> startup \<Rightarrow> (startup \<Rightarrow> (error, unit) res \<times> startup) \<Rightarrow> (error, unit) res \<times> startup" where
  "and_then r f = (if fst r = Ok () then f (snd r) else r)"

definition start_at :: "system_bind \<Rightarrow> protocol \<Rightarrow> socket_addr \<Rightarrow> startup \<Rightarrow> (error, unit) res \<times> startup" where
  "start_at bind p a s =
     (case bind (st_sockets s) p a of
        Inl e \<Rightarrow> (Err (E_Io e), s)
      | Inr l \<Rightarrow>
          (Ok (), s\<lparr>st_sockets := st_sockets s @ [(p, l)],
                    st_registry :=
                      if p = Udp then
                        (let t = udp_transport (length (st_sockets s)) l in
                         register_transport (key_of_transport t) t (st_registry s))
                      else st_registry s\<rparr>))"

fun start_all :: "system_bind \<Rightarrow> protocol \<Rightarrow> socket_addr list \<Rightarrow> startup \<Rightarrow> (error, unit) res \<times> startup" where
  "start_all bind p [] s = (Ok (), s)"
| "start_all bind p (a # as) s =
     and_then (start_at bind p a s) (start_all bind p as)"

text \<open>The loops take the resolvers from the end of their list.\<close>

function start_resolvers ::
  "system_bind \<Rightarrow> protocol \<Rightarrow> address_resolver list \<Rightarrow> startup \<Rightarrow> (error, unit) res \<times> startup" where
  "start_resolvers bind p rs s =
     (if rs = [] then (Ok (), s)
      else case last rs of
          Inl e \<Rightarrow> (Err (E_Io e), s)
        | Inr as \<Rightarrow> and_then (start_all bind p as s) (start_resolvers bind p (butlast rs)))"
  by pat_completeness auto
termination
  by (relation "measure (\<lambda>(bind, p, rs, s). length rs)") auto

declare start_resolvers.simps [simp del]

definition start_sockets :: "system_bind \<Rightarrow> 'p builder \<Rightarrow> startup \<Rightarrow> (error, unit) res \<times> startup" where
  "start_sockets bind b s =
     and_then (start_resolvers bind Tcp (bu_tcp b) s) (\<lambda>s1.
     and_then (start_resolvers bind Udp (bu_udp b) s1) (start_resolvers bind Ws (bu_ws b)))"

definition startup_new :: startup where
  "startup_new = \<lparr>st_sockets = [], st_registry = []\<rparr>"

text \<open>The plugins are taken out of the builder before they are loaded, so what a loading plugin adds to
  the builder's plugins is not kept; the rest of what it changes is.\<close>

definition build ::
  "('p \<Rightarrow> 'p builder \<Rightarrow> 'p \<times> 'p builder) \<Rightarrow> system_bind \<Rightarrow> world \<Rightarrow> 'p builder \<Rightarrow>
   (error, endpoint \<times> 'p list) res \<times> startup" where
  "build on_load bind w b =
     (let (ps, b') = load_plugins on_load (bu_plugins b) (b\<lparr>bu_plugins := []\<rparr>) in
      case start_sockets bind b' startup_new of
        (r, s) \<Rightarrow>
          (map_ok (\<lambda>_. (\<lparr>ep_name = bu_name b', ep_allow = bu_allow b', ep_accept = bu_accept b',
                         ep_supported = bu_supported b', ep_registry = st_registry s,
                         ep_transactions = [], ep_dialogs = [], ep_world = w\<rparr>, ps)) r, s))"

section \<open>The running endpoint\<close>

text \<open>The tasks that the build has started share the registry and the world.\<close>

record running =
  rn_registry :: registry
  rn_world :: world
  rn_udp :: "udp_socket list"
  rn_tcp :: "listener list"
  rn_ws :: "listener list"

definition udp_sockets_of :: "(protocol \<times> socket_addr) list \<Rightarrow> udp_socket list" where
  "udp_sockets_of ss =
     map (\<lambda>(i, p, l). \<lparr>us_transport = udp_transport i l, us_receiving = True, us_packets = []\<rparr>)
       (filter (\<lambda>(i, p, l). p = Udp) (enumerate 0 ss))"

definition listeners_of :: "protocol \<Rightarrow> startup \<Rightarrow> world \<Rightarrow> listener list" where
  "listeners_of p s w = map (\<lambda>x. listener_new (st_registry s) w) (filter (\<lambda>x. fst x = p) (st_sockets s))"

definition running_of :: "startup \<Rightarrow> world \<Rightarrow> running" where
  "running_of s w =
     \<lparr>rn_registry = st_registry s, rn_world = w, rn_udp = udp_sockets_of (st_sockets s),
      rn_tcp = listeners_of Tcp s w, rn_ws = listeners_of Ws s w\<rparr>"

datatype network_event =
    OnUdp nat "bytes + bytes \<times> socket_addr"
  | OnTcp nat tcp_event
  | OnWs nat ws_event

definition share :: "running \<Rightarrow> listener \<Rightarrow> listener" where
  "share r l = l\<lparr>ls_registry := rn_registry r, ls_world := rn_world r\<rparr>"

fun network_step :: "(bytes \<Rightarrow> bytes option) \<Rightarrow> running \<Rightarrow> network_event \<Rightarrow> running" where
  "network_step accept_key r (OnUdp i ev) =
     (if i < length (rn_udp r) then
        case udp_receive (rn_udp r ! i) ev (rn_world r) of
          (u, w) \<Rightarrow> r\<lparr>rn_udp := (rn_udp r)[i := u], rn_world := w\<rparr>
      else r)"
| "network_step accept_key r (OnTcp i ev) =
     (if i < length (rn_tcp r) then
        (let l = tcp_step (share r (rn_tcp r ! i)) ev in
         r\<lparr>rn_tcp := (rn_tcp r)[i := l], rn_registry := ls_registry l, rn_world := ls_world l\<rparr>)
      else r)"
| "network_step accept_key r (OnWs i ev) =
     (if i < length (rn_ws r) then
        (let l = ws_step accept_key (share r (rn_ws r ! i)) ev in
         r\<lparr>rn_ws := (rn_ws r)[i := l], rn_registry := ls_registry l, rn_world := ls_world l\<rparr>)
      else r)"

section \<open>The order of the sockets\<close>

text \<open>The specification of the start: a list of the addresses to bind, the resolvers of each protocol
  from the last to the first, in which a resolver that fails is its error. The sockets are those of
  the beginning of this list, up to the first error.\<close>

type_synonym socket_plan = "(bytes + protocol \<times> socket_addr) list"

fun resolver_plan :: "protocol \<Rightarrow> address_resolver \<Rightarrow> socket_plan" where
  "resolver_plan p (Inl e) = [Inl e]"
| "resolver_plan p (Inr as) = map (\<lambda>a. Inr (p, a)) as"

definition plan_of :: "protocol \<Rightarrow> address_resolver list \<Rightarrow> socket_plan" where
  "plan_of p rs = concat (map (resolver_plan p) (rev rs))"

definition socket_plan :: "'p builder \<Rightarrow> socket_plan" where
  "socket_plan b = plan_of Tcp (bu_tcp b) @ plan_of Udp (bu_udp b) @ plan_of Ws (bu_ws b)"

definition bound_in_order :: "system_bind \<Rightarrow> socket_plan \<Rightarrow> (protocol \<times> socket_addr) list \<Rightarrow> bool" where
  "bound_in_order bind xs ss \<longleftrightarrow>
     length ss \<le> length xs \<and>
     (\<forall>j<length ss. \<exists>p a l. xs ! j = Inr (p, a) \<and> bind (take j ss) p a = Inr l \<and> ss ! j = (p, l))"

definition stopped_by :: "system_bind \<Rightarrow> socket_plan \<Rightarrow> (protocol \<times> socket_addr) list \<Rightarrow> bytes \<Rightarrow> bool" where
  "stopped_by bind xs ss e \<longleftrightarrow>
     length ss < length xs \<and>
     (case xs ! length ss of Inl e' \<Rightarrow> e' = e | Inr (p, a) \<Rightarrow> bind ss p a = Inl e)"

fun run_plan :: "system_bind \<Rightarrow> socket_plan \<Rightarrow> startup \<Rightarrow> (error, unit) res \<times> startup" where
  "run_plan bind [] s = (Ok (), s)"
| "run_plan bind (Inl e # xs) s = (Err (E_Io e), s)"
| "run_plan bind (Inr (p, a) # xs) s =
     and_then (start_at bind p a s) (run_plan bind xs)"

lemma and_then_simps [simp]:
  "and_then (Ok (), s) f = f s"
  "and_then (Err e, s) f = (Err e, s)"
  "and_then (and_then r f) g = and_then r (\<lambda>s. and_then (f s) g)"
  by (simp_all add: and_then_def)

lemma run_plan_append:
  "run_plan bind (xs @ ys) s = and_then (run_plan bind xs s) (run_plan bind ys)"
  by (induction bind xs s rule: run_plan.induct) (simp_all add: and_then_def)

lemma start_all_plan: "start_all bind p as s = run_plan bind (resolver_plan p (Inr as)) s"
  by (induction as arbitrary: s) (simp_all add: and_then_def)

lemma plan_of_last: "rs \<noteq> [] \<Longrightarrow> plan_of p rs = resolver_plan p (last rs) @ plan_of p (butlast rs)"
  by (cases rs rule: rev_cases) (simp_all add: plan_of_def)

lemma start_resolvers_plan: "start_resolvers bind p rs s = run_plan bind (plan_of p rs) s"
proof (induction bind p rs s rule: start_resolvers.induct)
  case (1 bind p rs s)
  show ?case
  proof (cases "rs = []")
    case True
    then show ?thesis by (simp add: start_resolvers.simps plan_of_def)
  next
    case False
    then show ?thesis
      using 1 by (subst start_resolvers.simps)
        (auto simp: plan_of_last run_plan_append start_all_plan and_then_def split: sum.split)
  qed
qed

lemma start_sockets_plan: "start_sockets bind b s = run_plan bind (socket_plan b) s"
  by (simp add: start_sockets_def socket_plan_def start_resolvers_plan [abs_def] run_plan_append [abs_def])

lemma bound_in_order_snoc:
  assumes "bound_in_order bind xs ss" and "length ss < length xs" and "xs ! length ss = Inr (p, a)"
    and "bind ss p a = Inr l"
  shows "bound_in_order bind xs (ss @ [(p, l)])"
  using assms by (auto simp: bound_in_order_def nth_append less_Suc_eq)

lemma run_plan_bound:
  assumes "bound_in_order bind (ys @ xs) (st_sockets s)" and "length (st_sockets s) = length ys"
    and "run_plan bind xs s = (r, s')"
  shows "bound_in_order bind (ys @ xs) (st_sockets s') \<and>
    (r = Ok () \<and> length (st_sockets s') = length (ys @ xs) \<or>
     (\<exists>e. r = Err (E_Io e) \<and> stopped_by bind (ys @ xs) (st_sockets s') e))"
  using assms
proof (induction bind xs s arbitrary: ys rule: run_plan.induct)
  case (3 bind p a xs s)
  show ?case
  proof (cases "bind (st_sockets s) p a")
    case (Inl e)
    with 3 show ?thesis by (auto simp: start_at_def stopped_by_def nth_append)
  next
    case (Inr l)
    let ?s = "snd (start_at bind p a s)"
    have s: "fst (start_at bind p a s) = Ok ()" "st_sockets ?s = st_sockets s @ [(p, l)]"
      using Inr by (simp_all add: start_at_def)
    moreover have "run_plan bind xs ?s = (r, s')"
      using 3(4) s(1) by (simp add: and_then_def)
    moreover have "bound_in_order bind ((ys @ [Inr (p, a)]) @ xs) (st_sockets ?s)"
      using bound_in_order_snoc [OF 3(2), of p a l] 3(3) Inr s by (simp add: nth_append)
    ultimately show ?thesis
      using 3(1) [where x = ?s and ys = "ys @ [Inr (p, a)]"] 3(3) by simp
  qed
qed (auto simp: stopped_by_def nth_append)
text \<open>What the registry holds after the start: the UDP transports and nothing else.\<close>

definition only_udp :: "startup \<Rightarrow> bool" where
  "only_udp s \<longleftrightarrow>
     registry_ok (st_registry s) \<and>
     (\<forall>k. map_of (st_registry s) k \<noteq> None \<longleftrightarrow>
        tk_protocol k = Udp \<and> (Udp, tk_addr k) \<in> set (st_sockets s))"

lemma only_udp_start:
  assumes "only_udp s"
  shows "only_udp (snd (start_at bind p a s))"
proof (cases "bind (st_sockets s) p a")
  case (Inr l)
  let ?t = "udp_transport (length (st_sockets s)) l"
  have "key_of_transport ?t = \<lparr>tk_addr = l, tk_protocol = Udp\<rparr>"
    by (simp add: udp_transport_def key_of_transport_def)
  moreover have "k = \<lparr>tk_addr = l, tk_protocol = Udp\<rparr> \<longleftrightarrow> tk_protocol k = Udp \<and> tk_addr k = l" for k :: transport_key
    by auto
  ultimately show ?thesis
    using assms Inr registry_ok_register [of "st_registry s" ?t] unfolding only_udp_def start_at_def
    by (auto simp: Let_def transports.find_insert)
qed (use assms in \<open>simp add: start_at_def\<close>)

lemma only_udp_plan: "only_udp s \<Longrightarrow> only_udp (snd (run_plan bind xs s))"
proof (induction bind xs s rule: run_plan.induct)
  case (3 bind p a xs s)
  then show ?case
    by (simp add: and_then_def only_udp_start)
qed simp_all

lemma only_udp_new: "only_udp startup_new"
  by (simp add: only_udp_def startup_new_def)

lemma build_startup:
  "build on_load bind w b = (r, s) \<Longrightarrow> \<exists>xs. s = snd (run_plan bind xs startup_new)"
  by (auto simp: build_def start_sockets_plan split: prod.splits) (metis snd_conv)

text \<open>C12: Building an endpoint: the plugins are loaded in order, then the addresses of the plan are bound in
  order until the first that fails. When none fails the endpoint has the capabilities the plugins left
  in the builder and the loaded plugins, and its registry holds exactly the UDP transports. When one
  does, the build fails with that error, and the sockets bound before it and their tasks stay behind:
  nothing stops them.\<close>

theorem build_follows_the_plan:
  assumes "build on_load bind w b = (r, s)"
    and "load_plugins on_load (bu_plugins b) (b\<lparr>bu_plugins := []\<rparr>) = (ps, b')"
  shows "bound_in_order bind (socket_plan b') (st_sockets s) \<and>
    (\<forall>k. map_of (st_registry s) k \<noteq> None \<longleftrightarrow> tk_protocol k = Udp \<and> (Udp, tk_addr k) \<in> set (st_sockets s)) \<and>
    (length (st_sockets s) = length (socket_plan b') \<and>
       (\<exists>e. r = Ok (e, ps) \<and> ep_registry e = st_registry s \<and> ep_allow e = bu_allow b' \<and>
         ep_accept e = bu_accept b' \<and> ep_supported e = bu_supported b' \<and> ep_name e = bu_name b' \<and>
         ep_transactions e = [] \<and> ep_dialogs e = [] \<and> ep_world e = w) \<or>
     (\<exists>x. r = Err (E_Io x) \<and> stopped_by bind (socket_plan b') (st_sockets s) x))"
proof -
  obtain r' where run: "run_plan bind (socket_plan b') startup_new = (r', s)" and
    r: "r = map_ok (\<lambda>_. (\<lparr>ep_name = bu_name b', ep_allow = bu_allow b', ep_accept = bu_accept b',
          ep_supported = bu_supported b', ep_registry = st_registry s,
          ep_transactions = [], ep_dialogs = [], ep_world = w\<rparr>, ps)) r'"
    using assms by (auto simp: build_def start_sockets_plan split: prod.splits)
  have "bound_in_order bind ([] @ socket_plan b') (st_sockets startup_new)" "st_sockets startup_new = []"
    by (simp_all add: bound_in_order_def startup_new_def)
  moreover have "only_udp s"
    using only_udp_plan [OF only_udp_new, of bind "socket_plan b'"] run by simp
  ultimately show ?thesis
    using run_plan_bound [OF _ _ run, of "[]"] r by (auto simp: only_udp_def)
qed

definition sample_bind :: system_bind where
  "sample_bind ss p a = (if sa_port a = 1 then Inl ''denied'' else Inr a)"

definition sample_builder :: "plugin builder" where
  "sample_builder =
     with_tcp_addr (Inr [sample_addr 1 5060])
       (with_udp_addr (Inr [sample_addr 1 1]) (with_udp_addr (Inr [sample_addr 1 5060])
         (with_plugin P_Transaction (with_plugin P_Dialog builder_new))))"

definition no_load :: "'p \<Rightarrow> 'p builder \<Rightarrow> 'p \<times> 'p builder" where
  "no_load p b = (p, b)"

theorem build_follows_the_plan_witness:
  "\<exists>s. build no_load sample_bind new_world sample_builder = (Err (E_Io ''denied''), s) \<and>
     bound_in_order sample_bind (socket_plan (sample_builder\<lparr>bu_plugins := []\<rparr>)) (st_sockets s) \<and>
     st_sockets s = [(Tcp, sample_addr 1 5060)]"
proof -
  have load: "load_plugins no_load (bu_plugins sample_builder) (sample_builder\<lparr>bu_plugins := []\<rparr>) =
      ([P_Dialog, P_Transaction], sample_builder\<lparr>bu_plugins := []\<rparr>)"
    by (simp add: sample_builder_def with_plugin_def add_plugin_def builder_new_def with_tcp_addr_def
        with_udp_addr_def no_load_def)
  have built: "build no_load sample_bind new_world sample_builder =
      (Err (E_Io ''denied''), \<lparr>st_sockets = [(Tcp, sample_addr 1 5060)], st_registry = []\<rparr>)"
    by (simp add: build_def sample_builder_def with_plugin_def add_plugin_def builder_new_def with_tcp_addr_def
        with_udp_addr_def no_load_def start_sockets_def start_resolvers.simps start_at_def sample_bind_def
        startup_new_def sample_addr_def)
  from build_follows_the_plan [OF built load] built show ?thesis by simp
qed
section \<open>What the listeners leave alone\<close>

abbreviation stream_keys :: "transport_key set" where
  "stream_keys \<equiv> {k. tk_protocol k \<noteq> Udp}"

text \<open>The UDP entries of the registry are those of the start, and every open connection is filed under
  another protocol.\<close>

definition streams_only :: "listener \<Rightarrow> bool" where
  "streams_only l \<longleftrightarrow> (\<forall>n t peer. (n, t, peer) \<in> set (ls_open l) \<longrightarrow> tk_protocol (key_of_transport t) \<noteq> Udp)"

definition same_udp :: "registry \<Rightarrow> registry \<Rightarrow> bool" where
  "same_udp m m' \<longleftrightarrow> (\<forall>k. tk_protocol k = Udp \<longrightarrow> map_of m' k = map_of m k)"

definition running_ok :: "registry \<Rightarrow> running \<Rightarrow> bool" where
  "running_ok m r \<longleftrightarrow>
     registry_ok (rn_registry r) \<and> same_udp m (rn_registry r) \<and>
     (\<forall>l \<in> set (rn_tcp r) \<union> set (rn_ws r). streams_only l)"

lemma touches_stream_keys:
  "touches_only stream_keys m s \<longleftrightarrow> same_udp m (ls_registry s) \<and> streams_only s"
  by (auto simp: touches_only_def same_udp_def streams_only_def)

lemma running_ok_share:
  "running_ok m r \<Longrightarrow> l \<in> set (rn_tcp r) \<union> set (rn_ws r) \<Longrightarrow>
     touches_only stream_keys m (share r l) \<and> registry_ok (ls_registry (share r l))"
  by (auto simp: running_ok_def touches_stream_keys share_def streams_only_def)

lemma running_ok_listener:
  assumes "running_ok m r" and "registry_ok (ls_registry l)" and "touches_only stream_keys m l"
    and "set (rn_tcp r') \<union> set (rn_ws r') \<subseteq> insert l (set (rn_tcp r) \<union> set (rn_ws r))"
    and "rn_registry r' = ls_registry l"
  shows "running_ok m r'"
  using assms unfolding running_ok_def touches_stream_keys by auto

lemma running_ok_step:
  assumes "running_ok m r"
  shows "running_ok m (network_step accept_key r ev)"
proof (cases ev)
  case (OnUdp i e)
  then show ?thesis
    using assms by (auto simp: running_ok_def split: prod.split)
next
  case (OnTcp i e)
  show ?thesis
  proof (cases "i < length (rn_tcp r)")
    case True
    let ?l = "share r (rn_tcp r ! i)"
    have "touches_only stream_keys m ?l" "registry_ok (ls_registry ?l)"
      using running_ok_share [OF assms] True by simp_all
    then have "touches_only stream_keys m (tcp_step ?l e)" "registry_ok (ls_registry (tcp_step ?l e))"
      by (auto intro!: tcp_step_touches_only tcp_step_registry_ok)
    then show ?thesis
      using OnTcp True assms set_update_subset_insert [of "rn_tcp r" i "tcp_step ?l e"]
      by (auto simp: Let_def intro!: running_ok_listener [OF assms])
  qed (use OnTcp assms in simp)
next
  case (OnWs i e)
  show ?thesis
  proof (cases "i < length (rn_ws r)")
    case True
    let ?l = "share r (rn_ws r ! i)"
    have "touches_only stream_keys m ?l" "registry_ok (ls_registry ?l)"
      using running_ok_share [OF assms] True by simp_all
    then have "touches_only stream_keys m (ws_step accept_key ?l e)" "registry_ok (ls_registry (ws_step accept_key ?l e))"
      by (auto intro!: ws_step_touches_only ws_step_registry_ok)
    then show ?thesis
      using OnWs True assms set_update_subset_insert [of "rn_ws r" i "ws_step accept_key ?l e"]
      by (auto simp: Let_def intro!: running_ok_listener [OF assms])
  qed (use OnWs assms in simp)
qed

lemma running_ok_start: "only_udp s \<Longrightarrow> running_ok (st_registry s) (running_of s w)"
  by (auto simp: running_ok_def running_of_def only_udp_def listeners_of_def same_udp_def streams_only_def listener_new_def)

lemma running_ok_run: "running_ok m r \<Longrightarrow> running_ok m (foldl (network_step accept_key) r evs)"
  by (induction evs arbitrary: r) (simp_all add: running_ok_step)

text \<open>Selecting a UDP transport, by the UDP entries of a well-formed registry alone.\<close>

lemma select_udp:
  assumes "registry_ok m"
  shows "select_transport cn m a Udp =
    (case get_transport m \<lparr>tk_addr = a, tk_protocol = Udp\<rparr> of Some t \<Rightarrow> (Ok t, m) | None \<Rightarrow> (Err E_UnsupportedTransport, m))"
    and "get_transport m \<lparr>tk_addr = a, tk_protocol = Udp\<rparr> = None \<longleftrightarrow>
      (\<forall>k. tk_protocol k = Udp \<longrightarrow> is_ipv4 (sa_ip (tk_addr k)) = is_ipv4 (sa_ip a) \<longrightarrow> map_of m k = None)"
proof -
  show "select_transport cn m a Udp =
    (case get_transport m \<lparr>tk_addr = a, tk_protocol = Udp\<rparr> of Some t \<Rightarrow> (Ok t, m) | None \<Rightarrow> (Err E_UnsupportedTransport, m))"
    by (simp add: select_transport_def split: option.split)
  have filed: "k = key_of_transport t \<and> map_of m k = Some t" if "(k, t) \<in> set m" for k t
    using assms that by (auto simp: registry_ok_def)
  have udp: "proto_is_unreliable Udp" by (simp add: proto_is_unreliable_def proto_is_reliable_def)
  show "get_transport m \<lparr>tk_addr = a, tk_protocol = Udp\<rparr> = None \<longleftrightarrow>
      (\<forall>k. tk_protocol k = Udp \<longrightarrow> is_ipv4 (sa_ip (tk_addr k)) = is_ipv4 (sa_ip a) \<longrightarrow> map_of m k = None)"
    (is "?none \<longleftrightarrow> ?all")
  proof
    assume ?none
    show ?all
    proof (intro allI impI)
      fix k :: transport_key
      assume k: "tk_protocol k = Udp" "is_ipv4 (sa_ip (tk_addr k)) = is_ipv4 (sa_ip a)"
      show "map_of m k = None"
      proof (rule ccontr)
        assume "map_of m k \<noteq> None"
        then obtain t where "(k, t) \<in> set m" by (auto dest: map_of_SomeD)
        moreover from filed [OF this] k have "tp_protocol t = Udp" "tp_local t = tk_addr k"
          by (auto simp: key_of_transport_def)
        ultimately show False
          using \<open>?none\<close> k(2) udp by (force simp: get_transport_def find_None_iff split: option.splits)
      qed
    qed
  next
    assume all: ?all
    show ?none
    proof (rule ccontr)
      assume "\<not> ?none"
      then obtain t where t: "get_transport m \<lparr>tk_addr = a, tk_protocol = Udp\<rparr> = Some t" by auto
      have "map_of m \<lparr>tk_addr = a, tk_protocol = Udp\<rparr> = None"
        using all by simp
      with t udp obtain k where "(k, t) \<in> set m" "tp_protocol t = Udp" "is_ipv4 (sa_ip (tp_local t)) = is_ipv4 (sa_ip a)"
        by (auto simp: get_transport_def find_Some_iff split: if_splits) (metis nth_mem prod.collapse)+
      with filed all show False by (fastforce simp: key_of_transport_def)
    qed
  qed
qed
text \<open>C11: The sockets of the start serve the endpoint for as long as it runs: whatever the connections of its
  listeners do, accepted, upgraded, read and ended in any order, a request over UDP has a transport
  exactly when the build has bound a UDP socket of the target's address family, and then one that sends
  over UDP, without a new connection.\<close>

theorem built_endpoint_reaches_udp:
  assumes "build on_load bind w b = (r, s)"
    and "m = rn_registry (foldl (network_step accept_key) (running_of s w) evs)"
  shows "if \<exists>l. (Udp, l) \<in> set (st_sockets s) \<and> is_ipv4 (sa_ip l) = is_ipv4 (sa_ip target)
    then \<exists>t. select_transport cn m target Udp = (Ok t, m) \<and> tp_protocol t = Udp
    else select_transport cn m target Udp = (Err E_UnsupportedTransport, m)"
proof -
  from build_startup [OF assms(1)] have s: "only_udp s"
    using only_udp_plan [OF only_udp_new] by auto
  have "running_ok (st_registry s) (foldl (network_step accept_key) (running_of s w) evs)"
    by (rule running_ok_run [OF running_ok_start [OF s]])
  then have m: "registry_ok m" "same_udp (st_registry s) m"
    using assms(2) by (simp_all add: running_ok_def)
  have "map_of m k = None \<longleftrightarrow> (Udp, tk_addr k) \<notin> set (st_sockets s)" if "tk_protocol k = Udp" for k
    using s m(2) that unfolding only_udp_def same_udp_def by metis
  then have "get_transport m \<lparr>tk_addr = target, tk_protocol = Udp\<rparr> = None \<longleftrightarrow>
      \<not> (\<exists>l. (Udp, l) \<in> set (st_sockets s) \<and> is_ipv4 (sa_ip l) = is_ipv4 (sa_ip target))"
    by (metis select_udp(2) [OF m(1)] transport_key.select_convs)
  then show ?thesis
    using get_transport_protocol [OF m(1), of "\<lparr>tk_addr = target, tk_protocol = Udp\<rparr>"]
    by (auto simp: select_udp(1) [OF m(1)])
qed

definition udp_builder :: "plugin builder" where
  "udp_builder = with_tcp_addr (Inr [sample_addr 1 5060]) (with_udp_addr (Inr [sample_addr 1 5060]) builder_new)"

theorem built_endpoint_reaches_udp_witness:
  "\<exists>r s t. build no_load sample_bind new_world udp_builder = (r, s) \<and>
     st_sockets s = [(Tcp, sample_addr 1 5060), (Udp, sample_addr 1 5060)] \<and>
     fst (select_transport (nw_connect sample_network)
       (rn_registry (foldl (network_step Some) (running_of s new_world)
          [OnTcp 0 (TcpAccepted (sample_socket 40001) (sample_addr 2 40001)), OnTcp 0 (TcpItem 0 None)]))
       (sample_addr 9 5070) Udp) = Ok t"
proof -
  obtain r s where b: "build no_load sample_bind new_world udp_builder = (r, s)"
    by (cases "build no_load sample_bind new_world udp_builder")
  then have "st_sockets s = [(Tcp, sample_addr 1 5060), (Udp, sample_addr 1 5060)]"
    by (auto simp: build_def udp_builder_def builder_new_def with_tcp_addr_def with_udp_addr_def no_load_def
        start_sockets_def start_resolvers.simps start_at_def sample_bind_def startup_new_def sample_addr_def)
  with b built_endpoint_reaches_udp [OF b refl, where accept_key = Some and evs =
      "[OnTcp 0 (TcpAccepted (sample_socket 40001) (sample_addr 2 40001)), OnTcp 0 (TcpItem 0 None)]"
      and target = "sample_addr 9 5070" and cn = "nw_connect sample_network"]
  show ?thesis by (auto simp: sample_addr_def)
qed
end
