(* ===== verification/Header_List.thy ===== *)
theory Header_List
  imports Endpoint
begin

text \<open>
  The collection of headers (\<open>rssip/src/message/headers/mod.rs\<close>), a vector with the vector's bounds
  checks: an index out of range is a panic. A method that hands out a mutable reference is modelled by
  what the collection becomes when the reference is written through.
\<close>

section \<open>The operations\<close>

definition headers_new :: headers where
  "headers_new = []"

text \<open>The capacity is only a hint.\<close>

definition headers_with_capacity :: "nat \<Rightarrow> headers" where
  "headers_with_capacity n = headers_new"

definition headers_last :: "headers \<Rightarrow> header option" where
  "headers_last hs = (if hs = [] then None else Some (last hs))"

definition headers_last_mut :: "(header \<Rightarrow> header) \<Rightarrow> headers \<Rightarrow> headers" where
  "headers_last_mut f hs = (if hs = [] then [] else butlast hs @ [f (last hs)])"

fun headers_first_mut :: "(header \<Rightarrow> header) \<Rightarrow> headers \<Rightarrow> headers" where
  "headers_first_mut f [] = []"
| "headers_first_mut f (h # hs) = f h # hs"

definition headers_get :: "headers \<Rightarrow> nat \<Rightarrow> header option" where
  "headers_get hs i = (if i < length hs then Some (hs ! i) else None)"

definition headers_index :: "headers \<Rightarrow> nat \<Rightarrow> (error, header) res" where
  "headers_index hs i = (case headers_get hs i of Some h \<Rightarrow> Ok h | None \<Rightarrow> Panic)"

definition headers_index_mut :: "headers \<Rightarrow> nat \<Rightarrow> (header \<Rightarrow> header) \<Rightarrow> (error, headers) res" where
  "headers_index_mut hs i f = (if i < length hs then Ok (hs[i := f (hs ! i)]) else Panic)"

definition headers_range :: "headers \<Rightarrow> nat \<Rightarrow> nat \<Rightarrow> (error, headers) res" where
  "headers_range hs i j = (if i \<le> j \<and> j \<le> length hs then Ok (take (j - i) (drop i hs)) else Panic)"

definition headers_range_from :: "headers \<Rightarrow> nat \<Rightarrow> (error, headers) res" where
  "headers_range_from hs i = (if i \<le> length hs then Ok (drop i hs) else Panic)"

definition headers_remove :: "nat \<Rightarrow> headers \<Rightarrow> (error, header \<times> headers) res" where
  "headers_remove i hs = (if i < length hs then Ok (hs ! i, take i hs @ drop (Suc i) hs) else Panic)"

definition headers_insert :: "nat \<Rightarrow> header \<Rightarrow> headers \<Rightarrow> (error, headers) res" where
  "headers_insert i h hs = (if i \<le> length hs then Ok (take i hs @ h # drop i hs) else Panic)"

definition headers_insert_mut :: "nat \<Rightarrow> header \<Rightarrow> (header \<Rightarrow> header) \<Rightarrow> headers \<Rightarrow> (error, headers) res" where
  "headers_insert_mut i h f hs = headers_insert i (f h) hs"

definition headers_push :: "header \<Rightarrow> headers \<Rightarrow> headers" where
  "headers_push h hs = hs @ [h]"

definition headers_pop :: "headers \<Rightarrow> header option \<times> headers" where
  "headers_pop hs = (headers_last hs, butlast hs)"

definition headers_extend :: "headers \<Rightarrow> header list \<Rightarrow> headers" where
  "headers_extend hs more_hs = hs @ more_hs"

text \<open>The other collection is emptied.\<close>

definition headers_append :: "headers \<Rightarrow> headers \<Rightarrow> headers \<times> headers" where
  "headers_append hs other = (hs @ other, [])"

text \<open>The headers taken out, and what replaces them is in their place.\<close>

definition headers_splice :: "nat \<Rightarrow> nat \<Rightarrow> header list \<Rightarrow> headers \<Rightarrow> (error, headers \<times> headers) res" where
  "headers_splice i j by_hs hs =
     bind_res (headers_range hs i j) (\<lambda>removed. Ok (removed, take i hs @ by_hs @ drop j hs))"

definition headers_len :: "headers \<Rightarrow> nat" where
  "headers_len hs = length hs"

definition headers_is_empty :: "headers \<Rightarrow> bool" where
  "headers_is_empty hs \<longleftrightarrow> hs = []"

section \<open>Laws\<close>

lemma remove_undoes_insert_header:
  "headers_insert i h hs = Ok hs' \<Longrightarrow> headers_remove i hs' = Ok (h, hs)"
  by (auto simp: headers_insert_def headers_remove_def nth_append split: if_splits)

lemma insert_undoes_remove_header:
  "headers_remove i hs = Ok (h, hs') \<Longrightarrow> headers_insert i h hs' = Ok hs"
  by (auto simp: headers_insert_def headers_remove_def id_take_nth_drop [symmetric] split: if_splits)

lemma splice_inverse:
  "headers_splice i j by_hs hs = Ok (removed, hs') \<Longrightarrow>
     headers_splice i (i + length by_hs) removed hs' = Ok (by_hs, hs)"
  by (auto simp: headers_splice_def headers_range_def bind_res_Ok_iff split: if_splits)
     (metis append_take_drop_id drop_drop le_add_diff_inverse2)

lemma remove_is_splice:
  "headers_remove i hs = map_ok (\<lambda>(removed, hs'). (hd removed, hs')) (headers_splice i (Suc i) [] hs)"
  by (auto simp: headers_remove_def headers_splice_def headers_range_def hd_drop_conv_nth take_Suc)

lemma pop_undoes_push: "headers_pop (headers_push h hs) = (Some h, hs)"
  by (simp add: headers_pop_def headers_push_def headers_last_def)

lemma index_of_less: "index_of p xs = Some i \<Longrightarrow> i < length xs"
  by (induction xs arbitrary: i) (auto split: if_splits)

lemma last_index_of_less: "last_index_of p xs = Some i \<Longrightarrow> i < length xs"
  by (induction xs arbitrary: i) (auto split: if_splits option.splits)

text \<open>The route set is taken apart and put together within bounds: neither call panics.\<close>

lemma route_set_in_bounds:
  "index_of p hs = Some i \<Longrightarrow> headers_remove i hs = Ok (hs ! i, remove_at i hs)"
  "last_index_of p hs = Some i \<Longrightarrow> headers_insert i h hs = Ok (insert_at i h hs)"
  by (auto simp: headers_remove_def headers_insert_def remove_at_def insert_at_def
      dest: index_of_less last_index_of_less)

end
