(* ===== verification/Spec2Isabelle.thy ===== *)
theory Spec2Isabelle
  imports Message_Laws Session_Laws Sip_Exchange Builder Header_List
begin

text \<open>
  A verification library of a SIP user agent stack in Rust: the crate \<open>rssip\<close> (parser, messages,
  transports, transactions, dialogs, sessions), the crate \<open>rssip-utils\<close> (byte scanner and small
  helpers) and the crate \<open>rssip-media\<close> (session descriptions and their negotiation).

  \<^bold>\<open>How the program is put together.\<close> A transport receives a datagram or a stream of bytes. A
  stream is cut into messages by the decoder; each message is parsed, its mandatory headers are
  extracted, and the endpoint hands it to its plugins in order: the dialog plugin delivers the
  requests of a known dialog to that dialog's channel, the transaction plugin delivers a message
  whose key is in its table to that transaction's channel, and an application gets the rest. A
  client transaction sends a request, repeats it and waits for responses; a server transaction
  sends responses and repeats them. A dialog makes requests and responses with its tags and
  sequence numbers; a session is an INVITE dialog with an offer and an answer, which the
  negotiator makes from and checks against session descriptions. What goes out is printed by the
  encoders of messages and descriptions.

  \<^bold>\<open>Theories, in the order of the layers.\<close>

  \<^item> \<open>Sip_Prelude\<close>, \<open>Rust_Std\<close>, \<open>Rust_Str\<close>: machine types, the outcome type \<open>res\<close> (a value, an
    error, a panic, or fuel used up), the collections of hints, the locale \<open>keyed_table\<close> of the
    registries, and what the code uses of Rust's library: ASCII classes, decimal numbers with their
    overflow, UTF-8, IP addresses, trimming.
  \<^item> \<open>Scanner\<close>, \<open>Parse_Monad\<close>: \<open>rssip-utils/src/scanner/mod.rs\<close>, and the composition of fallible
    code over a scanner: \<open>?\<close>, \<open>map_err\<close>, \<open>or_else\<close>, \<open>loop\<close>.
  \<^item> \<open>Sip_Error\<close>, \<open>Sip_Method\<close>, \<open>Sip_Params\<close>, \<open>Status_Code\<close>, \<open>Sip_Uri\<close>, \<open>Auth\<close>, \<open>F32\<close>, \<open>Sip_Headers\<close>,
    \<open>Sip_Message\<close>: the data of \<open>rssip/src/error.rs\<close> and \<open>rssip/src/message/\<close> with its parsers;
    \<open>Parser_Core\<close> and \<open>Uri_Parser\<close>: the token and address levels of \<open>rssip/src/parser.rs\<close> and the loops
    of \<open>rssip/src/macros.rs\<close>; \<open>Header_Display\<close>: the printers of the headers and start lines.
  \<^item> \<open>Framing\<close>: \<open>rssip/src/transport/outgoing.rs\<close> (the encoder) and \<open>decode.rs\<close> (the stream decoder).
  \<^item> \<open>Transport\<close>: \<open>rssip/src/transport/mod.rs\<close> and \<open>incoming.rs\<close> (keys, registry, selection, incoming
    packets) and \<open>rssip/src/core/resolver.rs\<close>; \<open>Listeners\<close>: \<open>tcp.rs\<close>, \<open>ws.rs\<close> and \<open>udp.rs\<close> of the same
    directory, connections and the listeners that accept them, one event after another.
  \<^item> \<open>Fsm\<close>, \<open>Transaction\<close>, \<open>Client_Tsx\<close>, \<open>Server_Tsx\<close>: \<open>rssip/src/transaction/\<close>; \<open>Endpoint\<close>:
    \<open>rssip/src/core/endpoint/mod.rs\<close>; \<open>Header_List\<close>: the collection in \<open>rssip/src/message/headers/mod.rs\<close>;
    \<open>Dispatch\<close>: the chain of plugins; \<open>Builder\<close>: \<open>rssip/src/core/endpoint/builder.rs\<close>, and the endpoint that
    it starts with its sockets, listeners and shared registry.
  \<^item> \<open>Dialog\<close>, \<open>Session\<close>: \<open>rssip/src/ua/dialog.rs\<close> and \<open>session.rs\<close>.
  \<^item> \<open>Sdp\<close>, \<open>Sdp_Parser\<close>, \<open>Negotiator\<close>: \<open>rssip-media/src/sdp/\<close>, \<open>negotiator.rs\<close>, \<open>codec.rs\<close>.

  \<^bold>\<open>How state and effects are modelled.\<close> A function that changes state takes the state and
  returns it: \<open>endpoint\<close> holds the registry of transports, the tables of transactions and dialogs
  and the world, which is a clock in milliseconds, the list of packets sent with their times, and
  the outcomes of future sends. A channel's receiver is the schedule of the messages that will
  arrive in it with their times and the time at which its last sender goes away; waiting moves the
  clock. So a transaction's \<open>loop { select! { .. } }\<close> is a recursive function of the schedule, and the
  statements about it hold for every schedule. Tasks that the code spawns are definitions of their
  own (\<open>run_final\<close>, \<open>run_completed\<close> and their like) that run on the state the spawning function leaves;
  the tasks of the sockets, which go on side by side, are steps (\<open>tcp_step\<close>, \<open>ws_step\<close>, \<open>network_step\<close>)
  over any sequence of events.
  A result is \<open>Ok\<close>, \<open>Err\<close> or \<open>Panic\<close>: an arithmetic overflow, an \<open>expect\<close> of nothing and a \<open>todo!()\<close>
  are panics, as in a build with overflow checks. Numbers that overflow in the program are words of
  their width.

  \<^bold>\<open>Fuel.\<close> The loops of both parsers are \<open>loopP\<close>, whose fuel is one more than the number of bytes
  left when the loop starts. \<open>good_loopP\<close> proves that this is enough for every body that reads a byte
  whenever it goes on, and \<open>good p\<close>, proved for every parser, says that \<open>OutOfFuel\<close> never occurs. All
  other recursions have termination proofs: on the list they walk, on the schedule, or on the
  distance of the clock to a deadline.

  \<^bold>\<open>Parameters.\<close> The system's name lookup and the opening of connections (\<open>network\<close>), the binding of
  sockets (\<open>system_bind\<close>), what sockets and the HTTP and WebSocket libraries yield, the random
  texts of branches and tags, the host's own address for a description without one, and which
  channels still have a receiver are arguments of the definitions that use them; the properties hold
  for all of them, or name what they need as a hypothesis.

  \<^bold>\<open>What the groups of lemmas show.\<close>

  \<^item> \<open>Header_Laws\<close>, \<open>Message_Laws\<close>, \<open>Sdp_Parser\<close>: both parsers return on every input and read within it;
    the one panic the message parser can reach; \<open>Parser_Core\<close>: its unchecked conversions are sound.
  \<^item> \<open>Parses\<close>, \<open>Ip_Laws\<close>: what each scanner operation reads (\<open>parses p inp x rest\<close>), and that the text of an
    IP address reads back. \<open>Uri_Laws\<close>, \<open>Header_Roundtrip\<close>, \<open>Sip_Roundtrip\<close>: the same for URIs, headers
    and whole messages; \<open>Sip_Exchange\<close>: requests and responses survive the wire, and a response reaches
    the client transaction that sent the request. \<open>Sdp_Laws\<close>: session descriptions survive it.
  \<^item> \<open>Framing\<close>: the stream decoder refines the specification that cuts a stream of frames, in chunks
    cut anywhere; \<open>Listeners\<close>: the connections of a listener do not disturb each other, and which entries
    of the registry they touch (the locale \<open>connection_reader\<close>, for TCP and WebSocket).
  \<^item> \<open>Transport\<close>, \<open>Endpoint\<close>: the registry's invariant, connection reuse, route sets, responses.
  \<^item> \<open>Client_Laws\<close>, \<open>Server_Laws\<close>: the times of all retransmissions, the acknowledgement of refusals, the
    order of states that subscribers see, the end of every transaction.
  \<^item> \<open>Builder\<close>: the order in which sockets are bound, what a failed build leaves, and that no connection
    takes the UDP transports from a running endpoint.
  \<^item> \<open>Dispatch\<close>, \<open>Dialog_Laws\<close>: which requests reach a dialog, sequence numbers, the wait for the ACK.
  \<^item> \<open>Negotiator_Laws\<close>: the states of a negotiation, answers against offers and RFC 3264, and both ends
    of an exchange of descriptions; \<open>Session_Laws\<close>: taking up, accepting and placing a call, the ACK of
    a 2xx, the end of a session by a BYE, and that no session is ever established because the media set-up is not written yet.

  The hypotheses of the round trips name the texts that the text form can express (\<open>uri_ok\<close>,
  \<open>header_ok\<close>, \<open>sdp_ok\<close>); what they leave out is what a printer writes and its own parser does not read
  back, such as an IPv6 host without brackets, the expiry of a contact without its name, or a bandwidth line.

  \<^bold>\<open>Not modelled.\<close> Sockets, TLS, HTTP and the WebSocket protocol belong to other libraries: what they
  yield is the input. Logging has no effect on the state. The RTP types have no behaviour. The examples
  only set up an endpoint and print. Conversions and accessors that return a field (\<open>Deref\<close>, \<open>From\<close>,
  getters) have no definitions of their own: the field of the record is used. The authentication
  headers, and the headers that no other part of the stack makes, have their parsers and printers here
  but no round trip.
\<close>

end
